theory Spec2Isabelle
  imports Main "HOL-Library.Word" "HOL-Library.Finite_Map"
begin

section \<open>Buckets and mountpaths (fs/mountfs.go)\<close>

text \<open>
  The data of \<^verbatim>\<open>fs/mountfs.go\<close> that the bucket-directory operations read and write.
  A bucket (\<^verbatim>\<open>cmn.Bck\<close>) carries an optional pointer to its properties; the bucket id
  \<^verbatim>\<open>BID\<close> is a \<^verbatim>\<open>uint64\<close>. A mountpath owns its bucket path cache \<^verbatim>\<open>bpc.m\<close>
  (a Go map from bucket id to directory) and its last sampled capacity.
\<close>

record MirrorConf =
  mirror_Enabled :: bool
  mirror_Copies :: int

record ECConf =
  ec_Enabled :: bool

record BucketProps =
  BID :: "64 word"
  Mirror :: MirrorConf
  EC :: ECConf

record Ns =
  ns_UUID :: string
  ns_Name :: string

record Bck =
  bck_Name :: string
  bck_Provider :: string
  bck_Ns :: Ns
  bck_Props :: "BucketProps option"

record Capacity =
  Used :: "64 word"
  Avail :: "64 word"
  PctUsed :: "32 word"

record MountpathInfo =
  mi_Path :: string
  bpc :: "64 word \<rightharpoonup> string"
  capacity :: Capacity

text \<open>
  Modelled from the spec: the namespace predicates of package \<^verbatim>\<open>cmn\<close> and the prefix
  characters of the path composer are declared outside the files at hand. The spec gives
  the layout \<^verbatim>\<open><mi.path>/@<provider>[/<ns-prefix>]/<bucket>/%<content-type>\<close>, where the
  namespace prefix is absent for the global namespace, \<^verbatim>\<open>@<uuid>#<name>\<close> for a remote one
  and \<^verbatim>\<open>#<name>\<close> for a local non-global one.
\<close>

definition IsGlobal :: "Ns \<Rightarrow> bool" where
  "IsGlobal ns = (ns_UUID ns = [] \<and> ns_Name ns = [])"

definition IsRemote :: "Ns \<Rightarrow> bool" where
  "IsRemote ns = (ns_UUID ns \<noteq> [])"

definition Separator :: char where
  "Separator = CHR ''/''"

definition prefProvider :: char where
  "prefProvider = CHR ''@''"

definition prefNsUUID :: char where
  "prefNsUUID = CHR ''@''"

definition prefNsName :: char where
  "prefNsName = CHR ''#''"

definition prefCT :: char where
  "prefCT = CHR ''%''"

text \<open>
  \<^verbatim>\<open>makePathBuf\<close>: the byte buffer is a string; the capacity hint \<^verbatim>\<open>extra\<close> does not
  change the bytes appended and is left out. With a content type and a non-zero bucket id
  the cached bucket directory, when there is one, replaces the computed prefix
  (\<^verbatim>\<open>goto ct\<close>). The lengths \<^verbatim>\<open>nsLen\<close>, \<^verbatim>\<open>bckNameLen\<close> and \<^verbatim>\<open>ctLen\<close> are positive
  exactly when the namespace is not global, the name is not empty and the content type is
  not empty.
\<close>

definition cachedBdir :: "MountpathInfo \<Rightarrow> Bck \<Rightarrow> string \<Rightarrow> string option" where
  "cachedBdir mi bck contentType =
     (if contentType \<noteq> [] then
        (case bck_Props bck of
           None \<Rightarrow> None
         | Some p \<Rightarrow> if BID p \<noteq> 0 then bpc mi (BID p) else None)
      else None)"

definition ctSuffix :: "string \<Rightarrow> string" where
  "ctSuffix contentType =
     (if contentType \<noteq> [] then [Separator, prefCT] @ contentType else [])"

definition makePathBuf :: "MountpathInfo \<Rightarrow> Bck \<Rightarrow> string \<Rightarrow> string" where
  "makePathBuf mi bck contentType =
     (case cachedBdir mi bck contentType of
        Some bdir \<Rightarrow> bdir @ ctSuffix contentType
      | None \<Rightarrow>
          mi_Path mi @ [Separator, prefProvider] @ bck_Provider bck
          @ (if \<not> IsGlobal (bck_Ns bck) then
               [Separator]
               @ (if IsRemote (bck_Ns bck) then [prefNsUUID] @ ns_UUID (bck_Ns bck) else [])
               @ [prefNsName] @ ns_Name (bck_Ns bck)
             else [])
          @ (if bck_Name bck \<noteq> [] then [Separator] @ bck_Name bck else [])
          @ ctSuffix contentType)"

text \<open>
  \<^verbatim>\<open>MakePathBck\<close> memoizes the bucket directory under the bucket id when the bucket has
  properties; \<^verbatim>\<open>debug.Assert(bid != 0)\<close> is compiled out of production builds. The
  mountpath is returned with its cache as the call leaves it.
\<close>

definition MakePathBck :: "MountpathInfo \<Rightarrow> Bck \<Rightarrow> string \<times> MountpathInfo" where
  "MakePathBck mi bck =
     (case bck_Props bck of
        None \<Rightarrow> (makePathBuf mi bck [], mi)
      | Some p \<Rightarrow>
          (case bpc mi (BID p) of
             Some dir \<Rightarrow> (dir, mi)
           | None \<Rightarrow>
               (let dir = makePathBuf mi bck []
                in (dir, mi\<lparr>bpc := (bpc mi)(BID p \<mapsto> dir)\<rparr>))))"

definition MakePathCT :: "MountpathInfo \<Rightarrow> Bck \<Rightarrow> string \<Rightarrow> string" where
  "MakePathCT mi bck contentType = makePathBuf mi bck contentType"

definition MakePathFQN :: "MountpathInfo \<Rightarrow> Bck \<Rightarrow> string \<Rightarrow> string \<Rightarrow> string" where
  "MakePathFQN mi bck contentType objName =
     makePathBuf mi bck contentType @ [Separator] @ objName"

definition makeDelPathBck :: "MountpathInfo \<Rightarrow> Bck \<Rightarrow> 64 word \<Rightarrow> string \<times> MountpathInfo" where
  "makeDelPathBck mi bck bid =
     (case bpc mi bid of
        Some dir \<Rightarrow> (dir, mi\<lparr>bpc := (bpc mi)(bid := None)\<rparr>)
      | None \<Rightarrow> MakePathBck mi bck)"

text \<open>The bucket directory as the spec's layout writes it, with no cache involved.\<close>

definition bucketDir :: "string \<Rightarrow> Bck \<Rightarrow> string" where
  "bucketDir root bck =
     root @ ''/@'' @ bck_Provider bck
     @ (if ns_UUID (bck_Ns bck) = [] \<and> ns_Name (bck_Ns bck) = [] then []
        else if ns_UUID (bck_Ns bck) = [] then ''/#'' @ ns_Name (bck_Ns bck)
        else ''/@'' @ ns_UUID (bck_Ns bck) @ ''#'' @ ns_Name (bck_Ns bck))
     @ (if bck_Name bck = [] then [] else ''/'' @ bck_Name bck)"

section \<open>The operating system as the bucket-directory code sees it\<close>

text \<open>
  Modelled from the spec: the filesystem helpers \<^verbatim>\<open>fs.Access\<close>, \<^verbatim>\<open>fs.IsDirEmpty\<close> and
  \<^verbatim>\<open>cos.CreateDir\<close>, the clock \<^verbatim>\<open>mono.NanoTime\<close> and the Go runtime's \<^verbatim>\<open>os.Rename\<close>,
  \<^verbatim>\<open>os.RemoveAll\<close> and \<^verbatim>\<open>syscall.Statfs\<close> are outside the files at hand. The spec names
  the suspension points (statfs, rename, open, mkdir) and what the lifecycle needs of
  them: a directory exists or not, is empty or not, a rename moves it, and any call may
  fail. The state below is the least that decides these:
  \<^item> \<open>tree\<close>: the directories that exist, each with the names of its entries (a finite
    map; nesting of directories is not tracked, a directory's content moves with it);
  \<^item> \<open>disks\<close>: what statfs reports for a path;
  \<^item> \<open>faults\<close>: for each coming filesystem call, whether it fails with an I/O error
    (an exhausted script means no more faults);
  \<^item> \<open>clock\<close>: the monotonic clock in nanoseconds, which advances with every reading;
  \<^item> \<open>calls\<close>: the calls issued so far, oldest first.
\<close>

datatype errno = ENOENT | EEXIST | EIO

datatype syscall =
    SysAccess string
  | SysReadDir string
  | SysMkdirAll string
  | SysRemoveAll string
  | SysRename string string
  | SysStatfs string
  | SysNanoTime

record statfs_t =
  Blocks :: "64 word"
  Bavail :: "64 word"
  Bsize :: "64 word"

record os_state =
  tree :: "(string, string list) fmap"
  disks :: "string \<Rightarrow> statfs_t"
  faults :: "bool list"
  clock :: nat
  calls :: "syscall list"

definition faulty :: "os_state \<Rightarrow> bool" where
  "faulty s = (case faults s of [] \<Rightarrow> False | f # _ \<Rightarrow> f)"

definition issue :: "syscall \<Rightarrow> os_state \<Rightarrow> os_state" where
  "issue c s = s\<lparr>faults := tl (faults s), calls := calls s @ [c]\<rparr>"

definition IsNotExist :: "errno \<Rightarrow> bool" where
  "IsNotExist e = (e = ENOENT)"

definition IsExist :: "errno \<Rightarrow> bool" where
  "IsExist e = (e = EEXIST)"

definition Access :: "string \<Rightarrow> os_state \<Rightarrow> errno option \<times> os_state" where
  "Access p s =
     (if faulty s then (Some EIO, issue (SysAccess p) s)
      else if fmlookup (tree s) p = None then (Some ENOENT, issue (SysAccess p) s)
      else (None, issue (SysAccess p) s))"

text \<open>\<^verbatim>\<open>IsDirEmpty\<close> returns the names found, whether there are none, and an error.\<close>

definition IsDirEmpty :: "string \<Rightarrow> os_state \<Rightarrow> (string list \<times> bool \<times> errno option) \<times> os_state" where
  "IsDirEmpty p s =
     (if faulty s then (([], False, Some EIO), issue (SysReadDir p) s)
      else case fmlookup (tree s) p of
             None \<Rightarrow> (([], False, Some ENOENT), issue (SysReadDir p) s)
           | Some names \<Rightarrow> ((names, names = [], None), issue (SysReadDir p) s))"

definition CreateDir :: "string \<Rightarrow> os_state \<Rightarrow> errno option \<times> os_state" where
  "CreateDir p s =
     (if faulty s then (Some EIO, issue (SysMkdirAll p) s)
      else case fmlookup (tree s) p of
             None \<Rightarrow> (None, (issue (SysMkdirAll p) s)\<lparr>tree := fmupd p [] (tree s)\<rparr>)
           | Some _ \<Rightarrow> (None, issue (SysMkdirAll p) s))"

definition RemoveAll :: "string \<Rightarrow> os_state \<Rightarrow> errno option \<times> os_state" where
  "RemoveAll p s =
     (if faulty s then (Some EIO, issue (SysRemoveAll p) s)
      else (None, (issue (SysRemoveAll p) s)\<lparr>tree := fmdrop p (tree s)\<rparr>))"

text \<open>
  A rename fails when the source is missing and when the destination is a directory that
  is not empty; it replaces an empty destination. Renaming a path to itself changes
  nothing.
\<close>

definition Rename :: "string \<Rightarrow> string \<Rightarrow> os_state \<Rightarrow> errno option \<times> os_state" where
  "Rename from to s =
     (if faulty s then (Some EIO, issue (SysRename from to) s)
      else case fmlookup (tree s) from of
             None \<Rightarrow> (Some ENOENT, issue (SysRename from to) s)
           | Some content \<Rightarrow>
               if from = to then (None, issue (SysRename from to) s)
               else (case fmlookup (tree s) to of
                       Some (x # xs) \<Rightarrow> (Some EEXIST, issue (SysRename from to) s)
                     | _ \<Rightarrow> (None, (issue (SysRename from to) s)
                                \<lparr>tree := fmupd to content (fmdrop from (tree s))\<rparr>)))"

definition Statfs :: "string \<Rightarrow> os_state \<Rightarrow> (errno + statfs_t) \<times> os_state" where
  "Statfs p s =
     (if faulty s then (Inl EIO, issue (SysStatfs p) s)
      else (Inr (disks s p), issue (SysStatfs p) s))"

definition NanoTime :: "os_state \<Rightarrow> nat \<times> os_state" where
  "NanoTime s = (clock s, s\<lparr>clock := Suc (clock s), calls := calls s @ [SysNanoTime]\<rparr>)"

text \<open>\<^verbatim>\<open>fmt.Sprintf("%d", n)\<close> for a number that is not negative.\<close>

function decimal :: "nat \<Rightarrow> string" where
  "decimal n =
     (if n < 10 then [char_of (48 + n)]
      else decimal (n div 10) @ [char_of (48 + n mod 10)])"
  by pat_completeness auto
termination
  by (relation "measure id") auto

declare decimal.simps [simp del]

text \<open>\<^verbatim>\<open>filepath.Join\<close> of a cleaned path and one more element.\<close>

definition Join :: "string \<Rightarrow> string \<Rightarrow> string" where
  "Join dir elem = dir @ [Separator] @ elem"

section \<open>Bucket-directory lifecycle (fs/mountfs.go)\<close>

text \<open>
  The errors that the functions return, as values. An error made by \<^verbatim>\<open>fmt.Errorf\<close> from
  the parts named is a constructor with these parts; \<^verbatim>\<open>ErrWrapped\<close> is the commit's
  \<^verbatim>\<open>fmt.Errorf("%s %s: %v", t.si, txn, err)\<close>. A panic of the Go runtime or of
  \<^verbatim>\<open>cmn.Assert\<close> ends the call and is returned in the place of the error.
\<close>

datatype error =
    ErrNoMountpaths
  | OsError errno
  | ErrDestroyDirs Bck nat nat
  | ErrDirNotEmpty Bck string "string list"
  | ErrCreateDir Bck string errno
  | ErrCapacityExceeded "64 word" "32 word" "64 word" "64 word" bool
  | ErrTxnNotFound string
  | ErrTxnBmdTimeout
  | ErrUnmarshal
  | ErrInsufficientMountpaths nat Bck int
  | ErrBucketDoesNotExist Bck
  | ErrBucketAlreadyExists Bck
  | ErrWrapped error
  | PanicDivideByZero
  | PanicNilPointer
  | PanicTypeAssertion
  | PanicAssert

text \<open>
  The available mountpaths are a Go map from path to mountpath: the list gives its
  entries in the order in which one \<^verbatim>\<open>range\<close> loop visits them. The functions below
  take the snapshot that \<^verbatim>\<open>Get()\<close> returned and give it back with the mountpaths as
  the calls left them (their caches are updated in place through the pointers).
\<close>

type_synonym MPI = "(string \<times> MountpathInfo) list"

definition TrashDir :: string where
  "TrashDir = ''$trash''"

definition MakePathTrash :: "MountpathInfo \<Rightarrow> string" where
  "MakePathTrash mi = Join (mi_Path mi) TrashDir"

definition tmpDirName :: "MountpathInfo \<Rightarrow> nat \<Rightarrow> string" where
  "tmpDirName mi t = Join (MakePathTrash mi) (''$dir-'' @ decimal t)"

text \<open>
  \<^verbatim>\<open>MoveToTrash\<close>, from the label \<^verbatim>\<open>Retry\<close> on: a fresh name from the clock, the trash
  directory created, the rename; a destination that exists sends the code back to
  \<^verbatim>\<open>Retry\<close>. The removal of the trashed directory under \<^verbatim>\<open>debug.Func\<close> is compiled
  out of production builds.
\<close>

function moveRetry :: "MountpathInfo \<Rightarrow> string \<Rightarrow> os_state \<Rightarrow> errno option \<times> os_state" where
  "moveRetry mi dir s =
     (case NanoTime s of
        (t, s1) \<Rightarrow>
          (case CreateDir (MakePathTrash mi) s1 of
             (Some e, s2) \<Rightarrow> (Some e, s2)
           | (None, s2) \<Rightarrow>
               (case Rename dir (tmpDirName mi t) s2 of
                  (None, s3) \<Rightarrow> (None, s3)
                | (Some e, s3) \<Rightarrow>
                    if IsExist e then moveRetry mi dir s3
                    else if IsNotExist e then (None, s3)
                    else (Some e, s3))))"
  by pat_completeness auto


text \<open>
  The loop ends: the clock only moves forward, the names it yields are pairwise
  different, and finitely many directories exist. The measure is the number of clock
  values from now on whose name is taken by a directory that is not empty.
\<close>

definition collisions :: "MountpathInfo \<Rightarrow> os_state \<Rightarrow> nat set" where
  "collisions mi s =
     {k. clock s \<le> k \<and> (\<exists>x xs. fmlookup (tree s) (tmpDirName mi k) = Some (x # xs))}"

lemma decimal_nonempty: "decimal n \<noteq> []"
  by (subst decimal.simps) simp

lemma digit_char_inj:
  assumes "a < 10" "b < 10" "char_of (48 + a :: nat) = (char_of (48 + b) :: char)"
  shows "a = b"
proof -
  from assms(3)
  have "of_char (char_of (48 + a) :: char) = (of_char (char_of (48 + b) :: char) :: nat)"
    by simp
  then have "(48 + a) mod 256 = (48 + b) mod 256"
    by (simp only: of_char_of)
  with assms(1,2) show ?thesis by simp
qed

lemma decimal_inj: "decimal m = decimal n \<Longrightarrow> m = n"
proof (induction m arbitrary: n rule: decimal.induct)
  case (1 m)
  show ?case
  proof (cases "m < 10")
    case mlt: True
    show ?thesis
    proof (cases "n < 10")
      case True
      with mlt "1.prems" show ?thesis
        by (subst (asm) decimal.simps, subst (asm) (2) decimal.simps)
           (auto dest: digit_char_inj)
    next
      case False
      with mlt "1.prems" decimal_nonempty [of "n div 10"] show ?thesis
        by (subst (asm) decimal.simps, subst (asm) (2) decimal.simps)
           (cases "decimal (n div 10)", auto)
    qed
  next
    case mge: False
    show ?thesis
    proof (cases "n < 10")
      case True
      with mge "1.prems" decimal_nonempty [of "m div 10"] show ?thesis
        by (subst (asm) decimal.simps, subst (asm) (2) decimal.simps)
           (cases "decimal (m div 10)", auto)
    next
      case False
      from mge False "1.prems" have eq: "decimal (m div 10) = decimal (n div 10)"
        and ch: "char_of (48 + m mod 10) = (char_of (48 + n mod 10) :: char)"
        by (subst (asm) decimal.simps, subst (asm) (2) decimal.simps, simp)+
      from "1.IH" [OF mge eq] have "m div 10 = n div 10" .
      moreover from ch have "m mod 10 = n mod 10"
        by (intro digit_char_inj) auto
      ultimately show ?thesis
        by (metis div_mult_mod_eq)
    qed
  qed
qed

lemma tmpDirName_inj: "tmpDirName mi a = tmpDirName mi b \<Longrightarrow> a = b"
  by (auto simp: tmpDirName_def Join_def dest: decimal_inj)

lemma finite_collisions: "finite (collisions mi s)"
proof -
  have "collisions mi s \<subseteq> {k. tmpDirName mi k \<in> fmdom' (tree s)}"
    by (auto simp: collisions_def intro: fmdom'I)
  moreover have "finite {k. tmpDirName mi k \<in> fmdom' (tree s)}"
    using finite_vimageI [OF finite_fmdom', of "tmpDirName mi" "tree s"]
    by (simp add: vimage_def inj_on_def tmpDirName_inj)
  ultimately show ?thesis by (rule finite_subset)
qed

lemma Rename_EEXIST:
  "Rename from to s = (Some e, s') \<Longrightarrow> IsExist e \<Longrightarrow>
     (\<exists>x xs. fmlookup (tree s) to = Some (x # xs)) \<and> tree s' = tree s \<and> clock s' = clock s"
  by (auto simp: Rename_def IsExist_def issue_def split: if_splits option.splits list.splits)

lemma CreateDir_nonempty:
  "CreateDir p s = (r, s') \<Longrightarrow> clock s' = clock s \<and>
     (\<forall>q x xs. fmlookup (tree s') q = Some (x # xs) \<longleftrightarrow> fmlookup (tree s) q = Some (x # xs))"
  by (auto simp: CreateDir_def issue_def split: if_splits option.splits)

lemma NanoTime_tree:
  "NanoTime s = (t, s') \<Longrightarrow> t = clock s \<and> clock s' = Suc (clock s) \<and> tree s' = tree s"
  by (auto simp: NanoTime_def)

lemma moveRetry_measure:
  assumes "NanoTime s = (t, s1)" "CreateDir d s1 = (None, s2)"
    "Rename dir (tmpDirName mi t) s2 = (Some e, s3)" "IsExist e"
  shows "card (collisions mi s3) < card (collisions mi s)"
proof -
  from NanoTime_tree [OF assms(1)] CreateDir_nonempty [OF assms(2)]
    Rename_EEXIST [OF assms(3,4)]
  have t: "t = clock s" and c3: "clock s3 = Suc (clock s)"
    and ne: "\<And>q x xs. fmlookup (tree s3) q = Some (x # xs) \<longleftrightarrow> fmlookup (tree s) q = Some (x # xs)"
    and hit: "\<exists>x xs. fmlookup (tree s) (tmpDirName mi t) = Some (x # xs)"
    by auto
  have "collisions mi s3 \<subseteq> collisions mi s - {clock s}"
    by (auto simp: collisions_def c3 ne)
  moreover have "clock s \<in> collisions mi s"
    using hit t by (auto simp: collisions_def)
  ultimately have "collisions mi s3 \<subset> collisions mi s" by auto
  then show ?thesis by (rule psubset_card_mono [OF finite_collisions])
qed

termination moveRetry
  by (relation "measure (\<lambda>(mi, dir, s). card (collisions mi s))")
     (auto intro: moveRetry_measure [OF sym sym sym])

declare moveRetry.simps [simp del]

text \<open>
  \<^verbatim>\<open>MoveToTrash\<close>: a directory that does not exist is nothing to remove; any other
  outcome of the probe goes on to \<^verbatim>\<open>Retry\<close>.
\<close>

definition MoveToTrash :: "MountpathInfo \<Rightarrow> string \<Rightarrow> os_state \<Rightarrow> errno option \<times> os_state" where
  "MoveToTrash mi dir s =
     (case Access dir s of
        (Some e, s1) \<Rightarrow> if IsNotExist e then (None, s1) else moveRetry mi dir s1
      | (None, s1) \<Rightarrow> moveRetry mi dir s1)"

text \<open>
  \<^verbatim>\<open>DestroyBucket\<close>: the loop counts in \<open>n\<close> the mountpaths whose move returned no error
  (a failure is logged); the result is an error when \<open>n\<close> is below the number of
  mountpaths.
\<close>

fun destroyLoop :: "MPI \<Rightarrow> Bck \<Rightarrow> 64 word \<Rightarrow> nat \<Rightarrow> os_state \<Rightarrow> nat \<times> MPI \<times> os_state" where
  "destroyLoop [] bck bid n s = (n, [], s)"
| "destroyLoop ((path, mi) # rest) bck bid n s =
     (case makeDelPathBck mi bck bid of
        (dir, mi1) \<Rightarrow>
          (case MoveToTrash mi1 dir s of
             (Some e, s1) \<Rightarrow>
               (case destroyLoop rest bck bid n s1 of
                  (n', rest', s2) \<Rightarrow> (n', (path, mi1) # rest', s2))
           | (None, s1) \<Rightarrow>
               (case destroyLoop rest bck bid (n + 1) s1 of
                  (n', rest', s2) \<Rightarrow> (n', (path, mi1) # rest', s2))))"

definition DestroyBucket :: "MPI \<Rightarrow> Bck \<Rightarrow> 64 word \<Rightarrow> os_state \<Rightarrow> error option \<times> MPI \<times> os_state" where
  "DestroyBucket availablePaths bck bid s =
     (case destroyLoop availablePaths bck bid 0 s of
        (n, mpi, s1) \<Rightarrow>
          (let count = length availablePaths
           in if n < count then (Some (ErrDestroyDirs bck (count - n) count), mpi, s1)
              else (None, mpi, s1)))"

text \<open>
  The outcome of \<^verbatim>\<open>MoveToTrash\<close> on each mountpath, in the order of the loop and in the
  state in which the loop reaches it.
\<close>

fun trashOutcomes :: "MPI \<Rightarrow> Bck \<Rightarrow> 64 word \<Rightarrow> os_state \<Rightarrow> errno option list" where
  "trashOutcomes [] bck bid s = []"
| "trashOutcomes ((path, mi) # rest) bck bid s =
     (case makeDelPathBck mi bck bid of
        (dir, mi1) \<Rightarrow>
          (case MoveToTrash mi1 dir s of
             (r, s1) \<Rightarrow> r # trashOutcomes rest bck bid s1))"

definition failedMoves :: "MPI \<Rightarrow> Bck \<Rightarrow> 64 word \<Rightarrow> os_state \<Rightarrow> nat" where
  "failedMoves availablePaths bck bid s =
     length (filter (\<lambda>r. r \<noteq> None) (trashOutcomes availablePaths bck bid s))"

section \<open>Renaming bucket directories (fs/mountfs.go)\<close>

text \<open>
  \<^verbatim>\<open>RenameBucketDirs\<close>, first loop: on each mountpath the destination is removed (the
  result of \<^verbatim>\<open>os.RemoveAll\<close> is dropped) and the source renamed; the first rename that
  fails ends the loop. The result is the error of that rename, the mountpaths renamed so
  far in the order of renaming (the slice \<^verbatim>\<open>renamed\<close>), the mountpaths from the failing
  one on, and the operating system.
\<close>

fun renameLoop ::
  "MPI \<Rightarrow> 64 word \<Rightarrow> Bck \<Rightarrow> Bck \<Rightarrow> os_state \<Rightarrow> errno option \<times> MPI \<times> MPI \<times> os_state" where
  "renameLoop [] bidFrom bckFrom bckTo s = (None, [], [], s)"
| "renameLoop ((path, mi) # rest) bidFrom bckFrom bckTo s =
     (case makeDelPathBck mi bckFrom bidFrom of
        (fromPath, mi1) \<Rightarrow>
          (case MakePathBck mi1 bckTo of
             (toPath, mi2) \<Rightarrow>
               (case RemoveAll toPath s of
                  (_, s1) \<Rightarrow>
                    (case Rename fromPath toPath s1 of
                       (Some err, s2) \<Rightarrow> (Some err, [], (path, mi2) # rest, s2)
                     | (None, s2) \<Rightarrow>
                         (case renameLoop rest bidFrom bckFrom bckTo s2 of
                            (err, renamed, rest1, s3) \<Rightarrow>
                              (err, (path, mi2) # renamed, rest1, s3))))))"

text \<open>
  Second loop, over \<^verbatim>\<open>renamed\<close> from its first element to its last: the destination is
  renamed back; a failure is logged and the loop goes on.
\<close>

fun rollbackLoop :: "MPI \<Rightarrow> Bck \<Rightarrow> Bck \<Rightarrow> os_state \<Rightarrow> MPI \<times> os_state" where
  "rollbackLoop [] bckFrom bckTo s = ([], s)"
| "rollbackLoop ((path, mi) # renamed) bckFrom bckTo s =
     (case MakePathBck mi bckTo of
        (fromPath, mi1) \<Rightarrow>
          (case MakePathBck mi1 bckFrom of
             (toPath, mi2) \<Rightarrow>
               (case Rename fromPath toPath s of
                  (erd, s1) \<Rightarrow>
                    (case rollbackLoop renamed bckFrom bckTo s1 of
                       (renamed1, s2) \<Rightarrow> ((path, mi2) # renamed1, s2)))))"

definition RenameBucketDirs ::
  "MPI \<Rightarrow> 64 word \<Rightarrow> Bck \<Rightarrow> Bck \<Rightarrow> os_state \<Rightarrow> error option \<times> MPI \<times> os_state" where
  "RenameBucketDirs availablePaths bidFrom bckFrom bckTo s =
     (case renameLoop availablePaths bidFrom bckFrom bckTo s of
        (None, renamed, rest, s1) \<Rightarrow> (None, renamed @ rest, s1)
      | (Some err, renamed, rest, s1) \<Rightarrow>
          (case rollbackLoop renamed bckFrom bckTo s1 of
             (renamed1, s2) \<Rightarrow> (Some (OsError err), renamed1 @ rest, s2)))"

text \<open>
  A mountpath's cache agrees with the two buckets when it holds nothing stale for them:
  an entry under the source's id is the source directory, the source's properties (when
  attached) carry that id, and the destination's properties (when attached) carry
  another id under which an entry is the destination directory.
\<close>

definition coherent :: "64 word \<Rightarrow> Bck \<Rightarrow> Bck \<Rightarrow> MountpathInfo \<Rightarrow> bool" where
  "coherent bidFrom bckFrom bckTo mi \<longleftrightarrow>
     (\<forall>d. bpc mi bidFrom = Some d \<longrightarrow> d = bucketDir (mi_Path mi) bckFrom)
     \<and> (\<forall>p. bck_Props bckFrom = Some p \<longrightarrow> BID p = bidFrom)
     \<and> (\<forall>p. bck_Props bckTo = Some p \<longrightarrow>
            BID p \<noteq> bidFrom
            \<and> (\<forall>d. bpc mi (BID p) = Some d \<longrightarrow> d = bucketDir (mi_Path mi) bckTo))"

text \<open>The source and the destination directory of each mountpath, in the map's order.\<close>

definition dirPairs :: "Bck \<Rightarrow> Bck \<Rightarrow> MPI \<Rightarrow> (string \<times> string) list" where
  "dirPairs bckFrom bckTo mpi =
     map (\<lambda>(path, mi). (bucketDir (mi_Path mi) bckFrom, bucketDir (mi_Path mi) bckTo)) mpi"

text \<open>
  The two loops as they act on the operating system alone, given the directory pairs:
  how many mountpaths the first loop renamed, and the state each loop leaves.
\<close>

fun forwardRenames :: "(string \<times> string) list \<Rightarrow> os_state \<Rightarrow> errno option \<times> nat \<times> os_state" where
  "forwardRenames [] s = (None, 0, s)"
| "forwardRenames ((src, dst) # pairs) s =
     (case Rename src dst (snd (RemoveAll dst s)) of
        (Some err, s2) \<Rightarrow> (Some err, 0, s2)
      | (None, s2) \<Rightarrow>
          (case forwardRenames pairs s2 of
             (err, k, s3) \<Rightarrow> (err, Suc k, s3)))"

fun backwardRenames :: "(string \<times> string) list \<Rightarrow> os_state \<Rightarrow> os_state" where
  "backwardRenames [] s = s"
| "backwardRenames ((src, dst) # pairs) s = backwardRenames pairs (snd (Rename dst src s))"

definition allCoherent :: "64 word \<Rightarrow> Bck \<Rightarrow> Bck \<Rightarrow> MPI \<Rightarrow> bool" where
  "allCoherent bidFrom bckFrom bckTo mpi =
     list_all (\<lambda>(path, mi). coherent bidFrom bckFrom bckTo mi) mpi"

section \<open>Creating bucket directories (fs/mountfs.go)\<close>

text \<open>
  Modelled from the spec: the content-type tags are registered outside the files at
  hand; the spec lists \<^verbatim>\<open>ob\<close> for objects, \<^verbatim>\<open>wk\<close> for workfiles and \<^verbatim>\<open>ec\<close> for erasure
  slices. The keys of \<^verbatim>\<open>CSM.RegisteredContentTypes\<close> are passed as the list
  \<open>contentTypes\<close>, in the order in which the loop visits them.
\<close>

definition ObjectType :: string where
  "ObjectType = ''ob''"

definition WorkfileType :: string where
  "WorkfileType = ''wk''"

text \<open>
  \<^verbatim>\<open>createBckDirs\<close>: \<open>num\<close> counts the directories created or accepted. A directory
  that exists is accepted without a look when \<open>nilbmd\<close> holds; otherwise it must be
  empty, except that for the workfile type the error is only logged.
\<close>

fun createBckDirsLoop ::
  "MountpathInfo \<Rightarrow> Bck \<Rightarrow> bool \<Rightarrow> string list \<Rightarrow> nat \<Rightarrow> os_state
    \<Rightarrow> (nat \<times> error option) \<times> os_state" where
  "createBckDirsLoop mi bck nilbmd [] num s = ((num, None), s)"
| "createBckDirsLoop mi bck nilbmd (contentType # rest) num s =
     (case Access (MakePathCT mi bck contentType) s of
        (None, s1) \<Rightarrow>
          if nilbmd then createBckDirsLoop mi bck nilbmd rest (num + 1) s1
          else (case IsDirEmpty (MakePathCT mi bck contentType) s1 of
                  ((names, isEmpty, Some errEmpty), s2) \<Rightarrow> ((num, Some (OsError errEmpty)), s2)
                | ((names, isEmpty, None), s2) \<Rightarrow>
                    if \<not> isEmpty then
                      (if contentType \<noteq> WorkfileType
                       then ((num, Some (ErrDirNotEmpty bck (MakePathCT mi bck contentType) names)), s2)
                       else createBckDirsLoop mi bck nilbmd rest (num + 1) s2)
                    else createBckDirsLoop mi bck nilbmd rest (num + 1) s2)
      | (Some err, s1) \<Rightarrow>
          (case CreateDir (MakePathCT mi bck contentType) s1 of
             (Some e, s2) \<Rightarrow>
               ((num, Some (ErrCreateDir bck (MakePathCT mi bck contentType) e)), s2)
           | (None, s2) \<Rightarrow> createBckDirsLoop mi bck nilbmd rest (num + 1) s2))"

definition createBckDirs ::
  "MountpathInfo \<Rightarrow> Bck \<Rightarrow> bool \<Rightarrow> string list \<Rightarrow> os_state
    \<Rightarrow> (nat \<times> error option) \<times> os_state" where
  "createBckDirs mi bck nilbmd contentTypes s =
     createBckDirsLoop mi bck nilbmd contentTypes 0 s"

text \<open>
  \<^verbatim>\<open>CreateBucket\<close> collects the error of each mountpath that has one and adds up the
  counts of the others; it returns the errors (\<^verbatim>\<open>nil\<close> is the empty list). The
  \<^verbatim>\<open>debug.Assert\<close> on the total is compiled out of production builds.
\<close>

fun createBucketLoop ::
  "MPI \<Rightarrow> Bck \<Rightarrow> bool \<Rightarrow> string list \<Rightarrow> error list \<Rightarrow> nat \<Rightarrow> os_state
    \<Rightarrow> (error list \<times> nat) \<times> os_state" where
  "createBucketLoop [] bck nilbmd contentTypes errs totalCreatedDirs s =
     ((errs, totalCreatedDirs), s)"
| "createBucketLoop ((path, mi) # rest) bck nilbmd contentTypes errs totalCreatedDirs s =
     (case createBckDirs mi bck nilbmd contentTypes s of
        ((num, Some err), s1) \<Rightarrow>
          createBucketLoop rest bck nilbmd contentTypes (errs @ [err]) totalCreatedDirs s1
      | ((num, None), s1) \<Rightarrow>
          createBucketLoop rest bck nilbmd contentTypes errs (totalCreatedDirs + num) s1)"

definition CreateBucket ::
  "MPI \<Rightarrow> Bck \<Rightarrow> bool \<Rightarrow> string list \<Rightarrow> os_state \<Rightarrow> error list \<times> os_state" where
  "CreateBucket availablePaths bck nilbmd contentTypes s =
     (case createBucketLoop availablePaths bck nilbmd contentTypes [] 0 s of
        ((errs, totalCreatedDirs), s1) \<Rightarrow> (errs, s1))"

text \<open>
  Reading the state: the names in a directory (none when it is missing or empty), and
  whether no fault is scripted for any coming call.
\<close>

definition dirNames :: "os_state \<Rightarrow> string \<Rightarrow> string list" where
  "dirNames s p = (case fmlookup (tree s) p of None \<Rightarrow> [] | Some names \<Rightarrow> names)"

definition calm :: "os_state \<Rightarrow> bool" where
  "calm s = (True \<notin> set (faults s))"

text \<open>
  The content types whose directory stops \<^verbatim>\<open>createBckDirs\<close> when a BMD is present:
  any type but the workfile type, with a directory that holds something.
\<close>

definition refuses :: "MountpathInfo \<Rightarrow> Bck \<Rightarrow> (string \<Rightarrow> string list) \<Rightarrow> string \<Rightarrow> bool" where
  "refuses mi bck names contentType =
     (contentType \<noteq> WorkfileType \<and> names (MakePathCT mi bck contentType) \<noteq> [])"

text \<open>
  What \<^verbatim>\<open>createBckDirs\<close> returns when no call faults, read off the directories as they
  are before the call: with \<open>nilbmd\<close> every content type is counted; without it the
  first refusing content type stops the loop with the count reached so far.
\<close>

definition createOutcome ::
  "MountpathInfo \<Rightarrow> Bck \<Rightarrow> bool \<Rightarrow> string list \<Rightarrow> nat \<Rightarrow> (string \<Rightarrow> string list)
    \<Rightarrow> nat \<times> error option" where
  "createOutcome mi bck nilbmd cts num names =
     (if nilbmd then (num + length cts, None)
      else case find (refuses mi bck names) cts of
             None \<Rightarrow> (num + length cts, None)
           | Some ct \<Rightarrow>
               (num + length (takeWhile (\<lambda>c. \<not> refuses mi bck names c) cts),
                Some (ErrDirNotEmpty bck (MakePathCT mi bck ct)
                        (names (MakePathCT mi bck ct)))))"

section \<open>Capacity (fs/mountfs.go)\<close>

text \<open>
  The thresholds and periods of the configuration are \<^verbatim>\<open>int64\<close>; the percentages of the
  capacity status are \<^verbatim>\<open>int32\<close>. Words carry the bits, \<open>sint\<close> reads them signed.
\<close>

record Config =
  cfg_HighWM :: "64 word"
  cfg_LowWM :: "64 word"
  cfg_OOS :: "64 word"
  cfg_CapacityUpdTime :: "64 word"
  cfg_StatsTime :: "64 word"

record CapStatus =
  TotalUsed :: "64 word"
  TotalAvail :: "64 word"
  PctAvg :: "32 word"
  PctMax :: "32 word"
  Err :: "error option"
  OOS :: bool

text \<open>
  \<^verbatim>\<open>MountedFS\<close>: the two atomic pointers to the available and the disabled mountpaths
  (\<^verbatim>\<open>nil\<close> before the first store), and the cached capacity status with its times.
\<close>

record MountedFS =
  available :: "MPI option"
  disabled :: "MPI option"
  capStatus :: CapStatus
  capTime_curr :: "64 word"
  capTime_next :: "64 word"

definition zeroCapStatus :: CapStatus where
  "zeroCapStatus = \<lparr>TotalUsed = 0, TotalAvail = 0, PctAvg = 0, PctMax = 0, Err = None,
                      OOS = False\<rparr>"

text \<open>Go's integer division truncates towards zero; on \<^verbatim>\<open>int32\<close> and \<^verbatim>\<open>int64\<close> it wraps.\<close>

definition truncDiv :: "int \<Rightarrow> int \<Rightarrow> int" where
  "truncDiv a b =
     (if (a < 0) = (b < 0) then \<bar>a\<bar> div \<bar>b\<bar> else - (\<bar>a\<bar> div \<bar>b\<bar>))"

definition sdiv32 :: "32 word \<Rightarrow> 32 word \<Rightarrow> 32 word" where
  "sdiv32 a b = word_of_int (truncDiv (sint a) (sint b))"

definition sdiv64 :: "64 word \<Rightarrow> 64 word \<Rightarrow> 64 word" where
  "sdiv64 a b = word_of_int (truncDiv (sint a) (sint b))"

text \<open>
  Modelled from the spec: \<^verbatim>\<open>cos.MaxI32\<close> and \<^verbatim>\<open>cos.MaxI64\<close> are outside the files at
  hand; the spec's \<^verbatim>\<open>pct_max\<close> is the greatest of the used percentages.
\<close>

definition MaxI32 :: "32 word \<Rightarrow> 32 word \<Rightarrow> 32 word" where
  "MaxI32 a b = (if sint a < sint b then b else a)"

definition MaxI64 :: "64 word \<Rightarrow> 64 word \<Rightarrow> 64 word" where
  "MaxI64 a b = (if sint a < sint b then b else a)"

text \<open>
  \<^verbatim>\<open>getCapacity\<close>. With \<open>refresh\<close> the filesystem is asked; the percentage is the
  unsigned quotient, and from one below the high watermark on it is recomputed in
  floating point and rounded up. That computation, \<^verbatim>\<open>math.Ceil(float64(bused) * 100 /
  float64(statfs.Blocks))\<close> converted to \<^verbatim>\<open>uint64\<close>, is the parameter \<open>ceilPct\<close>. A
  filesystem of zero blocks makes the integer division panic.
\<close>

definition getCapacity ::
  "(64 word \<Rightarrow> 64 word \<Rightarrow> 64 word) \<Rightarrow> MountpathInfo \<Rightarrow> Config \<Rightarrow> bool \<Rightarrow> os_state
    \<Rightarrow> (error + Capacity) \<times> MountpathInfo \<times> os_state" where
  "getCapacity ceilPct mi config refresh s =
     (if \<not> refresh then (Inr (capacity mi), mi, s)
      else case Statfs (mi_Path mi) s of
             (Inl e, s1) \<Rightarrow> (Inl (OsError e), mi, s1)
           | (Inr statfs, s1) \<Rightarrow>
               (let bused = Blocks statfs - Bavail statfs
                in if Blocks statfs = 0 then (Inl PanicDivideByZero, mi, s1)
                   else
                     (let pct0 = bused * 100 div Blocks statfs;
                          pct = (if cfg_HighWM config - 1 \<le> pct0
                                 then ceilPct bused (Blocks statfs) else pct0);
                          c = \<lparr>Used = bused * Bsize statfs,
                               Avail = Bavail statfs * Bsize statfs,
                               PctUsed = ucast pct\<rparr>
                      in (Inr c, mi\<lparr>capacity := c\<rparr>, s1))))"

text \<open>
  The loop of \<^verbatim>\<open>RefreshCapStatus\<close>: an error of \<^verbatim>\<open>getCapacity\<close> returns at once with
  the sums as they stand; \<open>mpcap\<close> is the optional map that receives each capacity.
\<close>

fun capLoop ::
  "(64 word \<Rightarrow> 64 word \<Rightarrow> 64 word) \<Rightarrow> Config \<Rightarrow> MPI \<Rightarrow> CapStatus
    \<Rightarrow> (string \<rightharpoonup> Capacity) option \<Rightarrow> os_state
    \<Rightarrow> error option \<times> CapStatus \<times> MPI \<times> (string \<rightharpoonup> Capacity) option \<times> os_state" where
  "capLoop ceilPct config [] cs mpcap s = (None, cs, [], mpcap, s)"
| "capLoop ceilPct config ((path, mi) # rest) cs mpcap s =
     (case getCapacity ceilPct mi config True s of
        (Inl err, mi1, s1) \<Rightarrow> (Some err, cs, (path, mi1) # rest, mpcap, s1)
      | (Inr c, mi1, s1) \<Rightarrow>
          (case capLoop ceilPct config rest
                  (cs\<lparr>TotalUsed := TotalUsed cs + Used c,
                      TotalAvail := TotalAvail cs + Avail c,
                      PctMax := MaxI32 (PctMax cs) (PctUsed c),
                      PctAvg := PctAvg cs + PctUsed c\<rparr>)
                  (map_option (\<lambda>m. m(path \<mapsto> c)) mpcap) s1 of
             (err, cs1, rest1, mpcap1, s2) \<Rightarrow> (err, cs1, (path, mi1) # rest1, mpcap1, s2)))"

text \<open>
  \<^verbatim>\<open>nextRefresh\<close> reads the average that was just cached. The divisor
  \<open>umax - umin\<close> is not zero where the division is reached; the check stands for the
  panic of a division by zero.
\<close>

definition nextRefresh :: "MountedFS \<Rightarrow> Config \<Rightarrow> error + 64 word" where
  "nextRefresh mfs config =
     (let util = (scast (PctAvg (capStatus mfs)) :: 64 word);
          umin = MaxI64 (cfg_HighWM config - 10) (cfg_LowWM config);
          umax = cfg_OOS config;
          tmax = cfg_CapacityUpdTime config;
          tmin = cfg_StatsTime config
      in if sint util \<le> sint umin then Inr tmax
         else if sint umax \<le> sint util then Inr tmin
         else if umax - umin = 0 then Inl PanicDivideByZero
         else Inr (sdiv64 (sdiv64 ((util - umin) * 100) (umax - umin) * (tmax - tmin)) 100
                   + tmin))"

text \<open>
  \<^verbatim>\<open>RefreshCapStatus\<close>. \<open>gco\<close> is the global configuration, read when \<open>config\<close> is
  \<^verbatim>\<open>nil\<close>. The result is the pair of the named results \<^verbatim>\<open>cs\<close> and \<^verbatim>\<open>err\<close>, then the
  map, the mountpaths, the cached status with its times, and the operating system.
  \<^verbatim>\<open>int32(len(availablePaths))\<close> is zero for a multiple of \<open>2^32\<close> mountpaths, where the
  division panics.
\<close>

definition RefreshCapStatus ::
  "(64 word \<Rightarrow> 64 word \<Rightarrow> 64 word) \<Rightarrow> Config \<Rightarrow> Config option
    \<Rightarrow> (string \<rightharpoonup> Capacity) option \<Rightarrow> MPI \<Rightarrow> MountedFS \<Rightarrow> os_state
    \<Rightarrow> (CapStatus \<times> error option) \<times> (string \<rightharpoonup> Capacity) option \<times> MPI \<times> MountedFS
       \<times> os_state" where
  "RefreshCapStatus ceilPct gco config mpcap availablePaths mfs s =
     (if length availablePaths = 0
      then ((zeroCapStatus, Some ErrNoMountpaths), mpcap, availablePaths, mfs, s)
      else
        (let cfg = (case config of None \<Rightarrow> gco | Some c \<Rightarrow> c);
             high = cfg_HighWM cfg;
             oos = cfg_OOS cfg
         in case capLoop ceilPct cfg availablePaths zeroCapStatus mpcap s of
              (Some err, cs, mpi, mpcap1, s1) \<Rightarrow> ((cs, Some err), mpcap1, mpi, mfs, s1)
            | (None, cs, mpi, mpcap1, s1) \<Rightarrow>
                if (word_of_nat (length availablePaths) :: 32 word) = 0
                then ((cs, Some PanicDivideByZero), mpcap1, mpi, mfs, s1)
                else
                  (let cs1 = cs\<lparr>PctAvg := sdiv32 (PctAvg cs)
                                            (word_of_nat (length availablePaths))\<rparr>;
                       cs2 = cs1\<lparr>OOS := sint oos < sint (PctMax cs1)\<rparr>;
                       cs3 = (if OOS cs2 \<or> sint high < sint (PctMax cs2)
                              then cs2\<lparr>Err := Some (ErrCapacityExceeded high (PctMax cs2)
                                       (TotalUsed cs2) (TotalAvail cs2 + TotalUsed cs2)
                                       (OOS cs2))\<rparr>
                              else cs2)
                   in case NanoTime s1 of
                        (t, s2) \<Rightarrow>
                          (let mfs1 = mfs\<lparr>capStatus := cs3, capTime_curr := word_of_nat t\<rparr>
                           in case nextRefresh mfs1 cfg of
                                Inl e \<Rightarrow> ((cs3, Some e), mpcap1, mpi, mfs1, s2)
                              | Inr d \<Rightarrow>
                                  ((cs3, None), mpcap1, mpi,
                                   mfs1\<lparr>capTime_next := capTime_curr mfs1 + d\<rparr>, s2)))))"

text \<open>The used percentages that a refresh left in the mountpaths, read signed.\<close>

definition pctUsed :: "MPI \<Rightarrow> int list" where
  "pctUsed mpi = map (\<lambda>(path, mi). sint (PctUsed (capacity mi))) mpi"

text \<open>
  The last steps of \<^verbatim>\<open>RefreshCapStatus\<close> on the sums of the loop: the average, the
  out-of-space flag and the error.
\<close>

definition finishCapStatus :: "Config \<Rightarrow> nat \<Rightarrow> CapStatus \<Rightarrow> CapStatus" where
  "finishCapStatus cfg n cs =
     (let cs1 = cs\<lparr>PctAvg := sdiv32 (PctAvg cs) (word_of_nat n)\<rparr>;
          cs2 = cs1\<lparr>OOS := sint (cfg_OOS cfg) < sint (PctMax cs1)\<rparr>
      in if OOS cs2 \<or> sint (cfg_HighWM cfg) < sint (PctMax cs2)
         then cs2\<lparr>Err := Some (ErrCapacityExceeded (cfg_HighWM cfg) (PctMax cs2)
                  (TotalUsed cs2) (TotalAvail cs2 + TotalUsed cs2) (OOS cs2))\<rparr>
         else cs2)"

section \<open>Target-side transactions (ais/tgttxn.go)\<close>

text \<open>
  The request context \<^verbatim>\<open>txnServerCtx\<close>. The timeout counts the ticks a commit may wait.
  The value of the action message is what it decodes to: new bucket properties, a
  destination bucket, or something else (decoding fails).
\<close>

datatype phase = ActBegin | ActAbort | ActCommit | ActOther

datatype msgValue = ValueProps BucketProps | ValueBck Bck | ValueOther

record txnServerCtx =
  c_uuid :: string
  c_timeout :: nat
  c_phase :: phase
  c_smapVer :: int
  c_bmdVer :: int
  c_msgValue :: msgValue
  c_RMDVersion :: int
  c_caller :: string
  c_bck :: Bck

text \<open>
  Modelled from the spec: the transaction records and their table
  (\<^verbatim>\<open>t.transactions\<close> with \<^verbatim>\<open>begin\<close>, \<^verbatim>\<open>find\<close> and \<^verbatim>\<open>wait\<close>, and the constructors
  \<^verbatim>\<open>newTxn...\<close>) are outside the files at hand. The spec: a record is keyed by UUID and
  carries uuid, smap version, BMD version, caller and an action-specific payload
  (\<^verbatim>\<open>CreateBucket\<close>, \<^verbatim>\<open>RenameBucket{from, to}\<close>, \<^verbatim>\<open>SetBucketProps{old_props,
  new_props}\<close>, \<^verbatim>\<open>MakeNCopies{cur, new}\<close>); a begin with a UUID that is already there is
  a no-op returning success; a lookup of a missing UUID is \<^verbatim>\<open>ErrTxnNotFound\<close>, and a
  find-and-remove of a missing UUID changes nothing; the wait is bounded by the timeout
  and ends when the locally observed BMD version is at least the record's, else it is
  \<^verbatim>\<open>ErrTxnBmdTimeout\<close>; a record is discarded once the matching BMD version was seen.
\<close>

datatype txnPayload =
    TxnCreateBucket
  | TxnMakeNCopies int int
  | TxnSetBucketProps BucketProps BucketProps
  | TxnRenameBucket Bck Bck

record txn =
  txn_uuid :: string
  txn_smapVer :: int
  txn_bmdVer :: int
  txn_caller :: string
  txn_bck :: Bck
  txn_payload :: txnPayload

definition newTxn :: "txnServerCtx \<Rightarrow> Bck \<Rightarrow> txnPayload \<Rightarrow> txn" where
  "newTxn c bck payload =
     \<lparr>txn_uuid = c_uuid c, txn_smapVer = c_smapVer c, txn_bmdVer = c_bmdVer c,
      txn_caller = c_caller c, txn_bck = bck, txn_payload = payload\<rparr>"

definition txnBegin :: "txn \<Rightarrow> (string \<rightharpoonup> txn) \<Rightarrow> error option \<times> (string \<rightharpoonup> txn)" where
  "txnBegin x table =
     (case table (txn_uuid x) of
        Some _ \<Rightarrow> (None, table)
      | None \<Rightarrow> (None, table(txn_uuid x \<mapsto> x)))"

definition txnFind ::
  "string \<Rightarrow> bool \<Rightarrow> (string \<rightharpoonup> txn) \<Rightarrow> (error + txn) \<times> (string \<rightharpoonup> txn)" where
  "txnFind uuid remove table =
     (case table uuid of
        None \<Rightarrow> (Inl (ErrTxnNotFound uuid), table)
      | Some x \<Rightarrow> (Inr x, if remove then table(uuid := None) else table))"

text \<open>
  \<open>observed k\<close> is the BMD version installed locally at tick \<open>k\<close> of the wait;
  \<open>awaitVersion\<close> looks at the ticks from \<open>now\<close> on while time is \<open>left\<close>.
\<close>

fun awaitVersion :: "(nat \<Rightarrow> int) \<Rightarrow> int \<Rightarrow> nat \<Rightarrow> nat \<Rightarrow> bool" where
  "awaitVersion observed v now 0 = (v \<le> observed now)"
| "awaitVersion observed v now (Suc left) =
     (if v \<le> observed now then True else awaitVersion observed v (Suc now) left)"

definition txnWait ::
  "txn \<Rightarrow> nat \<Rightarrow> (nat \<Rightarrow> int) \<Rightarrow> (string \<rightharpoonup> txn) \<Rightarrow> error option \<times> (string \<rightharpoonup> txn)" where
  "txnWait x timeout observed table =
     (if awaitVersion observed (txn_bmdVer x) 0 timeout
      then (None, table(txn_uuid x := None))
      else (Some ErrTxnBmdTimeout, table))"

text \<open>
  Modelled from the spec: the BMD and \<^verbatim>\<open>cluster.Bck.Init\<close> are outside the files at
  hand. The BMD lists the buckets with their properties; \<^verbatim>\<open>Init\<close> attaches to a bucket
  the properties the BMD has for it and fails for a bucket the BMD does not have.
\<close>

type_synonym BMD = "(string \<times> Ns \<times> string) \<rightharpoonup> BucketProps"

definition bckKey :: "Bck \<Rightarrow> string \<times> Ns \<times> string" where
  "bckKey bck = (bck_Provider bck, bck_Ns bck, bck_Name bck)"

definition Init :: "BMD \<Rightarrow> Bck \<Rightarrow> error + Bck" where
  "Init bmd bck =
     (case bmd (bckKey bck) of
        None \<Rightarrow> Inl (ErrBucketDoesNotExist bck)
      | Some p \<Rightarrow> Inr (bck\<lparr>bck_Props := Some p\<rparr>))"

text \<open>
  The target: its transaction table, its BMD, and the calls it has made to its
  collaborators (the xaction registry, the mountpaths, the get-from-neighbor switches),
  oldest first. The outcomes that the collaborators and the surroundings supply are the
  environment: the capacity status of \<^verbatim>\<open>t.AvgCapUsed\<close>, the number of available
  mountpaths, the BMD versions seen while waiting, and the results of renewing the
  fast-rename xaction and of renaming the bucket directories.
\<close>

datatype effect =
    DoAbortPutCopies Bck
  | RenewBckMakeNCopies Bck int
  | RenewBckFastRename Bck Bck
  | CallRenameBucketDirs Bck Bck
  | GfnLocalActivate
  | GfnGlobalActivateTimed
  | RunFastRen int
  | SleepMillis nat

record targetrunner =
  transactions :: "string \<rightharpoonup> txn"
  owner_bmd :: BMD
  effects :: "effect list"

record txnEnv =
  env_capInfo :: CapStatus
  env_numAvail :: nat
  env_observed :: "nat \<Rightarrow> int"
  env_renewErr :: "error option"
  env_renameErr :: "error option"

text \<open>\<^verbatim>\<open>createBucket\<close>: an error of the commit is wrapped with \<^verbatim>\<open>fmt.Errorf\<close>.\<close>

definition createBucket :: "txnServerCtx \<Rightarrow> txnEnv \<Rightarrow> targetrunner \<Rightarrow> error option \<times> targetrunner" where
  "createBucket c env t =
     (case c_phase c of
        ActBegin \<Rightarrow>
          (case txnBegin (newTxn c (c_bck c) TxnCreateBucket) (transactions t) of
             (err, table) \<Rightarrow> (err, t\<lparr>transactions := table\<rparr>))
      | ActAbort \<Rightarrow>
          (case txnFind (c_uuid c) True (transactions t) of
             (_, table) \<Rightarrow> (None, t\<lparr>transactions := table\<rparr>))
      | ActCommit \<Rightarrow>
          (case txnFind (c_uuid c) False (transactions t) of
             (Inl err, table) \<Rightarrow> (Some (ErrWrapped err), t\<lparr>transactions := table\<rparr>)
           | (Inr x, table) \<Rightarrow>
               (case txnWait x (c_timeout c) (env_observed env) table of
                  (Some err, table1) \<Rightarrow> (Some (ErrWrapped err), t\<lparr>transactions := table1\<rparr>)
                | (None, table1) \<Rightarrow> (None, t\<lparr>transactions := table1\<rparr>)))
      | ActOther \<Rightarrow> (Some PanicAssert, t))"

text \<open>
  \<^verbatim>\<open>validateNprops\<close>. The properties of the bucket are read where the code reads them
  (\<^verbatim>\<open>bck.Props.Mirror.Copies\<close>, \<^verbatim>\<open>bck.Props.EC.Enabled\<close>); on a bucket without
  properties that is a nil dereference, which cannot happen after \<^verbatim>\<open>Init\<close>.
\<close>

definition validateEC :: "Bck \<Rightarrow> BucketProps \<Rightarrow> txnEnv \<Rightarrow> error + BucketProps" where
  "validateEC bck nprops env =
     (if ec_Enabled (EC nprops) then
        (case bck_Props bck of
           None \<Rightarrow> Inl PanicNilPointer
         | Some props \<Rightarrow>
             if \<not> ec_Enabled (EC props) then
               (case Err (env_capInfo env) of
                  Some err \<Rightarrow> Inl err
                | None \<Rightarrow> Inr nprops)
             else Inr nprops)
      else Inr nprops)"

definition validateNprops :: "Bck \<Rightarrow> msgValue \<Rightarrow> txnEnv \<Rightarrow> error + BucketProps" where
  "validateNprops bck msgValue env =
     (case msgValue of
        ValueProps nprops \<Rightarrow>
          if mirror_Enabled (Mirror nprops) then
            (if int (env_numAvail env) < mirror_Copies (Mirror nprops)
             then Inl (ErrInsufficientMountpaths (env_numAvail env) bck
                         (mirror_Copies (Mirror nprops)))
             else (case bck_Props bck of
                     None \<Rightarrow> Inl PanicNilPointer
                   | Some props \<Rightarrow>
                       if mirror_Copies (Mirror props) < mirror_Copies (Mirror nprops) then
                         (case Err (env_capInfo env) of
                            Some err \<Rightarrow> Inl err
                          | None \<Rightarrow> validateEC bck nprops env)
                       else validateEC bck nprops env))
          else validateEC bck nprops env
      | _ \<Rightarrow> Inl ErrUnmarshal)"

definition remirror :: "BucketProps \<Rightarrow> BucketProps \<Rightarrow> bool" where
  "remirror bprops nprops =
     (if \<not> mirror_Enabled (Mirror bprops) \<and> mirror_Enabled (Mirror nprops) then True
      else if mirror_Enabled (Mirror bprops) \<and> mirror_Enabled (Mirror nprops)
      then mirror_Copies (Mirror bprops) \<noteq> mirror_Copies (Mirror nprops)
      else False)"

text \<open>
  \<^verbatim>\<open>setBucketProps\<close>. The record of a begin keeps the properties the bucket has and the
  validated new ones. In the commit the type assertion on the record comes before the
  wait, and panics on a record of another action.
\<close>

definition setBucketProps ::
  "txnServerCtx \<Rightarrow> txnEnv \<Rightarrow> targetrunner \<Rightarrow> error option \<times> targetrunner" where
  "setBucketProps c env t =
     (case Init (owner_bmd t) (c_bck c) of
        Inl err \<Rightarrow> (Some err, t)
      | Inr bck \<Rightarrow>
          (case c_phase c of
             ActBegin \<Rightarrow>
               (case validateNprops bck (c_msgValue c) env of
                  Inl err \<Rightarrow> (Some err, t)
                | Inr nprops \<Rightarrow>
                    (case bck_Props bck of
                       None \<Rightarrow> (Some PanicNilPointer, t)
                     | Some bprops \<Rightarrow>
                         (case txnBegin (newTxn c bck (TxnSetBucketProps bprops nprops))
                                 (transactions t) of
                            (err, table) \<Rightarrow> (err, t\<lparr>transactions := table\<rparr>))))
           | ActAbort \<Rightarrow>
               (case txnFind (c_uuid c) True (transactions t) of
                  (_, table) \<Rightarrow> (None, t\<lparr>transactions := table\<rparr>))
           | ActCommit \<Rightarrow>
               (case txnFind (c_uuid c) False (transactions t) of
                  (Inl err, table) \<Rightarrow> (Some (ErrWrapped err), t\<lparr>transactions := table\<rparr>)
                | (Inr x, table) \<Rightarrow>
                    (case txn_payload x of
                       TxnSetBucketProps bprops nprops \<Rightarrow>
                         (case txnWait x (c_timeout c) (env_observed env) table of
                            (Some err, table1) \<Rightarrow>
                              (Some (ErrWrapped err), t\<lparr>transactions := table1\<rparr>)
                          | (None, table1) \<Rightarrow>
                              if remirror bprops nprops
                              then (None, t\<lparr>transactions := table1,
                                      effects := effects t
                                        @ [DoAbortPutCopies bck,
                                           RenewBckMakeNCopies bck
                                             (mirror_Copies (Mirror nprops))]\<rparr>)
                              else (None, t\<lparr>transactions := table1\<rparr>))
                     | _ \<Rightarrow> (Some PanicTypeAssertion, t\<lparr>transactions := table\<rparr>)))
           | ActOther \<Rightarrow> (Some PanicAssert, t)))"

text \<open>
  \<^verbatim>\<open>validateBckRenTxn\<close>: the destination must be absent from the BMD, and on no
  mountpath may its object directory hold anything.
\<close>

fun destDirsLoop :: "MPI \<Rightarrow> Bck \<Rightarrow> os_state \<Rightarrow> error option \<times> os_state" where
  "destDirsLoop [] bckTo s = (None, s)"
| "destDirsLoop ((mpath, mpathInfo) # rest) bckTo s =
     (case Access (MakePathCT mpathInfo bckTo ObjectType) s of
        (Some err, s1) \<Rightarrow>
          if \<not> IsNotExist err then (Some (OsError err), s1)
          else destDirsLoop rest bckTo s1
      | (None, s1) \<Rightarrow>
          (case IsDirEmpty (MakePathCT mpathInfo bckTo ObjectType) s1 of
             ((names, isEmpty, Some err), s2) \<Rightarrow> (Some (OsError err), s2)
           | ((names, isEmpty, None), s2) \<Rightarrow>
               if \<not> isEmpty
               then (Some (ErrDirNotEmpty bckTo (MakePathCT mpathInfo bckTo ObjectType) names), s2)
               else destDirsLoop rest bckTo s2))"

definition validateBckRenTxn ::
  "Bck \<Rightarrow> msgValue \<Rightarrow> txnEnv \<Rightarrow> BMD \<Rightarrow> MPI \<Rightarrow> os_state \<Rightarrow> (error + Bck) \<times> os_state" where
  "validateBckRenTxn bckFrom msgValue env bmd availablePaths s =
     (case msgValue of
        ValueBck bTo \<Rightarrow>
          (case Err (env_capInfo env) of
             Some err \<Rightarrow> (Inl err, s)
           | None \<Rightarrow>
               (let bckTo = bTo\<lparr>bck_Props := None\<rparr>
                in if bmd (bckKey bckFrom) = None
                   then (Inl (ErrBucketDoesNotExist bckFrom), s)
                   else if bmd (bckKey bckTo) \<noteq> None
                   then (Inl (ErrBucketAlreadyExists bckTo), s)
                   else (case destDirsLoop availablePaths bckTo s of
                           (Some err, s1) \<Rightarrow> (Inl err, s1)
                         | (None, s1) \<Rightarrow> (Inr bckTo, s1))))
      | _ \<Rightarrow> (Inl ErrUnmarshal, s))"

text \<open>
  \<^verbatim>\<open>renameBucket\<close>. In the commit the xaction is renewed and the bucket directories are
  renamed after the wait; either may fail and end the commit. The call
  \<^verbatim>\<open>fs.Mountpaths.RenameBucketDirs\<close> is recorded with its two buckets, and its result
  is the environment's.
\<close>

definition renameBucket ::
  "txnServerCtx \<Rightarrow> txnEnv \<Rightarrow> MPI \<Rightarrow> targetrunner \<Rightarrow> os_state
    \<Rightarrow> error option \<times> targetrunner \<times> os_state" where
  "renameBucket c env availablePaths t s =
     (case Init (owner_bmd t) (c_bck c) of
        Inl err \<Rightarrow> (Some err, t, s)
      | Inr bckFrom \<Rightarrow>
          (case c_phase c of
             ActBegin \<Rightarrow>
               (case validateBckRenTxn bckFrom (c_msgValue c) env (owner_bmd t)
                       availablePaths s of
                  (Inl err, s1) \<Rightarrow> (Some err, t, s1)
                | (Inr bckTo, s1) \<Rightarrow>
                    (case txnBegin (newTxn c bckFrom (TxnRenameBucket bckFrom bckTo))
                            (transactions t) of
                       (err, table) \<Rightarrow> (err, t\<lparr>transactions := table\<rparr>, s1)))
           | ActAbort \<Rightarrow>
               (case txnFind (c_uuid c) True (transactions t) of
                  (_, table) \<Rightarrow> (None, t\<lparr>transactions := table\<rparr>, s))
           | ActCommit \<Rightarrow>
               (case txnFind (c_uuid c) False (transactions t) of
                  (Inl err, table) \<Rightarrow> (Some (ErrWrapped err), t\<lparr>transactions := table\<rparr>, s)
                | (Inr x, table) \<Rightarrow>
                    (case txn_payload x of
                       TxnRenameBucket txnFrom txnTo \<Rightarrow>
                         (case txnWait x (c_timeout c) (env_observed env) table of
                            (Some err, table1) \<Rightarrow>
                              (Some (ErrWrapped err), t\<lparr>transactions := table1\<rparr>, s)
                          | (None, table1) \<Rightarrow>
                              (let t1 = t\<lparr>transactions := table1,
                                          effects := effects t
                                            @ [RenewBckFastRename txnFrom txnTo]\<rparr>
                               in case env_renewErr env of
                                    Some err \<Rightarrow> (Some err, t1, s)
                                  | None \<Rightarrow>
                                      (let t2 = t1\<lparr>effects := effects t1
                                                   @ [CallRenameBucketDirs txnFrom txnTo]\<rparr>
                                       in case env_renameErr env of
                                            Some err \<Rightarrow> (Some err, t2, s)
                                          | None \<Rightarrow>
                                              if \<not> 0 < c_RMDVersion c
                                              then (Some PanicAssert, t2, s)
                                              else (None,
                                                    t2\<lparr>effects := effects t2
                                                      @ [GfnLocalActivate,
                                                         GfnGlobalActivateTimed,
                                                         RunFastRen (c_RMDVersion c),
                                                         SleepMillis 200]\<rparr>, s))))
                     | _ \<Rightarrow> (Some PanicTypeAssertion, t\<lparr>transactions := table\<rparr>, s)))
           | ActOther \<Rightarrow> (Some PanicAssert, t, s)))"

section \<open>The registry pointers and their readers (fs/mountfs.go)\<close>

text \<open>
  \<^verbatim>\<open>updatePaths\<close> stores the two maps one after the other, each store atomic; \<^verbatim>\<open>Get\<close>
  loads the two pointers one after the other, each load atomic, and reads a \<^verbatim>\<open>nil\<close>
  pointer as an empty map. Run alone they are the two functions below.
\<close>

definition updatePaths :: "MPI \<Rightarrow> MPI \<Rightarrow> MountedFS \<Rightarrow> MountedFS" where
  "updatePaths availablePaths disabledPaths mfs =
     (mfs\<lparr>available := Some availablePaths\<rparr>)\<lparr>disabled := Some disabledPaths\<rparr>"

definition deref :: "MPI option \<Rightarrow> MPI" where
  "deref p = (case p of None \<Rightarrow> [] | Some m \<Rightarrow> m)"

definition Get :: "MountedFS \<Rightarrow> MPI \<times> MPI" where
  "Get mfs = (deref (available mfs), deref (disabled mfs))"

text \<open>
  Run together: the mutations hold the registry's lock, so one writer performs them in
  turn, two stores each; a reader takes no lock and performs its two loads. A schedule
  says whose atomic step comes next. \<open>stores\<close> counts the stores done: store number
  \<open>2 * i\<close> publishes the available map of mutation \<open>i\<close>, store number \<open>2 * i + 1\<close> its
  disabled map.
\<close>

datatype thread = Writer | Reader

datatype reading = Idle | LoadedAvailable "MPI option" | Returned MPI MPI

record registry =
  mem :: MountedFS
  stores :: nat
  reader :: reading

definition writerStep :: "(MPI \<times> MPI) list \<Rightarrow> registry \<Rightarrow> registry" where
  "writerStep mutations r =
     (if stores r div 2 < length mutations then
        (if even (stores r)
         then r\<lparr>mem := (mem r)\<lparr>available := Some (fst (mutations ! (stores r div 2)))\<rparr>,
                stores := Suc (stores r)\<rparr>
         else r\<lparr>mem := (mem r)\<lparr>disabled := Some (snd (mutations ! (stores r div 2)))\<rparr>,
                stores := Suc (stores r)\<rparr>)
      else r)"

definition readerStep :: "registry \<Rightarrow> registry" where
  "readerStep r =
     (case reader r of
        Idle \<Rightarrow> r\<lparr>reader := LoadedAvailable (available (mem r))\<rparr>
      | LoadedAvailable p \<Rightarrow> r\<lparr>reader := Returned (deref p) (deref (disabled (mem r)))\<rparr>
      | Returned a d \<Rightarrow> r)"

fun run :: "(MPI \<times> MPI) list \<Rightarrow> thread list \<Rightarrow> registry \<Rightarrow> registry" where
  "run mutations [] r = r"
| "run mutations (Writer # schedule) r = run mutations schedule (writerStep mutations r)"
| "run mutations (Reader # schedule) r = run mutations schedule (readerStep r)"

definition start :: "MountedFS \<Rightarrow> registry" where
  "start mfs = \<lparr>mem = mfs, stores = 0, reader = Idle\<rparr>"

text \<open>
  The pairs of maps that exist as one mutation's result: the pair at the start, then the
  pair of each mutation.
\<close>

definition epochs :: "MountedFS \<Rightarrow> (MPI \<times> MPI) list \<Rightarrow> (MPI \<times> MPI) list" where
  "epochs mfs mutations = Get mfs # mutations"

text \<open>
  What holds of the registry at every moment of every schedule: the two pointers hold
  the maps of the epochs that the count of stores gives, and what the reader has loaded
  so far comes from epochs no further apart than one store allows.
\<close>

definition snapInv :: "MountedFS \<Rightarrow> (MPI \<times> MPI) list \<Rightarrow> registry \<Rightarrow> bool" where
  "snapInv mfs mutations r \<longleftrightarrow>
     stores r \<le> 2 * length mutations
     \<and> deref (available (mem r)) = fst (epochs mfs mutations ! ((stores r + 1) div 2))
     \<and> deref (disabled (mem r)) = snd (epochs mfs mutations ! (stores r div 2))
     \<and> (case reader r of
          Idle \<Rightarrow> True
        | LoadedAvailable p \<Rightarrow>
            (\<exists>i. i \<le> (stores r + 1) div 2 \<and> deref p = fst (epochs mfs mutations ! i))
        | Returned a d \<Rightarrow>
            (\<exists>i j. i \<le> length mutations \<and> j \<le> length mutations \<and> i \<le> j + 1
                \<and> a = fst (epochs mfs mutations ! i) \<and> d = snd (epochs mfs mutations ! j)))"

section \<open>Concrete scenarios\<close>

text \<open>
  Small concrete inputs on which the theorems below are instantiated: a mountpath with an
  empty cache, an \<^verbatim>\<open>ais\<close> bucket in the global namespace without properties attached,
  and an operating-system state given by its directories and its fault script.
\<close>

definition mpathAt :: "string \<Rightarrow> MountpathInfo" where
  "mpathAt p = \<lparr>mi_Path = p, bpc = Map.empty,
                capacity = \<lparr>Used = 0, Avail = 0, PctUsed = 0\<rparr>\<rparr>"

definition aisBucket :: "string \<Rightarrow> Bck" where
  "aisBucket n = \<lparr>bck_Name = n, bck_Provider = ''ais'',
                  bck_Ns = \<lparr>ns_UUID = [], ns_Name = []\<rparr>, bck_Props = None\<rparr>"

definition osWith :: "(string \<times> string list) list \<Rightarrow> bool list \<Rightarrow> os_state" where
  "osWith dirs fs = \<lparr>tree = fmap_of_list dirs,
                     disks = (\<lambda>_. \<lparr>Blocks = 0, Bavail = 0, Bsize = 0\<rparr>),
                     faults = fs, clock = 0, calls = []\<rparr>"

definition threeMpaths :: MPI where
  "threeMpaths = [(''/a'', mpathAt ''/a''), (''/b'', mpathAt ''/b''), (''/c'', mpathAt ''/c'')]"



text \<open>
  The spec's scenario C: two mountpaths at 92 and 96 percent, high watermark 90,
  out-of-space threshold 95. On these numbers the rounded-up quotient is exact.
\<close>

definition exactCeil :: "64 word \<Rightarrow> 64 word \<Rightarrow> 64 word" where
  "exactCeil bused blocks = (bused * 100 + blocks - 1) div blocks"

definition cfgC :: Config where
  "cfgC = \<lparr>cfg_HighWM = 90, cfg_LowWM = 75, cfg_OOS = 95,
           cfg_CapacityUpdTime = 600000000000, cfg_StatsTime = 10000000000\<rparr>"

definition osC :: os_state where
  "osC = \<lparr>tree = fmempty,
          disks = (\<lambda>p. if p = ''/m1'' then \<lparr>Blocks = 100, Bavail = 8, Bsize = 4096\<rparr>
                        else \<lparr>Blocks = 100, Bavail = 4, Bsize = 4096\<rparr>),
          faults = [], clock = 5, calls = []\<rparr>"

definition mfs0 :: MountedFS where
  "mfs0 = \<lparr>available = None, disabled = None, capStatus = zeroCapStatus,
            capTime_curr = 0, capTime_next = 0\<rparr>"

definition twoMpaths :: MPI where
  "twoMpaths = [(''/m1'', mpathAt ''/m1''), (''/m2'', mpathAt ''/m2'')]"

definition capC1 :: Capacity where
  "capC1 = \<lparr>Used = 376832, Avail = 32768, PctUsed = 92\<rparr>"

definition capC2 :: Capacity where
  "capC2 = \<lparr>Used = 393216, Avail = 16384, PctUsed = 96\<rparr>"

definition csC :: CapStatus where
  "csC = \<lparr>TotalUsed = 770048, TotalAvail = 49152, PctAvg = 94, PctMax = 96,
           Err = Some (ErrCapacityExceeded 90 96 770048 819200 True), OOS = True\<rparr>"

text \<open>
  A target whose BMD has the bucket \<^verbatim>\<open>b1\<close> (not mirrored, one copy, no EC), a request on
  that bucket under the UUID \<^verbatim>\<open>u1\<close> with a timeout of two ticks, and records of a rename
  and of new properties as a begin leaves them.
\<close>

definition ctxA :: "phase \<Rightarrow> msgValue \<Rightarrow> txnServerCtx" where
  "ctxA ph v = \<lparr>c_uuid = ''u1'', c_timeout = 2, c_phase = ph, c_smapVer = 1, c_bmdVer = 7,
                c_msgValue = v, c_RMDVersion = 1, c_caller = ''p1'', c_bck = aisBucket ''b1''\<rparr>"

definition propsA :: "bool \<Rightarrow> int \<Rightarrow> bool \<Rightarrow> BucketProps" where
  "propsA m n e = \<lparr>BID = 7, Mirror = \<lparr>mirror_Enabled = m, mirror_Copies = n\<rparr>,
                   EC = \<lparr>ec_Enabled = e\<rparr>\<rparr>"

definition targetA :: "(string \<rightharpoonup> txn) \<Rightarrow> targetrunner" where
  "targetA table = \<lparr>transactions = table,
                    owner_bmd = [bckKey (aisBucket ''b1'') \<mapsto> propsA False 1 False],
                    effects = []\<rparr>"

definition envA :: "nat \<Rightarrow> (nat \<Rightarrow> int) \<Rightarrow> txnEnv" where
  "envA n observed = \<lparr>env_capInfo = zeroCapStatus, env_numAvail = n, env_observed = observed,
                      env_renewErr = None, env_renameErr = None\<rparr>"

definition initA :: Bck where
  "initA = (aisBucket ''b1'')\<lparr>bck_Props := Some (propsA False 1 False)\<rparr>"

definition renTxnA :: txn where
  "renTxnA = newTxn (ctxA ActBegin ValueOther) initA (TxnRenameBucket initA (aisBucket ''b2''))"

definition propsTxnA :: "BucketProps \<Rightarrow> BucketProps \<Rightarrow> txn" where
  "propsTxnA bprops nprops =
     newTxn (ctxA ActBegin ValueOther) initA (TxnSetBucketProps bprops nprops)"

text \<open>
  A target whose BMD has no bucket at all, and the record that the begin of a bucket
  creation leaves under the same UUID.
\<close>

definition targetNoBmd :: "(string \<rightharpoonup> txn) \<Rightarrow> targetrunner" where
  "targetNoBmd table = \<lparr>transactions = table, owner_bmd = Map.empty, effects = []\<rparr>"

definition crtTxnA :: txn where
  "crtTxnA = newTxn (ctxA ActBegin ValueOther) (aisBucket ''b1'') TxnCreateBucket"

text \<open>
  Disabling \<^verbatim>\<open>/m2\<close>: before, both mountpaths are available and none is disabled; the
  mutation publishes \<^verbatim>\<open>/m1\<close> as available and \<^verbatim>\<open>/m2\<close> as disabled.
\<close>

definition mfsBoth :: MountedFS where
  "mfsBoth = mfs0\<lparr>available := Some twoMpaths, disabled := Some []\<rparr>"

definition disableM2 :: "MPI \<times> MPI" where
  "disableM2 = ([(''/m1'', mpathAt ''/m1'')], [(''/m2'', mpathAt ''/m2'')])"

text \<open>
  The spec's scenario B on three mountpaths: the bucket \<^verbatim>\<open>b1\<close> has a directory with one
  entry on each, and the fault script decides which call fails.
\<close>

definition renameOs :: "bool list \<Rightarrow> os_state" where
  "renameOs fs = osWith [(''/a/@ais/b1'', [''x'']), (''/b/@ais/b1'', [''y'']),
                         (''/c/@ais/b1'', [''z''])] fs"

section \<open>Path composer: properties\<close>

lemma makePathBuf_no_ct: "makePathBuf mi bck [] = bucketDir (mi_Path mi) bck"
  by (simp add: makePathBuf_def cachedBdir_def ctSuffix_def bucketDir_def IsGlobal_def
      IsRemote_def Separator_def prefProvider_def prefNsUUID_def prefNsName_def)

lemma MakePathBck_path: "mi_Path (snd (MakePathBck mi bck)) = mi_Path mi"
  by (simp add: MakePathBck_def Let_def split: option.splits)

lemma makeDelPathBck_path: "mi_Path (snd (makeDelPathBck mi bck bid)) = mi_Path mi"
  by (simp add: makeDelPathBck_def MakePathBck_path split: option.splits)



section \<open>Evaluating the operating system on concrete states\<close>

lemma decimal_0: "decimal 0 = ''0''"
  by code_simp

lemma decimal_1: "decimal 1 = ''1''"
  by code_simp

lemma decimal_2: "decimal 2 = ''2''"
  by code_simp

lemmas os_eval =
  Access_def IsDirEmpty_def CreateDir_def Rename_def RemoveAll_def NanoTime_def issue_def
  faulty_def IsNotExist_def IsExist_def MoveToTrash_def moveRetry.simps tmpDirName_def
  MakePathTrash_def Join_def TrashDir_def Separator_def makeDelPathBck_def MakePathBck_def
  makePathBuf_no_ct bucketDir_def mpathAt_def aisBucket_def osWith_def
  decimal_0 decimal_1 decimal_2

section \<open>Destroying a bucket: properties\<close>

lemma length_trashOutcomes: "length (trashOutcomes mpi bck bid s) = length mpi"
  by (induction mpi bck bid s rule: trashOutcomes.induct) (auto split: prod.splits)

lemma destroyLoop_count:
  "fst (destroyLoop mpi bck bid n s)
     = n + length (filter (\<lambda>r. r = None) (trashOutcomes mpi bck bid s))"
  by (induction mpi bck bid n s rule: destroyLoop.induct)
     (auto split: prod.splits option.splits)

lemma failed_plus_moved:
  "failedMoves mpi bck bid s + length (filter (\<lambda>r. r = None) (trashOutcomes mpi bck bid s))
     = length mpi"
  using sum_length_filter_compl [of "\<lambda>r. r = None" "trashOutcomes mpi bck bid s"]
  by (simp add: failedMoves_def length_trashOutcomes)

lemma MoveToTrash_missing:
  "\<not> faulty s \<Longrightarrow> fmlookup (tree s) dir = None \<Longrightarrow> fst (MoveToTrash mi dir s) = None"
  by (simp add: MoveToTrash_def Access_def IsNotExist_def)

lemma threeMpaths_outcomes:
  "trashOutcomes threeMpaths (aisBucket ''b1'') 7
     (osWith [(''/a/@ais/b1'', [''x'']), (''/c/@ais/b1'', [''y''])]
        [False, False, False, False, False, True])
   = [None, None, Some EIO]"
  by (simp add: threeMpaths_def os_eval)

text \<open>
  C2, as the claim states it, fails. Three mountpaths: the bucket directory exists on
  \<^verbatim>\<open>/a\<close> and \<^verbatim>\<open>/c\<close> and is missing on \<^verbatim>\<open>/b\<close>; the sixth filesystem call, creating the
  trash directory of \<^verbatim>\<open>/c\<close>, fails. One move out of three failed, which is no majority,
  and \<^verbatim>\<open>DestroyBucket\<close> returns the error \<^verbatim>\<open>failed to destroy 1/3 dirs\<close>.
\<close>

theorem DestroyBucket_majority_counterexample:
  "failedMoves threeMpaths (aisBucket ''b1'') 7
     (osWith [(''/a/@ais/b1'', [''x'']), (''/c/@ais/b1'', [''y''])]
        [False, False, False, False, False, True]) = 1
   \<and> \<not> length threeMpaths < 2 * 1
   \<and> fst (DestroyBucket threeMpaths (aisBucket ''b1'') 7
       (osWith [(''/a/@ais/b1'', [''x'']), (''/c/@ais/b1'', [''y''])]
          [False, False, False, False, False, True]))
     = Some (ErrDestroyDirs (aisBucket ''b1'') 1 3)"
proof -
  let ?s = "osWith [(''/a/@ais/b1'', [''x'']), (''/c/@ais/b1'', [''y''])]
              [False, False, False, False, False, True]"
  have f: "failedMoves threeMpaths (aisBucket ''b1'') 7 ?s = 1"
    by (simp add: failedMoves_def threeMpaths_outcomes)
  have n: "fst (destroyLoop threeMpaths (aisBucket ''b1'') 7 0 ?s) = 2"
    by (simp add: destroyLoop_count threeMpaths_outcomes)
  have l: "length threeMpaths = 3"
    by (simp add: threeMpaths_def)
  from n l have "fst (DestroyBucket threeMpaths (aisBucket ''b1'') 7 ?s)
      = Some (ErrDestroyDirs (aisBucket ''b1'') 1 3)"
    by (cases "destroyLoop threeMpaths (aisBucket ''b1'') 7 0 ?s")
       (simp add: DestroyBucket_def Let_def)
  with f l show ?thesis by simp
qed

text \<open>
  C2, amended. A mountpath whose bucket directory does not exist is tolerated:
  \<^verbatim>\<open>MoveToTrash\<close> returns no error for it. \<^verbatim>\<open>DestroyBucket\<close> returns an error if and
  only if at least one available mountpath failed to move its bucket directory to trash,
  and the error carries the number of failures and the number of mountpaths; otherwise
  it returns success.
\<close>

theorem DestroyBucket_error_iff_any_failed:
  "(\<not> faulty s \<and> fmlookup (tree s) dir = None \<longrightarrow> fst (MoveToTrash mi dir s) = None)
   \<and> fst (DestroyBucket availablePaths bck bid s)
       = (if 0 < failedMoves availablePaths bck bid s
          then Some (ErrDestroyDirs bck (failedMoves availablePaths bck bid s)
                      (length availablePaths))
          else None)"
proof -
  obtain n mpi s1 where loop: "destroyLoop availablePaths bck bid 0 s = (n, mpi, s1)"
    by (cases "destroyLoop availablePaths bck bid 0 s") auto
  from destroyLoop_count [of availablePaths bck bid 0 s] loop
  have n: "n = length (filter (\<lambda>r. r = None) (trashOutcomes availablePaths bck bid s))"
    by simp
  with failed_plus_moved [of availablePaths bck bid s]
  have "failedMoves availablePaths bck bid s + n = length availablePaths" by simp
  then show ?thesis
    using loop by (auto simp: DestroyBucket_def Let_def MoveToTrash_missing)
qed

theorem DestroyBucket_error_iff_any_failed_witness:
  "fst (MoveToTrash (mpathAt ''/b'') ''/b/@ais/b1''
          (osWith [(''/a/@ais/b1'', [''x''])] [])) = None
   \<and> fst (DestroyBucket [(''/a'', mpathAt ''/a''), (''/b'', mpathAt ''/b'')]
            (aisBucket ''b1'') 7 (osWith [(''/a/@ais/b1'', [''x''])] [])) = None"
proof -
  have "trashOutcomes [(''/a'', mpathAt ''/a''), (''/b'', mpathAt ''/b'')]
          (aisBucket ''b1'') 7 (osWith [(''/a/@ais/b1'', [''x''])] []) = [None, None]"
    by (simp add: os_eval)
  then have "failedMoves [(''/a'', mpathAt ''/a''), (''/b'', mpathAt ''/b'')]
          (aisBucket ''b1'') 7 (osWith [(''/a/@ais/b1'', [''x''])] []) = 0"
    by (simp add: failedMoves_def)
  then show ?thesis
    using DestroyBucket_error_iff_any_failed
      [of "osWith [(''/a/@ais/b1'', [''x''])] []" "''/b/@ais/b1''" "mpathAt ''/b''"
          "[(''/a'', mpathAt ''/a''), (''/b'', mpathAt ''/b'')]" "aisBucket ''b1''" 7]
    by (simp add: osWith_def faulty_def)
qed

section \<open>Creating bucket directories: properties\<close>

lemma calm_not_faulty: "calm s \<Longrightarrow> \<not> faulty s"
  by (cases "faults s") (auto simp: calm_def faulty_def)

lemma calm_issue: "calm s \<Longrightarrow> calm (issue c s)"
  by (cases "faults s") (auto simp: calm_def issue_def)

lemma Access_calm:
  "calm s \<Longrightarrow> Access p s
     = (if fmlookup (tree s) p = None then Some ENOENT else None, issue (SysAccess p) s)"
  by (simp add: Access_def calm_not_faulty)

lemma IsDirEmpty_calm:
  "calm s \<Longrightarrow> fmlookup (tree s) p = Some names \<Longrightarrow>
     IsDirEmpty p s = ((names, names = [], None), issue (SysReadDir p) s)"
  by (simp add: IsDirEmpty_def calm_not_faulty)

lemma CreateDir_calm:
  "calm s \<Longrightarrow> fst (CreateDir p s) = None \<and> calm (snd (CreateDir p s))
     \<and> dirNames (snd (CreateDir p s)) = dirNames s
     \<and> fmlookup (tree (snd (CreateDir p s))) p \<noteq> None
     \<and> (\<forall>q. fmlookup (tree s) q \<noteq> None \<longrightarrow> fmlookup (tree (snd (CreateDir p s))) q \<noteq> None)"
  using calm_issue [of s "SysMkdirAll p"]
  by (auto simp: CreateDir_def calm_not_faulty dirNames_def fun_eq_iff calm_def issue_def
      split: option.splits)

lemma issue_tree [simp]: "tree (issue c s) = tree s"
  by (simp add: issue_def)

lemma dirNames_issue [simp]: "dirNames (issue c s) = dirNames s"
  by (simp add: dirNames_def fun_eq_iff)


lemma createOutcome_Nil: "createOutcome mi bck nilbmd [] num names = (num, None)"
  by (simp add: createOutcome_def)

lemma createOutcome_Cons:
  "createOutcome mi bck nilbmd (ct # cts) num names =
     (if \<not> nilbmd \<and> refuses mi bck names ct
      then (num, Some (ErrDirNotEmpty bck (MakePathCT mi bck ct) (names (MakePathCT mi bck ct))))
      else createOutcome mi bck nilbmd cts (num + 1) names)"
  by (simp add: createOutcome_def split: option.splits)

lemma createBckDirsLoop_calm:
  "calm s \<Longrightarrow>
     fst (createBckDirsLoop mi bck nilbmd cts num s)
       = createOutcome mi bck nilbmd cts num (dirNames s)
     \<and> calm (snd (createBckDirsLoop mi bck nilbmd cts num s))
     \<and> dirNames (snd (createBckDirsLoop mi bck nilbmd cts num s)) = dirNames s"
proof (induction cts arbitrary: num s)
  case Nil
  then show ?case by (simp add: createOutcome_Nil)
next
  case (Cons ct cts)
  let ?dir = "MakePathCT mi bck ct"
  let ?s1 = "issue (SysAccess ?dir) s"
  have c1: "calm ?s1" using Cons.prems by (rule calm_issue)
  show ?case
  proof (cases "fmlookup (tree s) ?dir")
    case None
    from CreateDir_calm [OF c1, of ?dir]
    obtain s2 where cd: "CreateDir ?dir ?s1 = (None, s2)" "calm s2" "dirNames s2 = dirNames s"
      by (cases "CreateDir ?dir ?s1") auto
    from None have nr: "\<not> refuses mi bck (dirNames s) ct"
      by (simp add: refuses_def dirNames_def)
    from Cons.IH [OF cd(2), of "num + 1"] cd(3) nr None Cons.prems cd(1)
    show ?thesis
      by (simp add: Access_calm createOutcome_Cons)
  next
    case (Some names)
    let ?s2 = "issue (SysReadDir ?dir) ?s1"
    have c2: "calm ?s2" using c1 by (rule calm_issue)
    from Some have dn: "dirNames s ?dir = names" by (simp add: dirNames_def)
    show ?thesis
    proof (cases nilbmd)
      case True
      with Cons.IH [OF c1, of "num + 1"] Some Cons.prems show ?thesis
        by (simp add: Access_calm createOutcome_Cons)
    next
      case False
      have ide: "IsDirEmpty ?dir ?s1 = ((names, names = [], None), ?s2)"
        using c1 Some by (simp add: IsDirEmpty_calm)
      show ?thesis
      proof (cases "refuses mi bck (dirNames s) ct")
        case True
        with dn have "names \<noteq> []" "ct \<noteq> WorkfileType" by (auto simp: refuses_def)
        with True False Some Cons.prems ide dn c2 show ?thesis
          by (simp add: Access_calm createOutcome_Cons)
      next
        case nr: False
        with dn have "names = [] \<or> ct = WorkfileType" by (auto simp: refuses_def)
        with Cons.IH [OF c2, of "num + 1"] nr False Some Cons.prems ide
        show ?thesis
          by (auto simp: Access_calm createOutcome_Cons)
      qed
    qed
  qed
qed


lemma Access_tree: "tree (snd (Access p s)) = tree s"
  by (simp add: Access_def)

lemma IsDirEmpty_tree: "tree (snd (IsDirEmpty p s)) = tree s"
  by (simp add: IsDirEmpty_def split: option.splits)

lemma CreateDir_keeps:
  "fmlookup (tree s) q \<noteq> None \<Longrightarrow> fmlookup (tree (snd (CreateDir p s))) q \<noteq> None"
  by (auto simp: CreateDir_def split: option.splits)

lemma CreateDir_creates:
  "fst (CreateDir p s) = None \<Longrightarrow> fmlookup (tree (snd (CreateDir p s))) p \<noteq> None"
  by (auto simp: CreateDir_def split: option.splits if_splits)

lemma createBckDirsLoop_keeps:
  "fmlookup (tree s) q \<noteq> None \<Longrightarrow>
     fmlookup (tree (snd (createBckDirsLoop mi bck nilbmd cts num s))) q \<noteq> None"
proof (induction cts arbitrary: num s)
  case Nil
  then show ?case by simp
next
  case (Cons ct cts)
  let ?dir = "MakePathCT mi bck ct"
  obtain r1 s1 where a: "Access ?dir s = (r1, s1)" by (cases "Access ?dir s")
  with Access_tree [of ?dir s] have t1: "tree s1 = tree s" by simp
  obtain r2 s2 where i: "IsDirEmpty ?dir s1 = (r2, s2)" by (cases "IsDirEmpty ?dir s1")
  with IsDirEmpty_tree [of ?dir s1] t1 have t2: "tree s2 = tree s" by simp
  obtain r3 s3 where c: "CreateDir ?dir s1 = (r3, s3)" by (cases "CreateDir ?dir s1")
  with CreateDir_keeps [of s1 q ?dir] t1 Cons.prems
  have t3: "fmlookup (tree s3) q \<noteq> None" by simp
  from Cons.prems t1 t2 have k1: "fmlookup (tree s1) q \<noteq> None" "fmlookup (tree s2) q \<noteq> None"
    by simp_all
  show ?case
    using a i c k1 t3 Cons.IH [OF k1(1)] Cons.IH [OF k1(2)] Cons.IH [OF t3]
    by (auto split: option.splits prod.splits)
qed

lemma createBckDirsLoop_exists:
  "snd (fst (createBckDirsLoop mi bck nilbmd cts num s)) = None \<Longrightarrow> ct \<in> set cts \<Longrightarrow>
     fmlookup (tree (snd (createBckDirsLoop mi bck nilbmd cts num s))) (MakePathCT mi bck ct) \<noteq> None"
proof (induction cts arbitrary: num s)
  case Nil
  then show ?case by simp
next
  case (Cons c cts)
  let ?dir = "MakePathCT mi bck c"
  obtain r1 s1 where a: "Access ?dir s = (r1, s1)" by (cases "Access ?dir s")
  with Access_tree [of ?dir s] have t1: "tree s1 = tree s" by simp
  obtain r2 s2 where i: "IsDirEmpty ?dir s1 = (r2, s2)" by (cases "IsDirEmpty ?dir s1")
  with IsDirEmpty_tree [of ?dir s1] t1 have t2: "tree s2 = tree s" by simp
  obtain r3 s3 where cd: "CreateDir ?dir s1 = (r3, s3)" by (cases "CreateDir ?dir s1")
  have ex1: "r1 = None \<Longrightarrow> fmlookup (tree s) ?dir \<noteq> None"
    using a by (auto simp: Access_def split: if_splits)
  have ex3: "r3 = None \<Longrightarrow> fmlookup (tree s3) ?dir \<noteq> None"
    using cd CreateDir_creates [of ?dir s1] by simp
  show ?case
  proof (cases "ct = c")
    case True
    then show ?thesis
      using a i cd ex1 ex3 t1 t2 Cons.prems(1)
        createBckDirsLoop_keeps [of s1 ?dir mi bck nilbmd cts "num + 1"]
        createBckDirsLoop_keeps [of s2 ?dir mi bck nilbmd cts "num + 1"]
        createBckDirsLoop_keeps [of s3 ?dir mi bck nilbmd cts "num + 1"]
      by (auto split: option.splits prod.splits if_splits)
  next
    case False
    with Cons.prems(2) have m: "ct \<in> set cts" by simp
    show ?thesis
      using a i cd Cons.prems(1) Cons.IH [OF _ m, of "num + 1" s1]
        Cons.IH [OF _ m, of "num + 1" s2] Cons.IH [OF _ m, of "num + 1" s3]
      by (auto split: option.splits prod.splits if_splits)
  qed
qed

lemma createBucketLoop_calm:
  "calm s \<Longrightarrow>
     fst (fst (createBucketLoop mpi bck nilbmd cts errs tot s))
       = errs @ List.map_filter
           (\<lambda>(path, mi). snd (createOutcome mi bck nilbmd cts 0 (dirNames s))) mpi"
proof (induction mpi arbitrary: errs tot s)
  case Nil
  then show ?case by (simp add: List.map_filter_simps)
next
  case (Cons pm mpi)
  obtain path mi where pm: "pm = (path, mi)" by (cases pm)
  obtain num r s1 where c: "createBckDirs mi bck nilbmd cts s = ((num, r), s1)"
    by (cases "createBckDirs mi bck nilbmd cts s") auto
  from createBckDirsLoop_calm [OF Cons.prems, of mi bck nilbmd cts 0] c
  have o: "createOutcome mi bck nilbmd cts 0 (dirNames s) = (num, r)"
    and c1: "calm s1" and d1: "dirNames s1 = dirNames s"
    by (simp_all add: createBckDirs_def)
  show ?case
    using Cons.IH [OF c1] d1 o c pm
    by (cases r) (simp_all add: List.map_filter_simps)
qed


lemmas path_eval =
  MakePathCT_def makePathBuf_def cachedBdir_def ctSuffix_def IsGlobal_def IsRemote_def
  Separator_def prefProvider_def prefNsUUID_def prefNsName_def prefCT_def
  WorkfileType_def ObjectType_def mpathAt_def aisBucket_def

text \<open>
  C5, as the claim states it, fails. On mountpath \<^verbatim>\<open>/a\<close> the workfile directory of
  bucket \<^verbatim>\<open>b1\<close> exists and holds the entry \<^verbatim>\<open>x\<close>; with \<open>nilbmd\<close> false
  \<^verbatim>\<open>createBckDirs\<close> over the workfile type returns the count 1 and no error.
\<close>

theorem createBckDirs_workfile_counterexample:
  "dirNames (osWith [(''/a/@ais/b1/%wk'', [''x''])] [])
      (MakePathCT (mpathAt ''/a'') (aisBucket ''b1'') WorkfileType) = [''x'']
   \<and> fst (createBckDirs (mpathAt ''/a'') (aisBucket ''b1'') False [WorkfileType]
            (osWith [(''/a/@ais/b1/%wk'', [''x''])] [])) = (1, None)"
  by (simp add: createBckDirs_def dirNames_def path_eval os_eval)

text \<open>
  C5, amended. When no filesystem call faults, \<^verbatim>\<open>createBckDirs\<close> on a mountpath, a
  bucket and the registered content types behaves as follows. With \<open>nil_bmd\<close> true it
  counts every content type and returns no error, whatever exists already. With
  \<open>nil_bmd\<close> false it fails exactly when some content type other than the workfile type
  has a directory that exists and is not empty: the error is the bucket-dir-not-empty
  error of the first such content type, with the count of the content types before it;
  a workfile directory that is not empty is logged and counted as created. Whenever it
  returns no error, every content-type directory exists afterwards (the missing ones
  were created), and \<^verbatim>\<open>CreateBucket\<close> returns the errors of the mountpaths that failed.
\<close>

theorem createBckDirs_outcome:
  assumes "calm s"
  shows "fst (createBckDirs mi bck nilbmd cts s)
           = (if nilbmd then (length cts, None)
              else case find (refuses mi bck (dirNames s)) cts of
                     None \<Rightarrow> (length cts, None)
                   | Some ct \<Rightarrow>
                       (length (takeWhile (\<lambda>c. \<not> refuses mi bck (dirNames s) c) cts),
                        Some (ErrDirNotEmpty bck (MakePathCT mi bck ct)
                                (dirNames s (MakePathCT mi bck ct)))))
         \<and> (snd (fst (createBckDirs mi bck nilbmd cts s)) = None \<longrightarrow>
              (\<forall>ct \<in> set cts.
                 fmlookup (tree (snd (createBckDirs mi bck nilbmd cts s)))
                   (MakePathCT mi bck ct) \<noteq> None))
         \<and> fst (CreateBucket availablePaths bck nilbmd cts s)
             = List.map_filter
                 (\<lambda>(path, m). snd (fst (createBckDirs m bck nilbmd cts s))) availablePaths"
proof -
  have one: "\<And>m. fst (createBckDirs m bck nilbmd cts s)
               = createOutcome m bck nilbmd cts 0 (dirNames s)"
    using createBckDirsLoop_calm [OF assms] by (simp add: createBckDirs_def)
  have A: "fst (createBckDirs mi bck nilbmd cts s)
           = (if nilbmd then (length cts, None)
              else case find (refuses mi bck (dirNames s)) cts of
                     None \<Rightarrow> (length cts, None)
                   | Some ct \<Rightarrow>
                       (length (takeWhile (\<lambda>c. \<not> refuses mi bck (dirNames s) c) cts),
                        Some (ErrDirNotEmpty bck (MakePathCT mi bck ct)
                                (dirNames s (MakePathCT mi bck ct)))))"
    by (simp add: one createOutcome_def split: option.splits)
  have B: "snd (fst (createBckDirs mi bck nilbmd cts s)) = None \<longrightarrow>
              (\<forall>ct \<in> set cts.
                 fmlookup (tree (snd (createBckDirs mi bck nilbmd cts s)))
                   (MakePathCT mi bck ct) \<noteq> None)"
    using createBckDirsLoop_exists [of mi bck nilbmd cts 0 s]
    by (auto simp: createBckDirs_def)
  have "fst (CreateBucket availablePaths bck nilbmd cts s)
          = List.map_filter
              (\<lambda>(path, m). snd (createOutcome m bck nilbmd cts 0 (dirNames s))) availablePaths"
    using createBucketLoop_calm [OF assms, of availablePaths bck nilbmd cts "[]" 0]
    by (cases "createBucketLoop availablePaths bck nilbmd cts [] 0 s")
       (auto simp: CreateBucket_def)
  then have C: "fst (CreateBucket availablePaths bck nilbmd cts s)
             = List.map_filter
                 (\<lambda>(path, m). snd (fst (createBckDirs m bck nilbmd cts s))) availablePaths"
    by (simp add: one)
  from A B C show ?thesis by (intro conjI)
qed

theorem createBckDirs_outcome_witness:
  "fst (createBckDirs (mpathAt ''/a'') (aisBucket ''b1'') False [''ob'', ''wk'', ''ec'']
          (osWith [(''/a/@ais/b1/%wk'', [''x''])] [])) = (3, None)
   \<and> fmlookup (tree (snd (createBckDirs (mpathAt ''/a'') (aisBucket ''b1'') False
          [''ob'', ''wk'', ''ec''] (osWith [(''/a/@ais/b1/%wk'', [''x''])] []))))
        ''/a/@ais/b1/%ob'' \<noteq> None
   \<and> fst (CreateBucket [(''/a'', mpathAt ''/a'')] (aisBucket ''b1'') False
          [''ob'', ''wk'', ''ec''] (osWith [(''/a/@ais/b1/%wk'', [''x''])] [])) = []"
proof -
  have c: "calm (osWith [(''/a/@ais/b1/%wk'', [''x''])] [])"
    by (simp add: calm_def osWith_def)
  have r: "find (refuses (mpathAt ''/a'') (aisBucket ''b1'')
              (dirNames (osWith [(''/a/@ais/b1/%wk'', [''x''])] []))) [''ob'', ''wk'', ''ec'']
            = None"
    by (simp add: refuses_def dirNames_def path_eval osWith_def)
  have p: "MakePathCT (mpathAt ''/a'') (aisBucket ''b1'') ''ob'' = ''/a/@ais/b1/%ob''"
    by (simp add: path_eval)
  show ?thesis
    using createBckDirs_outcome [OF c, of "mpathAt ''/a''" "aisBucket ''b1''" False
        "[''ob'', ''wk'', ''ec'']" "[(''/a'', mpathAt ''/a'')]", unfolded r]
    by (simp add: p List.map_filter_simps)
qed

section \<open>Capacity: properties\<close>

lemma sint32_of_int:
  "- (2 ^ 31) \<le> k \<Longrightarrow> k < 2 ^ 31 \<Longrightarrow> sint (word_of_int k :: 32 word) = k"
  by (simp add: signed_of_int signed_take_bit_int_eq_self)

lemma sint32_of_nat:
  "n < 2 ^ 31 \<Longrightarrow> sint (word_of_nat n :: 32 word) = int n"
  using sint32_of_int [of "int n"] by simp

lemma sint32_add:
  fixes a b :: "32 word"
  shows "- (2 ^ 31) \<le> sint a + sint b \<Longrightarrow> sint a + sint b < 2 ^ 31 \<Longrightarrow>
     sint (a + b) = sint a + sint b"
  by (simp add: sint_word_add signed_take_bit_int_eq_self)

lemma sint32_sum_list:
  fixes ws :: "32 word list"
  assumes "\<forall>w \<in> set ws. 0 \<le> sint w" "sum_list (map sint ws) < 2 ^ 31"
  shows "sint (sum_list ws) = sum_list (map sint ws)"
  using assms
proof (induction ws)
  case Nil
  then show ?case by simp
next
  case (Cons w ws)
  from Cons.prems have nn: "0 \<le> sum_list (map sint ws)"
    by (intro sum_list_nonneg) auto
  with Cons.prems have ih: "sint (sum_list ws) = sum_list (map sint ws)"
    by (intro Cons.IH) auto
  with Cons.prems nn show ?case
    by (simp add: sint32_add)
qed

lemma truncDiv_nonneg: "0 \<le> a \<Longrightarrow> 0 < b \<Longrightarrow> truncDiv a b = a div b"
  by (simp add: truncDiv_def)

lemma sint_sdiv32:
  assumes "0 \<le> sint a" "0 < sint n"
  shows "sint (sdiv32 a n) = sint a div sint n"
proof -
  have "sint a div sint n \<le> sint a"
    using assms zdiv_mono2 [of "sint a" 1 "sint n"] by simp
  moreover have "sint a < 2 ^ 31"
    using sint_lt [of a] by simp
  moreover have "0 \<le> sint a div sint n"
    using assms by (simp add: pos_imp_zdiv_nonneg_iff)
  ultimately show ?thesis
    using assms by (simp add: sdiv32_def truncDiv_nonneg sint32_of_int)
qed

lemma sint_foldl_MaxI32:
  "sint (foldl MaxI32 a ws) = foldl max (sint a) (map sint ws)"
  by (induction ws arbitrary: a) (auto simp: MaxI32_def max_def)

lemma foldl_max_Max:
  fixes a :: int
  shows "foldl max a xs = Max (insert a (set xs))"
proof -
  have "foldl max a xs = fold max xs a"
    by (simp add: foldl_conv_fold max.commute)
  also have "\<dots> = Max (set (a # xs))"
    by (simp only: Max.set_eq_fold)
  finally show ?thesis by simp
qed

lemma Max_with_zero:
  fixes xs :: "int list"
  assumes "xs \<noteq> []" "\<forall>x \<in> set xs. 0 \<le> x"
  shows "Max (insert 0 (set xs)) = Max (set xs)"
proof -
  from assms have "0 \<le> Max (set xs)"
    by (metis List.finite_set Max_ge hd_in_set order_trans)
  with assms show ?thesis by (simp add: max_def)
qed

lemma getCapacity_refresh:
  "getCapacity ceilPct mi config True s = (Inr c, mi1, s1) \<Longrightarrow> capacity mi1 = c"
  by (auto simp: getCapacity_def Let_def split: prod.splits sum.splits if_splits)

lemma capLoop_sums:
  "capLoop ceilPct cfg mpi cs mpcap s = (None, cs', mpi', mpcap', s') \<Longrightarrow>
     length mpi' = length mpi
     \<and> PctAvg cs' = PctAvg cs + sum_list (map (\<lambda>(p, mi). PctUsed (capacity mi)) mpi')
     \<and> PctMax cs' = foldl MaxI32 (PctMax cs) (map (\<lambda>(p, mi). PctUsed (capacity mi)) mpi')"
proof (induction mpi arbitrary: cs mpcap s cs' mpi' mpcap' s')
  case Nil
  then show ?case by simp
next
  case (Cons pm mpi)
  obtain path mi where pm: "pm = (path, mi)" by (cases pm)
  obtain r mi1 s1 where g: "getCapacity ceilPct mi cfg True s = (r, mi1, s1)"
    by (cases "getCapacity ceilPct mi cfg True s") auto
  show ?case
  proof (cases r)
    case (Inl e)
    with Cons.prems pm g show ?thesis by simp
  next
    case (Inr c)
    let ?cs = "cs\<lparr>TotalUsed := TotalUsed cs + Used c, TotalAvail := TotalAvail cs + Avail c,
                   PctMax := MaxI32 (PctMax cs) (PctUsed c), PctAvg := PctAvg cs + PctUsed c\<rparr>"
    let ?m = "map_option (\<lambda>m. m(path \<mapsto> c)) mpcap"
    obtain e csx rest mx sx where l: "capLoop ceilPct cfg mpi ?cs ?m s1 = (e, csx, rest, mx, sx)"
      by (cases "capLoop ceilPct cfg mpi ?cs ?m s1") auto
    with Cons.prems pm g Inr have e: "e = None" and eq: "cs' = csx" "mpi' = (path, mi1) # rest"
      by simp_all
    from getCapacity_refresh g Inr have c: "capacity mi1 = c" by blast
    from Cons.IH [OF l [unfolded e]] eq c show ?thesis
      by (simp add: add.assoc)
  qed
qed


lemma RefreshCapStatus_success:
  assumes "RefreshCapStatus ceilPct gco config mpcap availablePaths mfs s
             = ((cs, None), mpcap', mpi', mfs', s')"
  shows "availablePaths \<noteq> []
     \<and> (\<exists>cs0 s1. capLoop ceilPct (case config of None \<Rightarrow> gco | Some c \<Rightarrow> c)
                     availablePaths zeroCapStatus mpcap s = (None, cs0, mpi', mpcap', s1)
           \<and> cs = finishCapStatus (case config of None \<Rightarrow> gco | Some c \<Rightarrow> c)
                     (length availablePaths) cs0)
     \<and> capStatus mfs' = cs"
proof -
  let ?cfg = "case config of None \<Rightarrow> gco | Some c \<Rightarrow> c"
  from assms have ne: "availablePaths \<noteq> []"
    by (auto simp: RefreshCapStatus_def)
  obtain e cs0 mpi0 m0 s1 where
    cl: "capLoop ceilPct ?cfg availablePaths zeroCapStatus mpcap s = (e, cs0, mpi0, m0, s1)"
    by (cases "capLoop ceilPct ?cfg availablePaths zeroCapStatus mpcap s") auto
  obtain t s2 where nt: "NanoTime s1 = (t, s2)" by (cases "NanoTime s1")
  from assms ne cl nt show ?thesis
    by (cases e)
       (auto simp: RefreshCapStatus_def finishCapStatus_def Let_def
             split: if_splits sum.splits)
qed

text \<open>
  C3. A refresh that succeeds over the available mountpaths (there is at least one)
  leaves in each mountpath its used percentage; when these are not negative and neither
  their sum nor the number of mountpaths leaves the \<^verbatim>\<open>int32\<close> range (any percentages up
  to 100 on fewer than 21 million mountpaths), the status returned and cached has
  \<^verbatim>\<open>PctAvg\<close> the floor of their sum over their number, \<^verbatim>\<open>PctMax\<close> their maximum,
  \<^verbatim>\<open>OOS\<close> true exactly when \<^verbatim>\<open>PctMax\<close> is above the out-of-space threshold, and
  \<^verbatim>\<open>Err\<close> set whenever \<^verbatim>\<open>PctMax\<close> is above the high watermark or \<^verbatim>\<open>OOS\<close> holds.
\<close>

theorem RefreshCapStatus_aggregate:
  assumes ok: "RefreshCapStatus ceilPct gco config mpcap availablePaths mfs s
                 = ((cs, None), mpcap', mpi', mfs', s')"
    and nonneg: "\<forall>x \<in> set (pctUsed mpi'). 0 \<le> x"
    and total: "sum_list (pctUsed mpi') < 2 ^ 31"
    and count: "length availablePaths < 2 ^ 31"
  shows "availablePaths \<noteq> [] \<and> length mpi' = length availablePaths
     \<and> sint (PctAvg cs) = sum_list (pctUsed mpi') div int (length availablePaths)
     \<and> sint (PctMax cs) = Max (set (pctUsed mpi'))
     \<and> OOS cs = (sint (cfg_OOS (case config of None \<Rightarrow> gco | Some c \<Rightarrow> c)) < sint (PctMax cs))
     \<and> (sint (cfg_HighWM (case config of None \<Rightarrow> gco | Some c \<Rightarrow> c)) < sint (PctMax cs)
          \<or> OOS cs \<longrightarrow> Err cs \<noteq> None)
     \<and> capStatus mfs' = cs"
proof -
  let ?cfg = "case config of None \<Rightarrow> gco | Some c \<Rightarrow> c"
  let ?ws = "map (\<lambda>(p, mi). PctUsed (capacity mi)) mpi'"
  from RefreshCapStatus_success [OF ok] obtain cs0 s1 where
    ne: "availablePaths \<noteq> []"
    and cl: "capLoop ceilPct ?cfg availablePaths zeroCapStatus mpcap s
               = (None, cs0, mpi', mpcap', s1)"
    and cs: "cs = finishCapStatus ?cfg (length availablePaths) cs0"
    and cached: "capStatus mfs' = cs"
    by blast
  from capLoop_sums [OF cl] have len: "length mpi' = length availablePaths"
    and avg0: "PctAvg cs0 = sum_list ?ws"
    and max0: "PctMax cs0 = foldl MaxI32 0 ?ws"
    by (simp_all add: zeroCapStatus_def)
  have pw: "pctUsed mpi' = map sint ?ws"
    by (simp add: pctUsed_def comp_def case_prod_beta)
  from nonneg total have s_avg: "sint (PctAvg cs0) = sum_list (pctUsed mpi')"
    unfolding avg0 pw by (intro sint32_sum_list) auto
  from ne len have ne': "pctUsed mpi' \<noteq> []"
    by (auto simp: pctUsed_def)
  have s_max: "sint (PctMax cs0) = Max (set (pctUsed mpi'))"
    unfolding max0 using Max_with_zero [OF ne' nonneg]
    by (simp add: sint_foldl_MaxI32 foldl_max_Max pw)
  from ne count have n: "sint (word_of_nat (length availablePaths) :: 32 word)
      = int (length availablePaths)" "0 < int (length availablePaths)"
    by (simp_all add: sint32_of_nat)
  from nonneg have "0 \<le> sum_list (pctUsed mpi')"
    by (intro sum_list_nonneg) auto
  with s_avg n have d: "sint (sdiv32 (PctAvg cs0) (word_of_nat (length availablePaths)))
      = sum_list (pctUsed mpi') div int (length availablePaths)"
    by (simp add: sint_sdiv32)
  have A: "sint (PctAvg cs) = sum_list (pctUsed mpi') div int (length availablePaths)"
    using d by (simp add: cs finishCapStatus_def Let_def)
  have M: "PctMax cs = PctMax cs0"
    by (simp add: cs finishCapStatus_def Let_def)
  have O: "OOS cs = (sint (cfg_OOS ?cfg) < sint (PctMax cs))"
    by (simp add: cs finishCapStatus_def Let_def)
  have E: "sint (cfg_HighWM ?cfg) < sint (PctMax cs) \<or> OOS cs \<longrightarrow> Err cs \<noteq> None"
    by (auto simp: cs finishCapStatus_def Let_def)
  from ne len A M s_max O E cached show ?thesis by simp
qed

lemma gC1:
  "getCapacity exactCeil (mpathAt ''/m1'') cfgC True (osC\<lparr>calls := cl\<rparr>)
     = (Inr capC1, (mpathAt ''/m1'')\<lparr>capacity := capC1\<rparr>, osC\<lparr>calls := cl @ [SysStatfs ''/m1'']\<rparr>)"
  by (simp add: getCapacity_def Statfs_def faulty_def issue_def osC_def cfgC_def mpathAt_def
      exactCeil_def Let_def capC1_def)

lemma gC2:
  "getCapacity exactCeil (mpathAt ''/m2'') cfgC True (osC\<lparr>calls := cl\<rparr>)
     = (Inr capC2, (mpathAt ''/m2'')\<lparr>capacity := capC2\<rparr>, osC\<lparr>calls := cl @ [SysStatfs ''/m2'']\<rparr>)"
  by (simp add: getCapacity_def Statfs_def faulty_def issue_def osC_def cfgC_def mpathAt_def
      exactCeil_def Let_def capC2_def)

lemma loopC:
  "capLoop exactCeil cfgC twoMpaths zeroCapStatus None (osC\<lparr>calls := []\<rparr>)
     = (None, \<lparr>TotalUsed = 770048, TotalAvail = 49152, PctAvg = 188, PctMax = 96, Err = None, OOS = False\<rparr>,
        [(''/m1'', (mpathAt ''/m1'')\<lparr>capacity := capC1\<rparr>), (''/m2'', (mpathAt ''/m2'')\<lparr>capacity := capC2\<rparr>)],
        None, osC\<lparr>calls := [SysStatfs ''/m1'', SysStatfs ''/m2'']\<rparr>)"
  by (simp add: twoMpaths_def gC1 gC2 zeroCapStatus_def capC1_def capC2_def MaxI32_def)


lemma nextC: "PctAvg (capStatus m) = 94 \<Longrightarrow> nextRefresh m cfgC = Inr 558700000000"
  by (simp add: nextRefresh_def cfgC_def MaxI64_def sdiv64_def truncDiv_def Let_def)

lemma finishC:
  "RefreshCapStatus exactCeil cfgC None None twoMpaths mfs0 osC
     = ((csC, None), None,
        [(''/m1'', (mpathAt ''/m1'')\<lparr>capacity := capC1\<rparr>),
         (''/m2'', (mpathAt ''/m2'')\<lparr>capacity := capC2\<rparr>)],
        mfs0\<lparr>capStatus := csC, capTime_curr := 5, capTime_next := 558700000005\<rparr>,
        osC\<lparr>clock := 6, calls := [SysStatfs ''/m1'', SysStatfs ''/m2'', SysNanoTime]\<rparr>)"
proof -
  have o: "osC = osC\<lparr>calls := []\<rparr>" by (simp add: osC_def)
  have l: "length twoMpaths = 2" by (simp add: twoMpaths_def)
  have c: "cfg_OOS cfgC = 95" "cfg_HighWM cfgC = 90" by (simp_all add: cfgC_def)
  have n: "NanoTime (osC\<lparr>calls := [SysStatfs ''/m1'', SysStatfs ''/m2'']\<rparr>)
      = (5, osC\<lparr>clock := 6, calls := [SysStatfs ''/m1'', SysStatfs ''/m2'', SysNanoTime]\<rparr>)"
    by (simp add: NanoTime_def osC_def)
  have d: "sdiv32 188 2 = 94" by (simp add: sdiv32_def truncDiv_def)
  show ?thesis
    apply (subst o)
    apply (simp add: RefreshCapStatus_def l loopC c n d nextC csC_def mfs0_def)
    apply (simp add: Let_def)
    done
qed

theorem RefreshCapStatus_aggregate_witness:
  "sint (PctAvg (fst (fst (RefreshCapStatus exactCeil cfgC None None twoMpaths mfs0 osC)))) = 94
   \<and> sint (PctMax (fst (fst (RefreshCapStatus exactCeil cfgC None None twoMpaths mfs0 osC)))) = 96
   \<and> OOS (fst (fst (RefreshCapStatus exactCeil cfgC None None twoMpaths mfs0 osC)))
   \<and> Err (fst (fst (RefreshCapStatus exactCeil cfgC None None twoMpaths mfs0 osC))) \<noteq> None"
proof -
  have p: "pctUsed [(''/m1'', (mpathAt ''/m1'')\<lparr>capacity := capC1\<rparr>),
                    (''/m2'', (mpathAt ''/m2'')\<lparr>capacity := capC2\<rparr>)] = [92, 96]"
    by (simp add: pctUsed_def capC1_def capC2_def)
  have l: "length twoMpaths = 2" by (simp add: twoMpaths_def)
  have c: "cfg_OOS cfgC = 95" "cfg_HighWM cfgC = 90" by (simp_all add: cfgC_def)
  show ?thesis
    using RefreshCapStatus_aggregate [OF finishC] by (simp add: p l c finishC)
qed


text \<open>
  C9. With no available mountpath \<^verbatim>\<open>RefreshCapStatus\<close> returns \<^verbatim>\<open>ErrNoMountpaths\<close>: the
  operating system is as before (no statfs and no other call was issued), no division
  was reached, and the cached status and its times are unchanged.
\<close>

theorem RefreshCapStatus_no_mountpaths:
  "RefreshCapStatus ceilPct gco config mpcap [] mfs s
     = ((zeroCapStatus, Some ErrNoMountpaths), mpcap, [], mfs, s)"
  by (simp add: RefreshCapStatus_def)

section \<open>Transactions: properties\<close>

lemma awaitVersion_iff:
  "awaitVersion observed v now left \<longleftrightarrow> (\<exists>k. now \<le> k \<and> k \<le> now + left \<and> v \<le> observed k)"
proof (induction left arbitrary: now)
  case 0
  then show ?case by auto
next
  case (Suc left)
  show ?case
  proof (cases "v \<le> observed now")
    case True
    then show ?thesis by auto
  next
    case False
    have "(\<exists>k. Suc now \<le> k \<and> k \<le> Suc now + left \<and> v \<le> observed k)
        \<longleftrightarrow> (\<exists>k. now \<le> k \<and> k \<le> now + Suc left \<and> v \<le> observed k)"
      using False by (metis Suc_leD Suc_leI add_Suc add_Suc_right le_neq_implies_less)
    with False Suc.IH [of "Suc now"] show ?thesis by simp
  qed
qed

lemma awaited_iff:
  "awaitVersion observed v 0 timeout \<longleftrightarrow> (\<exists>k\<le>timeout. v \<le> observed k)"
  by (simp add: awaitVersion_iff)

lemma txnWait_cases:
  "txnWait x timeout observed table
     = (if \<exists>k\<le>timeout. txn_bmdVer x \<le> observed k
        then (None, table(txn_uuid x := None))
        else (Some ErrTxnBmdTimeout, table))"
  by (simp add: txnWait_def awaited_iff)

lemma createBucket_commit_missing:
  "c_phase c = ActCommit \<Longrightarrow> transactions t (c_uuid c) = None \<Longrightarrow>
     createBucket c env t = (Some (ErrWrapped (ErrTxnNotFound (c_uuid c))), t)"
  by (simp add: createBucket_def txnFind_def)

lemma createBucket_commit_waited:
  "c_phase c = ActCommit \<Longrightarrow> transactions t (c_uuid c) = Some x \<Longrightarrow>
     createBucket c env t
       = (if \<exists>k\<le>c_timeout c. txn_bmdVer x \<le> env_observed env k
          then (None, t\<lparr>transactions := (transactions t)(txn_uuid x := None)\<rparr>)
          else (Some (ErrWrapped ErrTxnBmdTimeout), t))"
  by (simp add: createBucket_def txnFind_def txnWait_cases)

lemma renameBucket_commit_uninitialized:
  "Init (owner_bmd t) (c_bck c) = Inl err \<Longrightarrow> renameBucket c env mpi t s = (Some err, t, s)"
  by (simp add: renameBucket_def)

lemma renameBucket_commit_missing:
  "c_phase c = ActCommit \<Longrightarrow> Init (owner_bmd t) (c_bck c) = Inr bckFrom \<Longrightarrow>
   transactions t (c_uuid c) = None \<Longrightarrow>
     renameBucket c env mpi t s = (Some (ErrWrapped (ErrTxnNotFound (c_uuid c))), t, s)"
  by (simp add: renameBucket_def txnFind_def)

lemma renameBucket_commit_timeout:
  "c_phase c = ActCommit \<Longrightarrow> Init (owner_bmd t) (c_bck c) = Inr bckFrom \<Longrightarrow>
   transactions t (c_uuid c) = Some x \<Longrightarrow> txn_payload x = TxnRenameBucket txnFrom txnTo \<Longrightarrow>
   \<not> (\<exists>k\<le>c_timeout c. txn_bmdVer x \<le> env_observed env k) \<Longrightarrow>
     renameBucket c env mpi t s = (Some (ErrWrapped ErrTxnBmdTimeout), t, s)"
  by (auto simp: renameBucket_def txnFind_def txnWait_cases)

lemma renameBucket_commit_effects:
  assumes "c_phase c = ActCommit"
    and "effects (fst (snd (renameBucket c env mpi t s))) \<noteq> effects t"
  shows "\<exists>x. transactions t (c_uuid c) = Some x
           \<and> (\<exists>k\<le>c_timeout c. txn_bmdVer x \<le> env_observed env k)"
proof (cases "Init (owner_bmd t) (c_bck c)")
  case (Inl e)
  with assms show ?thesis by (simp add: renameBucket_def)
next
  case (Inr bckFrom)
  show ?thesis
  proof (cases "transactions t (c_uuid c)")
    case None
    with assms Inr show ?thesis by (simp add: renameBucket_commit_missing)
  next
    case (Some x)
    show ?thesis
    proof (cases "\<exists>k\<le>c_timeout c. txn_bmdVer x \<le> env_observed env k")
      case True
      with Some show ?thesis by simp
    next
      case False
      with assms Inr Some show ?thesis
        by (cases "txn_payload x")
           (simp_all add: renameBucket_def txnFind_def txnWait_cases)
    qed
  qed
qed

lemma renameBucket_commit_other_record:
  "c_phase c = ActCommit \<Longrightarrow> Init (owner_bmd t) (c_bck c) = Inr bckFrom \<Longrightarrow>
   transactions t (c_uuid c) = Some x \<Longrightarrow>
   \<forall>txnFrom txnTo. txn_payload x \<noteq> TxnRenameBucket txnFrom txnTo \<Longrightarrow>
     renameBucket c env mpi t s = (Some PanicTypeAssertion, t, s)"
  by (cases "txn_payload x") (simp_all add: renameBucket_def txnFind_def)

lemma renameBucket_commit_waited:
  assumes "c_phase c = ActCommit" and "Init (owner_bmd t) (c_bck c) = Inr bckFrom"
    and "transactions t (c_uuid c) = Some x"
    and "txn_payload x = TxnRenameBucket txnFrom txnTo"
  shows "renameBucket c env mpi t s
       = (if \<not> (\<exists>k\<le>c_timeout c. txn_bmdVer x \<le> env_observed env k)
          then (Some (ErrWrapped ErrTxnBmdTimeout), t, s)
          else (case env_renewErr env of
                  Some err \<Rightarrow>
                    (Some err,
                     t\<lparr>transactions := (transactions t)(txn_uuid x := None),
                       effects := effects t @ [RenewBckFastRename txnFrom txnTo]\<rparr>, s)
                | None \<Rightarrow>
                    (case env_renameErr env of
                       Some err \<Rightarrow>
                         (Some err,
                          t\<lparr>transactions := (transactions t)(txn_uuid x := None),
                            effects := effects t @ [RenewBckFastRename txnFrom txnTo,
                                                    CallRenameBucketDirs txnFrom txnTo]\<rparr>, s)
                     | None \<Rightarrow>
                         if 0 < c_RMDVersion c
                         then (None,
                               t\<lparr>transactions := (transactions t)(txn_uuid x := None),
                                 effects := effects t @ [RenewBckFastRename txnFrom txnTo,
                                                         CallRenameBucketDirs txnFrom txnTo,
                                                         GfnLocalActivate, GfnGlobalActivateTimed,
                                                         RunFastRen (c_RMDVersion c),
                                                         SleepMillis 200]\<rparr>, s)
                         else (Some PanicAssert,
                               t\<lparr>transactions := (transactions t)(txn_uuid x := None),
                                 effects := effects t @ [RenewBckFastRename txnFrom txnTo,
                                                         CallRenameBucketDirs txnFrom txnTo]\<rparr>,
                               s))))"
proof (cases "\<exists>k\<le>c_timeout c. txn_bmdVer x \<le> env_observed env k")
  case True
  with assms show ?thesis
    by (cases "env_renewErr env"; cases "env_renameErr env")
       (simp_all add: renameBucket_def txnFind_def txnWait_cases Let_def)
next
  case False
  with renameBucket_commit_timeout [OF assms, of env mpi s] show ?thesis
    by auto
qed

lemma Init_targetA: "Init (owner_bmd (targetA table)) (c_bck (ctxA ph v)) = Inr initA"
  by (simp add: Init_def targetA_def ctxA_def initA_def)

text \<open>
  C4, as the claim states it, fails. \<^verbatim>\<open>renameBucket\<close> initializes the bucket from the BMD
  before it looks at the phase, and returns the error of \<^verbatim>\<open>Init\<close> as it is. A commit for
  the UUID \<^verbatim>\<open>u1\<close> on a target whose table has no record and whose BMD does not have the
  bucket \<^verbatim>\<open>b1\<close> returns the bucket-does-not-exist error, not \<^verbatim>\<open>ErrTxnNotFound\<close>.
\<close>

theorem commit_without_record_counterexample:
  "c_phase (ctxA ActCommit ValueOther) = ActCommit
   \<and> transactions (targetNoBmd Map.empty) (c_uuid (ctxA ActCommit ValueOther)) = None
   \<and> renameBucket (ctxA ActCommit ValueOther) (envA 2 (\<lambda>k. 7)) threeMpaths
        (targetNoBmd Map.empty) (osWith [] [])
      = (Some (ErrBucketDoesNotExist (aisBucket ''b1'')), targetNoBmd Map.empty, osWith [] [])"
  by (simp add: renameBucket_def Init_def targetNoBmd_def ctxA_def)

text \<open>
  C4, amended. For a commit-phase request with UUID \<open>u\<close>. \<^verbatim>\<open>createBucket\<close>: without a
  record under \<open>u\<close> it returns (wrapped by \<^verbatim>\<open>fmt.Errorf\<close>) \<^verbatim>\<open>ErrTxnNotFound\<close> and leaves
  the target as it was; with a record it waits, for at most the timeout, for a tick at
  which the observed BMD version is at least the record's, returns success and discards
  the record when there is one, and returns \<^verbatim>\<open>ErrTxnBmdTimeout\<close> with the target as it
  was when there is none. \<^verbatim>\<open>renameBucket\<close>: a failed \<^verbatim>\<open>Init\<close> ends the commit with its
  error before any lookup; after it, a missing record is \<^verbatim>\<open>ErrTxnNotFound\<close>, a record of
  another action panics at the type assertion before any wait, and a rename record is
  waited for in the same way, with \<^verbatim>\<open>ErrTxnBmdTimeout\<close> and nothing changed when the
  version does not arrive. When it arrives the record is discarded and the commit renews
  the fast-rename xaction, renames the bucket directories, asserts a positive rebalance
  version, activates get-from-neighbor, runs the xaction and sleeps, in that order; a
  failure of the renewal, of the renaming or of the assertion ends the commit there, with
  the calls made so far. Whenever the rename commit made any call to its collaborators,
  the record was found and the version had arrived in time.
\<close>

theorem commit_outcome:
  assumes "c_phase c = ActCommit"
  shows "(transactions t (c_uuid c) = None \<longrightarrow>
            createBucket c env t = (Some (ErrWrapped (ErrTxnNotFound (c_uuid c))), t))
     \<and> (\<forall>x. transactions t (c_uuid c) = Some x \<longrightarrow>
            createBucket c env t
              = (if \<exists>k\<le>c_timeout c. txn_bmdVer x \<le> env_observed env k
                 then (None, t\<lparr>transactions := (transactions t)(txn_uuid x := None)\<rparr>)
                 else (Some (ErrWrapped ErrTxnBmdTimeout), t)))
     \<and> (\<forall>err. Init (owner_bmd t) (c_bck c) = Inl err \<longrightarrow>
            renameBucket c env availablePaths t s = (Some err, t, s))
     \<and> (\<forall>bckFrom. Init (owner_bmd t) (c_bck c) = Inr bckFrom \<longrightarrow>
          (transactions t (c_uuid c) = None \<longrightarrow>
             renameBucket c env availablePaths t s
               = (Some (ErrWrapped (ErrTxnNotFound (c_uuid c))), t, s))
          \<and> (\<forall>x. transactions t (c_uuid c) = Some x \<longrightarrow>
               ((\<forall>txnFrom txnTo. txn_payload x \<noteq> TxnRenameBucket txnFrom txnTo) \<longrightarrow>
                  renameBucket c env availablePaths t s = (Some PanicTypeAssertion, t, s))
               \<and> (\<forall>txnFrom txnTo. txn_payload x = TxnRenameBucket txnFrom txnTo \<longrightarrow>
                    renameBucket c env availablePaths t s
                      = (if \<not> (\<exists>k\<le>c_timeout c. txn_bmdVer x \<le> env_observed env k)
                         then (Some (ErrWrapped ErrTxnBmdTimeout), t, s)
                         else (case env_renewErr env of
                                 Some err \<Rightarrow>
                                   (Some err,
                                    t\<lparr>transactions := (transactions t)(txn_uuid x := None),
                                      effects := effects t
                                        @ [RenewBckFastRename txnFrom txnTo]\<rparr>, s)
                               | None \<Rightarrow>
                                   (case env_renameErr env of
                                      Some err \<Rightarrow>
                                        (Some err,
                                         t\<lparr>transactions := (transactions t)(txn_uuid x := None),
                                           effects := effects t
                                             @ [RenewBckFastRename txnFrom txnTo,
                                                CallRenameBucketDirs txnFrom txnTo]\<rparr>, s)
                                    | None \<Rightarrow>
                                        if 0 < c_RMDVersion c
                                        then (None,
                                              t\<lparr>transactions
                                                  := (transactions t)(txn_uuid x := None),
                                                effects := effects t
                                                  @ [RenewBckFastRename txnFrom txnTo,
                                                     CallRenameBucketDirs txnFrom txnTo,
                                                     GfnLocalActivate, GfnGlobalActivateTimed,
                                                     RunFastRen (c_RMDVersion c),
                                                     SleepMillis 200]\<rparr>, s)
                                        else (Some PanicAssert,
                                              t\<lparr>transactions
                                                  := (transactions t)(txn_uuid x := None),
                                                effects := effects t
                                                  @ [RenewBckFastRename txnFrom txnTo,
                                                     CallRenameBucketDirs txnFrom txnTo]\<rparr>,
                                              s)))))))
     \<and> (effects (fst (snd (renameBucket c env availablePaths t s))) \<noteq> effects t \<longrightarrow>
          (\<exists>x. transactions t (c_uuid c) = Some x
             \<and> (\<exists>k\<le>c_timeout c. txn_bmdVer x \<le> env_observed env k)))"
proof (intro conjI allI impI)
  show "createBucket c env t = (Some (ErrWrapped (ErrTxnNotFound (c_uuid c))), t)"
    if "transactions t (c_uuid c) = None"
    using assms that by (rule createBucket_commit_missing)
  show "createBucket c env t
          = (if \<exists>k\<le>c_timeout c. txn_bmdVer x \<le> env_observed env k
             then (None, t\<lparr>transactions := (transactions t)(txn_uuid x := None)\<rparr>)
             else (Some (ErrWrapped ErrTxnBmdTimeout), t))"
    if "transactions t (c_uuid c) = Some x" for x
    using assms that by (rule createBucket_commit_waited)
  show "renameBucket c env availablePaths t s = (Some err, t, s)"
    if "Init (owner_bmd t) (c_bck c) = Inl err" for err
    using that by (rule renameBucket_commit_uninitialized)
  show "renameBucket c env availablePaths t s
          = (Some (ErrWrapped (ErrTxnNotFound (c_uuid c))), t, s)"
    if "Init (owner_bmd t) (c_bck c) = Inr bckFrom" "transactions t (c_uuid c) = None"
    for bckFrom
    using assms that by (rule renameBucket_commit_missing)
  show "renameBucket c env availablePaths t s = (Some PanicTypeAssertion, t, s)"
    if "Init (owner_bmd t) (c_bck c) = Inr bckFrom" "transactions t (c_uuid c) = Some x"
      "\<forall>txnFrom txnTo. txn_payload x \<noteq> TxnRenameBucket txnFrom txnTo"
    for bckFrom x
    using assms that by (rule renameBucket_commit_other_record)
  show "renameBucket c env availablePaths t s
      = (if \<not> (\<exists>k\<le>c_timeout c. txn_bmdVer x \<le> env_observed env k)
         then (Some (ErrWrapped ErrTxnBmdTimeout), t, s)
         else (case env_renewErr env of
                 Some err \<Rightarrow>
                   (Some err,
                    t\<lparr>transactions := (transactions t)(txn_uuid x := None),
                      effects := effects t @ [RenewBckFastRename txnFrom txnTo]\<rparr>, s)
               | None \<Rightarrow>
                   (case env_renameErr env of
                      Some err \<Rightarrow>
                        (Some err,
                         t\<lparr>transactions := (transactions t)(txn_uuid x := None),
                           effects := effects t @ [RenewBckFastRename txnFrom txnTo,
                                                   CallRenameBucketDirs txnFrom txnTo]\<rparr>, s)
                    | None \<Rightarrow>
                        if 0 < c_RMDVersion c
                        then (None,
                              t\<lparr>transactions := (transactions t)(txn_uuid x := None),
                                effects := effects t @ [RenewBckFastRename txnFrom txnTo,
                                                        CallRenameBucketDirs txnFrom txnTo,
                                                        GfnLocalActivate, GfnGlobalActivateTimed,
                                                        RunFastRen (c_RMDVersion c),
                                                        SleepMillis 200]\<rparr>, s)
                        else (Some PanicAssert,
                              t\<lparr>transactions := (transactions t)(txn_uuid x := None),
                                effects := effects t @ [RenewBckFastRename txnFrom txnTo,
                                                        CallRenameBucketDirs txnFrom txnTo]\<rparr>,
                              s))))"
    if "Init (owner_bmd t) (c_bck c) = Inr bckFrom" "transactions t (c_uuid c) = Some x"
      "txn_payload x = TxnRenameBucket txnFrom txnTo"
    for bckFrom x txnFrom txnTo
    using assms that by (rule renameBucket_commit_waited)
  show "\<exists>x. transactions t (c_uuid c) = Some x
          \<and> (\<exists>k\<le>c_timeout c. txn_bmdVer x \<le> env_observed env k)"
    if "effects (fst (snd (renameBucket c env availablePaths t s))) \<noteq> effects t"
    using assms that by (rule renameBucket_commit_effects)
qed

theorem commit_outcome_witness:
  "createBucket (ctxA ActCommit ValueOther) (envA 2 (\<lambda>k. 7)) (targetA Map.empty)
      = (Some (ErrWrapped (ErrTxnNotFound ''u1'')), targetA Map.empty)
   \<and> createBucket (ctxA ActCommit ValueOther) (envA 2 (\<lambda>k. 7)) (targetA [''u1'' \<mapsto> crtTxnA])
      = (None, targetA Map.empty)
   \<and> createBucket (ctxA ActCommit ValueOther) (envA 2 (\<lambda>k. 6)) (targetA [''u1'' \<mapsto> crtTxnA])
      = (Some (ErrWrapped ErrTxnBmdTimeout), targetA [''u1'' \<mapsto> crtTxnA])
   \<and> renameBucket (ctxA ActCommit ValueOther) (envA 2 (\<lambda>k. 7)) threeMpaths
        (targetNoBmd [''u1'' \<mapsto> renTxnA]) (osWith [] [])
      = (Some (ErrBucketDoesNotExist (aisBucket ''b1'')), targetNoBmd [''u1'' \<mapsto> renTxnA],
         osWith [] [])
   \<and> renameBucket (ctxA ActCommit ValueOther) (envA 2 (\<lambda>k. 7)) threeMpaths
        (targetA Map.empty) (osWith [] [])
      = (Some (ErrWrapped (ErrTxnNotFound ''u1'')), targetA Map.empty, osWith [] [])
   \<and> renameBucket (ctxA ActCommit ValueOther) (envA 2 (\<lambda>k. 7)) threeMpaths
        (targetA [''u1'' \<mapsto> crtTxnA]) (osWith [] [])
      = (Some PanicTypeAssertion, targetA [''u1'' \<mapsto> crtTxnA], osWith [] [])
   \<and> renameBucket (ctxA ActCommit ValueOther) (envA 2 (\<lambda>k. 6)) threeMpaths
        (targetA [''u1'' \<mapsto> renTxnA]) (osWith [] [])
      = (Some (ErrWrapped ErrTxnBmdTimeout), targetA [''u1'' \<mapsto> renTxnA], osWith [] [])
   \<and> renameBucket (ctxA ActCommit ValueOther) (envA 2 (\<lambda>k. 7)) threeMpaths
        (targetA [''u1'' \<mapsto> renTxnA]) (osWith [] [])
      = (None,
         (targetA Map.empty)
           \<lparr>effects := [RenewBckFastRename initA (aisBucket ''b2''),
                        CallRenameBucketDirs initA (aisBucket ''b2''),
                        GfnLocalActivate, GfnGlobalActivateTimed, RunFastRen 1,
                        SleepMillis 200]\<rparr>,
         osWith [] [])
   \<and> renameBucket (ctxA ActCommit ValueOther)
        ((envA 2 (\<lambda>k. 7))\<lparr>env_renewErr := Some (ErrBucketAlreadyExists (aisBucket ''b2''))\<rparr>)
        threeMpaths (targetA [''u1'' \<mapsto> renTxnA]) (osWith [] [])
      = (Some (ErrBucketAlreadyExists (aisBucket ''b2'')),
         (targetA Map.empty)\<lparr>effects := [RenewBckFastRename initA (aisBucket ''b2'')]\<rparr>,
         osWith [] [])
   \<and> renameBucket (ctxA ActCommit ValueOther)
        ((envA 2 (\<lambda>k. 7))\<lparr>env_renameErr := Some (OsError EIO)\<rparr>)
        threeMpaths (targetA [''u1'' \<mapsto> renTxnA]) (osWith [] [])
      = (Some (OsError EIO),
         (targetA Map.empty)
           \<lparr>effects := [RenewBckFastRename initA (aisBucket ''b2''),
                        CallRenameBucketDirs initA (aisBucket ''b2'')]\<rparr>,
         osWith [] [])
   \<and> renameBucket ((ctxA ActCommit ValueOther)\<lparr>c_RMDVersion := 0\<rparr>) (envA 2 (\<lambda>k. 7))
        threeMpaths (targetA [''u1'' \<mapsto> renTxnA]) (osWith [] [])
      = (Some PanicAssert,
         (targetA Map.empty)
           \<lparr>effects := [RenewBckFastRename initA (aisBucket ''b2''),
                        CallRenameBucketDirs initA (aisBucket ''b2'')]\<rparr>,
         osWith [] [])
   \<and> (\<exists>x. transactions (targetA [''u1'' \<mapsto> renTxnA]) ''u1'' = Some x
          \<and> (\<exists>k\<le>2. txn_bmdVer x \<le> env_observed (envA 2 (\<lambda>k. 7)) k))"
proof -
  let ?c = "ctxA ActCommit ValueOther"
  let ?cz = "(ctxA ActCommit ValueOther)\<lparr>c_RMDVersion := 0\<rparr>"
  let ?s = "osWith [] []"
  have p: "c_phase ?c = ActCommit" "c_phase ?cz = ActCommit"
    by (simp_all add: ctxA_def)
  have c: "c_uuid ?c = ''u1''" "c_timeout ?c = 2" "c_RMDVersion ?c = 1"
    "c_uuid ?cz = ''u1''" "c_timeout ?cz = 2" "c_RMDVersion ?cz = 0"
    by (simp_all add: ctxA_def)
  have r: "txn_payload renTxnA = TxnRenameBucket initA (aisBucket ''b2'')"
    "txn_bmdVer renTxnA = 7" "txn_uuid renTxnA = ''u1''"
    "txn_payload crtTxnA = TxnCreateBucket"
    "txn_bmdVer crtTxnA = 7" "txn_uuid crtTxnA = ''u1''"
    by (simp_all add: renTxnA_def crtTxnA_def newTxn_def ctxA_def)
  have t: "\<And>tb. transactions (targetA tb) = tb" "\<And>tb. effects (targetA tb) = []"
    "\<And>tb tb'. (targetA tb)\<lparr>transactions := tb'\<rparr> = targetA tb'"
    by (simp_all add: targetA_def)
  have i: "\<And>tb. Init (owner_bmd (targetA tb)) (c_bck ?c) = Inr initA"
    "\<And>tb. Init (owner_bmd (targetA tb)) (c_bck ?cz) = Inr initA"
    "\<And>tb. Init (owner_bmd (targetNoBmd tb)) (c_bck ?c)
        = Inl (ErrBucketDoesNotExist (aisBucket ''b1''))"
    by (simp_all add: Init_def targetA_def targetNoBmd_def ctxA_def initA_def)
  have o: "\<And>n f. env_observed (envA n f) = f" "\<And>n f. env_renewErr (envA n f) = None"
    "\<And>n f. env_renameErr (envA n f) = None"
    by (simp_all add: envA_def)
  have k: "\<And>n::nat. \<exists>k. k \<le> n"
    by blast
  have m: "[''u1'' \<mapsto> crtTxnA](''u1'' := None) = Map.empty"
    "[''u1'' \<mapsto> renTxnA](''u1'' := None) = Map.empty"
    by simp_all
  note facts = c r t i o k m
  have w1: "createBucket ?c (envA 2 (\<lambda>k. 7)) (targetA Map.empty)
      = (Some (ErrWrapped (ErrTxnNotFound ''u1'')), targetA Map.empty)"
    using commit_outcome [OF p(1), where t = "targetA Map.empty" and env = "envA 2 (\<lambda>k. 7)"]
    by (simp add: facts)
  have w2: "createBucket ?c (envA 2 (\<lambda>k. 7)) (targetA [''u1'' \<mapsto> crtTxnA])
      = (None, targetA Map.empty)"
    using commit_outcome [OF p(1), where t = "targetA [''u1'' \<mapsto> crtTxnA]"
        and env = "envA 2 (\<lambda>k. 7)"]
    by (simp add: facts)
  have w3: "createBucket ?c (envA 2 (\<lambda>k. 6)) (targetA [''u1'' \<mapsto> crtTxnA])
      = (Some (ErrWrapped ErrTxnBmdTimeout), targetA [''u1'' \<mapsto> crtTxnA])"
    using commit_outcome [OF p(1), where t = "targetA [''u1'' \<mapsto> crtTxnA]"
        and env = "envA 2 (\<lambda>k. 6)"]
    by (simp add: facts)
  have w4: "renameBucket ?c (envA 2 (\<lambda>k. 7)) threeMpaths (targetNoBmd [''u1'' \<mapsto> renTxnA]) ?s
      = (Some (ErrBucketDoesNotExist (aisBucket ''b1'')), targetNoBmd [''u1'' \<mapsto> renTxnA], ?s)"
    using commit_outcome [OF p(1), where t = "targetNoBmd [''u1'' \<mapsto> renTxnA]"
        and env = "envA 2 (\<lambda>k. 7)" and availablePaths = threeMpaths and s = ?s]
    by (simp add: facts)
  have w5: "renameBucket ?c (envA 2 (\<lambda>k. 7)) threeMpaths (targetA Map.empty) ?s
      = (Some (ErrWrapped (ErrTxnNotFound ''u1'')), targetA Map.empty, ?s)"
    using commit_outcome [OF p(1), where t = "targetA Map.empty"
        and env = "envA 2 (\<lambda>k. 7)" and availablePaths = threeMpaths and s = ?s]
    by (simp add: facts)
  have w6: "renameBucket ?c (envA 2 (\<lambda>k. 7)) threeMpaths (targetA [''u1'' \<mapsto> crtTxnA]) ?s
      = (Some PanicTypeAssertion, targetA [''u1'' \<mapsto> crtTxnA], ?s)"
    using commit_outcome [OF p(1), where t = "targetA [''u1'' \<mapsto> crtTxnA]"
        and env = "envA 2 (\<lambda>k. 7)" and availablePaths = threeMpaths and s = ?s]
    by (simp add: facts)
  have w7: "renameBucket ?c (envA 2 (\<lambda>k. 6)) threeMpaths (targetA [''u1'' \<mapsto> renTxnA]) ?s
      = (Some (ErrWrapped ErrTxnBmdTimeout), targetA [''u1'' \<mapsto> renTxnA], ?s)"
    using commit_outcome [OF p(1), where t = "targetA [''u1'' \<mapsto> renTxnA]"
        and env = "envA 2 (\<lambda>k. 6)" and availablePaths = threeMpaths and s = ?s]
    by (simp add: facts)
  have w8: "renameBucket ?c (envA 2 (\<lambda>k. 7)) threeMpaths (targetA [''u1'' \<mapsto> renTxnA]) ?s
      = (None,
         (targetA Map.empty)
           \<lparr>effects := [RenewBckFastRename initA (aisBucket ''b2''),
                        CallRenameBucketDirs initA (aisBucket ''b2''),
                        GfnLocalActivate, GfnGlobalActivateTimed, RunFastRen 1,
                        SleepMillis 200]\<rparr>, ?s)"
    using commit_outcome [OF p(1), where t = "targetA [''u1'' \<mapsto> renTxnA]"
        and env = "envA 2 (\<lambda>k. 7)" and availablePaths = threeMpaths and s = ?s]
    by (simp add: facts)
  have w9: "renameBucket ?c
        ((envA 2 (\<lambda>k. 7))\<lparr>env_renewErr := Some (ErrBucketAlreadyExists (aisBucket ''b2''))\<rparr>)
        threeMpaths (targetA [''u1'' \<mapsto> renTxnA]) ?s
      = (Some (ErrBucketAlreadyExists (aisBucket ''b2'')),
         (targetA Map.empty)\<lparr>effects := [RenewBckFastRename initA (aisBucket ''b2'')]\<rparr>, ?s)"
    using commit_outcome [OF p(1), where t = "targetA [''u1'' \<mapsto> renTxnA]"
        and env = "(envA 2 (\<lambda>k. 7))
                     \<lparr>env_renewErr := Some (ErrBucketAlreadyExists (aisBucket ''b2''))\<rparr>"
        and availablePaths = threeMpaths and s = ?s]
    by (simp add: facts)
  have w10: "renameBucket ?c ((envA 2 (\<lambda>k. 7))\<lparr>env_renameErr := Some (OsError EIO)\<rparr>)
        threeMpaths (targetA [''u1'' \<mapsto> renTxnA]) ?s
      = (Some (OsError EIO),
         (targetA Map.empty)
           \<lparr>effects := [RenewBckFastRename initA (aisBucket ''b2''),
                        CallRenameBucketDirs initA (aisBucket ''b2'')]\<rparr>, ?s)"
    using commit_outcome [OF p(1), where t = "targetA [''u1'' \<mapsto> renTxnA]"
        and env = "(envA 2 (\<lambda>k. 7))\<lparr>env_renameErr := Some (OsError EIO)\<rparr>"
        and availablePaths = threeMpaths and s = ?s]
    by (simp add: facts)
  have w11: "renameBucket ?cz (envA 2 (\<lambda>k. 7)) threeMpaths (targetA [''u1'' \<mapsto> renTxnA]) ?s
      = (Some PanicAssert,
         (targetA Map.empty)
           \<lparr>effects := [RenewBckFastRename initA (aisBucket ''b2''),
                        CallRenameBucketDirs initA (aisBucket ''b2'')]\<rparr>, ?s)"
    using commit_outcome [OF p(2), where t = "targetA [''u1'' \<mapsto> renTxnA]"
        and env = "envA 2 (\<lambda>k. 7)" and availablePaths = threeMpaths and s = ?s]
    by (simp add: facts)
  have w12: "\<exists>x. transactions (targetA [''u1'' \<mapsto> renTxnA]) ''u1'' = Some x
          \<and> (\<exists>k\<le>2. txn_bmdVer x \<le> env_observed (envA 2 (\<lambda>k. 7)) k)"
    using commit_outcome [OF p(1), where t = "targetA [''u1'' \<mapsto> renTxnA]"
        and env = "envA 2 (\<lambda>k. 7)" and availablePaths = threeMpaths and s = ?s]
    by (simp add: w8 c t)
  from w1 w2 w3 w4 w5 w6 w7 w8 w9 w10 w11 w12 show ?thesis
    by (intro conjI)
qed

lemma validateNprops_copies:
  "mirror_Enabled (Mirror nprops) \<Longrightarrow> int (env_numAvail env) < mirror_Copies (Mirror nprops) \<Longrightarrow>
     validateNprops bck (ValueProps nprops) env
       = Inl (ErrInsufficientMountpaths (env_numAvail env) bck (mirror_Copies (Mirror nprops)))"
  by (simp add: validateNprops_def)

lemma validateEC_over:
  "ec_Enabled (EC nprops) \<Longrightarrow> bck_Props bck = Some props \<Longrightarrow> \<not> ec_Enabled (EC props) \<Longrightarrow>
   Err (env_capInfo env) = Some e \<Longrightarrow> validateEC bck nprops env = Inl e"
  by (simp add: validateEC_def)

lemma validateNprops_ec:
  assumes "ec_Enabled (EC nprops)" "bck_Props bck = Some props" "\<not> ec_Enabled (EC props)"
    "Err (env_capInfo env) = Some e"
  shows "\<exists>err. validateNprops bck (ValueProps nprops) env = Inl err"
  using assms validateEC_over [OF assms]
  by (simp add: validateNprops_def)

lemma setBucketProps_begin_invalid:
  "c_phase c = ActBegin \<Longrightarrow> Init (owner_bmd t) (c_bck c) = Inr bck \<Longrightarrow>
   validateNprops bck (c_msgValue c) env = Inl err \<Longrightarrow>
     setBucketProps c env t = (Some err, t)"
  by (simp add: setBucketProps_def)

lemma Init_props: "Init bmd b = Inr bck \<Longrightarrow> \<exists>props. bck_Props bck = Some props"
  by (auto simp: Init_def split: option.splits)

lemma setBucketProps_begin_valid:
  assumes "c_phase c = ActBegin" "Init (owner_bmd t) (c_bck c) = Inr bck"
    "validateNprops bck (c_msgValue c) env = Inr nprops" "bck_Props bck = Some props"
  shows "fst (setBucketProps c env t) = None
     \<and> transactions (snd (setBucketProps c env t)) (c_uuid c)
         = (case transactions t (c_uuid c) of
              None \<Rightarrow> Some (newTxn c bck (TxnSetBucketProps props nprops))
            | Some x \<Rightarrow> Some x)
     \<and> effects (snd (setBucketProps c env t)) = effects t
     \<and> owner_bmd (snd (setBucketProps c env t)) = owner_bmd t"
  using assms
  by (simp add: setBucketProps_def txnBegin_def newTxn_def split: option.splits)

text \<open>
  C7. For a begin of \<^verbatim>\<open>setBucketProps\<close> on an initialized bucket: when the proposed
  properties enable mirroring with more copies than there are available mountpaths, or
  newly enable EC while the capacity status carries an error, the request fails and the
  target is unchanged (no record, no call to a collaborator); the same holds for every
  validation error. When validation succeeds the begin returns no error, the table has a
  record under the UUID (for a UUID that was free, the typed record with the old and the
  new properties), and the calls to the collaborators and the BMD are as before. The
  function has no access to the filesystem.
\<close>

theorem setBucketProps_begin:
  assumes "c_phase c = ActBegin"
    and "Init (owner_bmd t) (c_bck c) = Inr bck"
    and "c_msgValue c = ValueProps nprops"
    and "bck_Props bck = Some props"
  shows "(mirror_Enabled (Mirror nprops) \<and> int (env_numAvail env) < mirror_Copies (Mirror nprops)
            \<or> ec_Enabled (EC nprops) \<and> \<not> ec_Enabled (EC props) \<and> Err (env_capInfo env) \<noteq> None
          \<longrightarrow> (\<exists>err. setBucketProps c env t = (Some err, t)))
     \<and> (\<forall>err. validateNprops bck (c_msgValue c) env = Inl err \<longrightarrow>
            setBucketProps c env t = (Some err, t))
     \<and> (\<forall>np. validateNprops bck (c_msgValue c) env = Inr np \<longrightarrow>
            fst (setBucketProps c env t) = None
            \<and> transactions (snd (setBucketProps c env t)) (c_uuid c)
                = (case transactions t (c_uuid c) of
                     None \<Rightarrow> Some (newTxn c bck (TxnSetBucketProps props np))
                   | Some x \<Rightarrow> Some x)
            \<and> effects (snd (setBucketProps c env t)) = effects t
            \<and> owner_bmd (snd (setBucketProps c env t)) = owner_bmd t)"
proof -
  have inv: "\<And>err. validateNprops bck (c_msgValue c) env = Inl err \<Longrightarrow>
               setBucketProps c env t = (Some err, t)"
    using assms(1,2) by (rule setBucketProps_begin_invalid)
  have A: "mirror_Enabled (Mirror nprops) \<and> int (env_numAvail env) < mirror_Copies (Mirror nprops)
            \<or> ec_Enabled (EC nprops) \<and> \<not> ec_Enabled (EC props) \<and> Err (env_capInfo env) \<noteq> None
          \<longrightarrow> (\<exists>err. setBucketProps c env t = (Some err, t))"
  proof
    assume "mirror_Enabled (Mirror nprops) \<and> int (env_numAvail env) < mirror_Copies (Mirror nprops)
            \<or> ec_Enabled (EC nprops) \<and> \<not> ec_Enabled (EC props) \<and> Err (env_capInfo env) \<noteq> None"
    then have "\<exists>err. validateNprops bck (ValueProps nprops) env = Inl err"
    proof
      assume "mirror_Enabled (Mirror nprops) \<and> int (env_numAvail env) < mirror_Copies (Mirror nprops)"
      then show ?thesis by (simp add: validateNprops_copies)
    next
      assume "ec_Enabled (EC nprops) \<and> \<not> ec_Enabled (EC props) \<and> Err (env_capInfo env) \<noteq> None"
      with assms(4) show ?thesis by (auto intro: validateNprops_ec)
    qed
    with inv assms(3) show "\<exists>err. setBucketProps c env t = (Some err, t)" by auto
  qed
  have B: "\<forall>err. validateNprops bck (c_msgValue c) env = Inl err \<longrightarrow>
            setBucketProps c env t = (Some err, t)"
    using inv by blast
  have C: "\<forall>np. validateNprops bck (c_msgValue c) env = Inr np \<longrightarrow>
            fst (setBucketProps c env t) = None
            \<and> transactions (snd (setBucketProps c env t)) (c_uuid c)
                = (case transactions t (c_uuid c) of
                     None \<Rightarrow> Some (newTxn c bck (TxnSetBucketProps props np))
                   | Some x \<Rightarrow> Some x)
            \<and> effects (snd (setBucketProps c env t)) = effects t
            \<and> owner_bmd (snd (setBucketProps c env t)) = owner_bmd t"
    using setBucketProps_begin_valid [OF assms(1,2) _ assms(4)] by blast
  from A B C show ?thesis by (intro conjI)
qed

theorem setBucketProps_begin_witness:
  "setBucketProps (ctxA ActBegin (ValueProps (propsA True 3 False))) (envA 2 (\<lambda>k. 7))
      (targetA Map.empty)
     = (Some (ErrInsufficientMountpaths 2 initA 3), targetA Map.empty)
   \<and> fst (setBucketProps (ctxA ActBegin (ValueProps (propsA True 2 False))) (envA 2 (\<lambda>k. 7))
      (targetA Map.empty)) = None
   \<and> transactions (snd (setBucketProps (ctxA ActBegin (ValueProps (propsA True 2 False)))
        (envA 2 (\<lambda>k. 7)) (targetA Map.empty))) ''u1''
      = Some (newTxn (ctxA ActBegin (ValueProps (propsA True 2 False))) initA
                (TxnSetBucketProps (propsA False 1 False) (propsA True 2 False)))"
proof -
  have p: "\<And>v. c_phase (ctxA ActBegin v) = ActBegin"
    and u: "\<And>v. c_uuid (ctxA ActBegin v) = ''u1''"
    and m: "\<And>v. c_msgValue (ctxA ActBegin v) = v"
    by (simp_all add: ctxA_def)
  have b: "bck_Props initA = Some (propsA False 1 False)"
    by (simp add: initA_def)
  have v3: "validateNprops initA (ValueProps (propsA True 3 False)) (envA 2 (\<lambda>k. 7))
      = Inl (ErrInsufficientMountpaths 2 initA 3)"
    by (simp add: validateNprops_def propsA_def envA_def)
  have v2: "validateNprops initA (ValueProps (propsA True 2 False)) (envA 2 (\<lambda>k. 7))
      = Inr (propsA True 2 False)"
    by (simp add: validateNprops_def validateEC_def propsA_def envA_def initA_def
        zeroCapStatus_def)
  have t0: "transactions (targetA Map.empty) ''u1'' = None"
    by (simp add: targetA_def)
  show ?thesis
    using setBucketProps_begin [where c = "ctxA ActBegin (ValueProps (propsA True 3 False))"
        and t = "targetA Map.empty" and bck = initA and nprops = "propsA True 3 False"
        and props = "propsA False 1 False" and env = "envA 2 (\<lambda>k. 7)"]
      setBucketProps_begin [where c = "ctxA ActBegin (ValueProps (propsA True 2 False))"
        and t = "targetA Map.empty" and bck = initA and nprops = "propsA True 2 False"
        and props = "propsA False 1 False" and env = "envA 2 (\<lambda>k. 7)"]
    by (simp add: p Init_targetA b m u v3 v2 t0)
qed

lemma remirror_iff:
  "remirror bprops nprops \<longleftrightarrow>
     (\<not> mirror_Enabled (Mirror bprops) \<and> mirror_Enabled (Mirror nprops))
     \<or> (mirror_Enabled (Mirror bprops) \<and> mirror_Enabled (Mirror nprops)
        \<and> mirror_Copies (Mirror bprops) \<noteq> mirror_Copies (Mirror nprops))"
  by (auto simp: remirror_def)

text \<open>
  C10. At the commit of \<^verbatim>\<open>setBucketProps\<close>, with the record found, the calls made are
  the abort of \<^verbatim>\<open>PutCopies\<close> followed by the renewal of \<^verbatim>\<open>MakeNCopies\<close> with the new
  count exactly when the wait succeeded and mirroring goes from disabled to enabled or
  stays enabled with another copy count; otherwise no call is made. In particular,
  going from enabled to disabled makes neither call.
\<close>

theorem setBucketProps_commit_remirror:
  assumes "c_phase c = ActCommit"
    and "Init (owner_bmd t) (c_bck c) = Inr bck"
    and "transactions t (c_uuid c) = Some x"
    and "txn_payload x = TxnSetBucketProps bprops nprops"
  shows "effects (snd (setBucketProps c env t))
           = effects t
             @ (if (\<exists>k\<le>c_timeout c. txn_bmdVer x \<le> env_observed env k)
                   \<and> (\<not> mirror_Enabled (Mirror bprops) \<and> mirror_Enabled (Mirror nprops)
                      \<or> mirror_Enabled (Mirror bprops) \<and> mirror_Enabled (Mirror nprops)
                        \<and> mirror_Copies (Mirror bprops) \<noteq> mirror_Copies (Mirror nprops))
                then [DoAbortPutCopies bck,
                      RenewBckMakeNCopies bck (mirror_Copies (Mirror nprops))]
                else [])
     \<and> (mirror_Enabled (Mirror bprops) \<and> \<not> mirror_Enabled (Mirror nprops) \<longrightarrow>
          effects (snd (setBucketProps c env t)) = effects t)"
  using assms
  by (auto simp: setBucketProps_def txnFind_def txnWait_cases remirror_iff)

theorem setBucketProps_commit_remirror_witness:
  "effects (snd (setBucketProps (ctxA ActCommit ValueOther) (envA 2 (\<lambda>k. 7))
       (targetA [''u1'' \<mapsto> propsTxnA (propsA True 2 False) (propsA True 3 False)])))
     = [DoAbortPutCopies initA, RenewBckMakeNCopies initA 3]
   \<and> effects (snd (setBucketProps (ctxA ActCommit ValueOther) (envA 2 (\<lambda>k. 7))
       (targetA [''u1'' \<mapsto> propsTxnA (propsA True 2 False) (propsA False 2 False)])))
     = []"
proof -
  have p: "c_phase (ctxA ActCommit ValueOther) = ActCommit"
    and u: "c_uuid (ctxA ActCommit ValueOther) = ''u1''"
    by (simp_all add: ctxA_def)
  have t1: "\<And>x. transactions (targetA [''u1'' \<mapsto> x]) (c_uuid (ctxA ActCommit ValueOther)) = Some x"
    by (simp add: targetA_def u)
  have y: "\<And>b n. txn_payload (propsTxnA b n) = TxnSetBucketProps b n"
    "\<And>b n. txn_bmdVer (propsTxnA b n) = 7"
    by (simp_all add: propsTxnA_def newTxn_def ctxA_def)
  have e: "\<And>tb. effects (targetA tb) = []"
    by (simp add: targetA_def)
  have o: "env_observed (envA 2 (\<lambda>k. 7)) = (\<lambda>k. 7)"
    by (simp add: envA_def)
  have f: "\<And>m n e. mirror_Enabled (Mirror (propsA m n e)) = m"
    "\<And>m n e. mirror_Copies (Mirror (propsA m n e)) = n"
    by (simp_all add: propsA_def)
  have k: "\<And>n::nat. \<exists>k. k \<le> n"
    by blast
  show ?thesis
    using setBucketProps_commit_remirror [where c = "ctxA ActCommit ValueOther"
        and t = "targetA [''u1'' \<mapsto> propsTxnA (propsA True 2 False) (propsA True 3 False)]"
        and bck = initA and x = "propsTxnA (propsA True 2 False) (propsA True 3 False)"
        and bprops = "propsA True 2 False" and nprops = "propsA True 3 False"
        and env = "envA 2 (\<lambda>k. 7)"]
      setBucketProps_commit_remirror [where c = "ctxA ActCommit ValueOther"
        and t = "targetA [''u1'' \<mapsto> propsTxnA (propsA True 2 False) (propsA False 2 False)]"
        and bck = initA and x = "propsTxnA (propsA True 2 False) (propsA False 2 False)"
        and bprops = "propsA True 2 False" and nprops = "propsA False 2 False"
        and env = "envA 2 (\<lambda>k. 7)"]
    by (simp add: p Init_targetA t1 y e o f k)
qed

section \<open>Registry snapshots: properties\<close>

lemma snapInv_start: "snapInv mfs mutations (start mfs)"
  by (simp add: snapInv_def start_def epochs_def Get_def)

lemma half_Suc_even: "even n \<Longrightarrow> (Suc n + 1) div 2 = Suc (n div 2) \<and> Suc n div 2 = n div 2"
  by (auto elim: evenE)

lemma half_Suc_odd: "odd n \<Longrightarrow> (Suc n + 1) div 2 = (n + 1) div 2 \<and> Suc n div 2 = Suc (n div 2)
    \<and> (n + 1) div 2 = Suc (n div 2)"
  by (auto elim: oddE)

lemma snapInv_writer:
  assumes "snapInv mfs mutations r"
  shows "snapInv mfs mutations (writerStep mutations r)"
proof (cases "stores r div 2 < length mutations")
  case False
  with assms show ?thesis by (simp add: writerStep_def)
next
  case True
  then have le: "Suc (stores r) \<le> 2 * length mutations" by arith
  show ?thesis
  proof (cases "even (stores r)")
    case ev: True
    from half_Suc_even [OF ev] assms True le ev show ?thesis
      by (auto simp: snapInv_def writerStep_def epochs_def deref_def split: reading.splits
          intro: le_SucI)
  next
    case od: False
    from half_Suc_odd [OF od] assms True le od show ?thesis
      by (auto simp: snapInv_def writerStep_def epochs_def deref_def split: reading.splits)
  qed
qed

lemma snapInv_reader:
  assumes "snapInv mfs mutations r"
  shows "snapInv mfs mutations (readerStep r)"
proof (cases "reader r")
  case Idle
  with assms show ?thesis
    by (auto simp: snapInv_def readerStep_def)
next
  case (LoadedAvailable p)
  with assms obtain i where i: "i \<le> (stores r + 1) div 2"
      "deref p = fst (epochs mfs mutations ! i)"
    and s: "stores r \<le> 2 * length mutations"
    and d: "deref (disabled (mem r)) = snd (epochs mfs mutations ! (stores r div 2))"
    by (auto simp: snapInv_def)
  from i(1) s have "i \<le> length mutations" "stores r div 2 \<le> length mutations"
    "i \<le> stores r div 2 + 1"
    by arith+
  with i(2) d assms LoadedAvailable show ?thesis
    by (auto simp: snapInv_def readerStep_def)
next
  case (Returned a d)
  with assms show ?thesis
    by (simp add: readerStep_def)
qed

lemma snapInv_run:
  "snapInv mfs mutations r \<Longrightarrow> snapInv mfs mutations (run mutations schedule r)"
proof (induction schedule arbitrary: r)
  case Nil
  then show ?case by simp
next
  case (Cons th schedule)
  then show ?case
    by (cases th) (auto intro: snapInv_writer snapInv_reader)
qed

text \<open>
  Scheduled without interruption, the two steps of the writer are \<^verbatim>\<open>updatePaths\<close> and
  the two steps of the reader are \<^verbatim>\<open>Get\<close>.
\<close>

lemma writer_alone:
  "mem (run [(a, d)] [Writer, Writer] (start mfs)) = updatePaths a d mfs"
  by (simp add: writerStep_def start_def updatePaths_def)

lemma reader_alone:
  "reader (run mutations [Reader, Reader] (start mfs)) = Returned (fst (Get mfs)) (snd (Get mfs))"
  by (simp add: readerStep_def start_def Get_def)

lemma torn_step1: "writerStep [disableM2] (start mfsBoth)
   = \<lparr>mem = mfsBoth\<lparr>available := Some (fst disableM2)\<rparr>, stores = Suc 0, reader = Idle\<rparr>"
  by (simp add: writerStep_def start_def)

lemma torn_step2: "readerStep \<lparr>mem = mfsBoth\<lparr>available := Some (fst disableM2)\<rparr>, stores = Suc 0, reader = Idle\<rparr>
   = \<lparr>mem = mfsBoth\<lparr>available := Some (fst disableM2)\<rparr>, stores = Suc 0,
      reader = LoadedAvailable (Some (fst disableM2))\<rparr>"
  by (simp add: readerStep_def)

lemma torn_step3: "readerStep \<lparr>mem = mfsBoth\<lparr>available := Some (fst disableM2)\<rparr>, stores = Suc 0,
      reader = LoadedAvailable (Some (fst disableM2))\<rparr>
   = \<lparr>mem = mfsBoth\<lparr>available := Some (fst disableM2)\<rparr>, stores = Suc 0,
      reader = Returned (fst disableM2) []\<rparr>"
  by (simp add: readerStep_def deref_def mfsBoth_def)

lemma torn_step4: "reader (writerStep [disableM2] \<lparr>mem = mfsBoth\<lparr>available := Some (fst disableM2)\<rparr>, stores = Suc 0,
      reader = Returned (fst disableM2) []\<rparr>) = Returned (fst disableM2) []"
  by (simp add: writerStep_def)

lemma torn_read:
  "reader (run [disableM2] [Writer, Reader, Reader, Writer] (start mfsBoth))
     = Returned [(''/m1'', mpathAt ''/m1'')] []"
  by (simp add: torn_step1 torn_step2 torn_step3 torn_step4) (simp add: disableM2_def)

text \<open>
  C8, as the claim states it, fails. While \<^verbatim>\<open>/m2\<close> is being disabled, a reader whose two
  loads fall between the two stores of \<^verbatim>\<open>updatePaths\<close> gets the new available map
  (without \<^verbatim>\<open>/m2\<close>) together with the old disabled map (without \<^verbatim>\<open>/m2\<close>): a pair that
  is the result of no mutation.
\<close>

theorem Get_torn_pair_counterexample:
  "reader (run [disableM2] [Writer, Reader, Reader, Writer] (start mfsBoth))
     = Returned [(''/m1'', mpathAt ''/m1'')] []
   \<and> ([(''/m1'', mpathAt ''/m1'')], []) \<notin> set (epochs mfsBoth [disableM2])"
proof -
  have "([(''/m1'', mpathAt ''/m1'')], []) \<notin> set (epochs mfsBoth [disableM2])"
    by (simp add: epochs_def Get_def deref_def mfsBoth_def disableM2_def twoMpaths_def)
  with torn_read show ?thesis by (rule conjI)
qed

text \<open>
  C8, amended. For every sequence of mutations and every schedule of their stores with
  the loads of a reader, the pair that \<^verbatim>\<open>Get\<close> returns consists of an available map and
  a disabled map that are each the map of one epoch (the start or a mutation), and the
  epoch of the disabled map is at most one behind that of the available map; the two
  epochs need not be the same.
\<close>

theorem Get_sees_adjacent_epochs:
  assumes "reader (run mutations schedule (start mfs)) = Returned a d"
  shows "\<exists>i j. i \<le> length mutations \<and> j \<le> length mutations \<and> i \<le> j + 1
           \<and> a = fst (epochs mfs mutations ! i) \<and> d = snd (epochs mfs mutations ! j)"
  using snapInv_run [OF snapInv_start, of mfs mutations schedule] assms
  by (simp add: snapInv_def)


theorem Get_sees_adjacent_epochs_witness:
  "\<exists>i j. i \<le> length [disableM2] \<and> j \<le> length [disableM2] \<and> i \<le> j + 1
      \<and> [(''/m1'', mpathAt ''/m1'')] = fst (epochs mfsBoth [disableM2] ! i)
      \<and> [] = snd (epochs mfsBoth [disableM2] ! j)"
  using Get_sees_adjacent_epochs [OF torn_read] .

section \<open>Renaming bucket directories: properties\<close>

lemma coherent_makeDel:
  assumes "coherent bidFrom bckFrom bckTo mi"
  shows "fst (makeDelPathBck mi bckFrom bidFrom) = bucketDir (mi_Path mi) bckFrom
     \<and> coherent bidFrom bckFrom bckTo (snd (makeDelPathBck mi bckFrom bidFrom))
     \<and> mi_Path (snd (makeDelPathBck mi bckFrom bidFrom)) = mi_Path mi"
proof (cases "bpc mi bidFrom")
  case (Some d)
  with assms show ?thesis
    by (auto simp: coherent_def makeDelPathBck_def)
next
  case None
  show ?thesis
  proof (cases "bck_Props bckFrom")
    case n: None
    with None assms show ?thesis
      by (simp add: coherent_def makeDelPathBck_def MakePathBck_def makePathBuf_no_ct)
  next
    case (Some p)
    with assms have "BID p = bidFrom" by (simp add: coherent_def)
    with None Some assms show ?thesis
      by (auto simp: coherent_def makeDelPathBck_def MakePathBck_def makePathBuf_no_ct Let_def)
  qed
qed

lemma coherent_MakeTo:
  assumes "coherent bidFrom bckFrom bckTo mi"
  shows "fst (MakePathBck mi bckTo) = bucketDir (mi_Path mi) bckTo
     \<and> coherent bidFrom bckFrom bckTo (snd (MakePathBck mi bckTo))
     \<and> mi_Path (snd (MakePathBck mi bckTo)) = mi_Path mi"
proof (cases "bck_Props bckTo")
  case None
  with assms show ?thesis
    by (simp add: MakePathBck_def makePathBuf_no_ct)
next
  case (Some p)
  with assms have ne: "BID p \<noteq> bidFrom"
    and c: "\<And>d. bpc mi (BID p) = Some d \<Longrightarrow> d = bucketDir (mi_Path mi) bckTo"
    by (auto simp: coherent_def)
  show ?thesis
  proof (cases "bpc mi (BID p)")
    case None
    with Some ne assms show ?thesis
      by (auto simp: coherent_def MakePathBck_def makePathBuf_no_ct Let_def)
  next
    case (Some d)
    with \<open>bck_Props bckTo = Some p\<close> c [OF Some] assms show ?thesis
      by (simp add: MakePathBck_def)
  qed
qed

lemma coherent_MakeFrom:
  assumes "coherent bidFrom bckFrom bckTo mi"
  shows "fst (MakePathBck mi bckFrom) = bucketDir (mi_Path mi) bckFrom
     \<and> coherent bidFrom bckFrom bckTo (snd (MakePathBck mi bckFrom))
     \<and> mi_Path (snd (MakePathBck mi bckFrom)) = mi_Path mi"
proof (cases "bck_Props bckFrom")
  case None
  with assms show ?thesis
    by (simp add: MakePathBck_def makePathBuf_no_ct)
next
  case (Some p)
  with assms have eq: "BID p = bidFrom"
    and c: "\<And>d. bpc mi bidFrom = Some d \<Longrightarrow> d = bucketDir (mi_Path mi) bckFrom"
    by (auto simp: coherent_def)
  show ?thesis
  proof (cases "bpc mi bidFrom")
    case None
    with Some eq assms show ?thesis
      by (auto simp: coherent_def MakePathBck_def makePathBuf_no_ct Let_def)
  next
    case d: (Some d)
    with Some eq c [OF d] assms show ?thesis
      by (simp add: MakePathBck_def)
  qed
qed

lemma renameLoop_forward:
  assumes "allCoherent bidFrom bckFrom bckTo mpi"
    and "renameLoop mpi bidFrom bckFrom bckTo s = (err, renamed, rest, s1)"
  shows "forwardRenames (dirPairs bckFrom bckTo mpi) s = (err, length renamed, s1)
     \<and> dirPairs bckFrom bckTo (renamed @ rest) = dirPairs bckFrom bckTo mpi
     \<and> allCoherent bidFrom bckFrom bckTo renamed
     \<and> (err = None \<longrightarrow> rest = [])"
  using assms
proof (induction mpi arbitrary: s err renamed rest s1)
  case Nil
  then show ?case by (simp add: dirPairs_def allCoherent_def)
next
  case (Cons pm mpi)
  obtain path mi where pm: "pm = (path, mi)" by (cases pm)
  from Cons.prems(1) pm have co: "coherent bidFrom bckFrom bckTo mi"
    and rest_co: "allCoherent bidFrom bckFrom bckTo mpi"
    by (simp_all add: allCoherent_def)
  obtain fromPath mi1 where md: "makeDelPathBck mi bckFrom bidFrom = (fromPath, mi1)"
    by (cases "makeDelPathBck mi bckFrom bidFrom")
  with coherent_makeDel [OF co] have fp: "fromPath = bucketDir (mi_Path mi) bckFrom"
    and co1: "coherent bidFrom bckFrom bckTo mi1" and p1: "mi_Path mi1 = mi_Path mi"
    by simp_all
  obtain toPath mi2 where mt: "MakePathBck mi1 bckTo = (toPath, mi2)"
    by (cases "MakePathBck mi1 bckTo")
  with coherent_MakeTo [OF co1] p1 have tp: "toPath = bucketDir (mi_Path mi) bckTo"
    and co2: "coherent bidFrom bckFrom bckTo mi2" and p2: "mi_Path mi2 = mi_Path mi"
    by simp_all
  obtain r0 sr where ra: "RemoveAll toPath s = (r0, sr)" by (cases "RemoveAll toPath s")
  obtain r sn where rn: "Rename fromPath toPath sr = (r, sn)" by (cases "Rename fromPath toPath sr")
  show ?case
  proof (cases r)
    case (Some e)
    with Cons.prems(2) pm md mt ra rn fp tp p2 co2 show ?thesis
      by (auto simp: dirPairs_def allCoherent_def)
  next
    case None
    obtain e2 ren2 rest2 s3 where rec: "renameLoop mpi bidFrom bckFrom bckTo sn = (e2, ren2, rest2, s3)"
      by (cases "renameLoop mpi bidFrom bckFrom bckTo sn") auto
    from Cons.IH [OF rest_co rec] Cons.prems(2) pm md mt ra rn None rec fp tp p2 co2
    show ?thesis
      by (auto simp: dirPairs_def allCoherent_def)
  qed
qed

lemma rollbackLoop_backward:
  assumes "allCoherent bidFrom bckFrom bckTo renamed"
  shows "snd (rollbackLoop renamed bckFrom bckTo s)
           = backwardRenames (dirPairs bckFrom bckTo renamed) s
     \<and> dirPairs bckFrom bckTo (fst (rollbackLoop renamed bckFrom bckTo s))
           = dirPairs bckFrom bckTo renamed"
  using assms
proof (induction renamed arbitrary: s)
  case Nil
  then show ?case by (simp add: dirPairs_def)
next
  case (Cons pm renamed)
  obtain path mi where pm: "pm = (path, mi)" by (cases pm)
  from Cons.prems pm have co: "coherent bidFrom bckFrom bckTo mi"
    and rest_co: "allCoherent bidFrom bckFrom bckTo renamed"
    by (simp_all add: allCoherent_def)
  obtain fromPath mi1 where mt: "MakePathBck mi bckTo = (fromPath, mi1)"
    by (cases "MakePathBck mi bckTo")
  with coherent_MakeTo [OF co] have fp: "fromPath = bucketDir (mi_Path mi) bckTo"
    and co1: "coherent bidFrom bckFrom bckTo mi1" and p1: "mi_Path mi1 = mi_Path mi"
    by simp_all
  obtain toPath mi2 where mf: "MakePathBck mi1 bckFrom = (toPath, mi2)"
    by (cases "MakePathBck mi1 bckFrom")
  with coherent_MakeFrom [OF co1] p1 have tp: "toPath = bucketDir (mi_Path mi) bckFrom"
    and p2: "mi_Path mi2 = mi_Path mi"
    by simp_all
  obtain erd sn where rn: "Rename fromPath toPath s = (erd, sn)"
    by (cases "Rename fromPath toPath s")
  obtain ren1 s2 where rec: "rollbackLoop renamed bckFrom bckTo sn = (ren1, s2)"
    by (cases "rollbackLoop renamed bckFrom bckTo sn")
  from Cons.IH [OF rest_co, of sn] pm mt mf rn rec fp tp p2 show ?case
    by (simp add: dirPairs_def)
qed

lemma notin_pairs:
  "(a, b) \<in> set pairs \<Longrightarrow> q \<notin> fst ` set pairs \<Longrightarrow> q \<notin> snd ` set pairs \<Longrightarrow>
     a \<noteq> q \<and> b \<noteq> q"
  by force

lemma step_other:
  "q \<noteq> dst \<Longrightarrow> q \<noteq> src \<Longrightarrow>
     fmlookup (tree (snd (Rename src dst (snd (RemoveAll dst s))))) q = fmlookup (tree s) q"
  by (auto simp: Rename_def RemoveAll_def issue_def split: option.splits list.splits)

lemma step_ok:
  "Rename src dst (snd (RemoveAll dst s)) = (None, s2) \<Longrightarrow> src \<noteq> dst \<Longrightarrow>
     fmlookup (tree s) src \<noteq> None \<and> fmlookup (tree s2) dst = fmlookup (tree s) src
     \<and> fmlookup (tree s2) src = None"
  by (auto simp: Rename_def RemoveAll_def issue_def split: option.splits list.splits if_splits)

lemma step_fail:
  "Rename src dst (snd (RemoveAll dst s)) = (Some e, s2) \<Longrightarrow> src \<noteq> dst \<Longrightarrow>
     fmlookup (tree s2) src = fmlookup (tree s) src"
  by (auto simp: Rename_def RemoveAll_def issue_def split: option.splits list.splits if_splits)

lemma forward_untouched:
  "forwardRenames pairs s = (e, k, s1) \<Longrightarrow> q \<notin> fst ` set pairs \<Longrightarrow> q \<notin> snd ` set pairs \<Longrightarrow>
     fmlookup (tree s1) q = fmlookup (tree s) q"
proof (induction pairs arbitrary: s e k s1)
  case Nil
  then show ?case by simp
next
  case (Cons p pairs)
  obtain src dst where p: "p = (src, dst)" by (cases p)
  obtain r s2 where st: "Rename src dst (snd (RemoveAll dst s)) = (r, s2)"
    by (cases "Rename src dst (snd (RemoveAll dst s))")
  from Cons.prems p have q: "q \<noteq> src" "q \<noteq> dst" "q \<notin> fst ` set pairs" "q \<notin> snd ` set pairs"
    by auto
  from step_other [OF q(2,1), of s] st have o: "fmlookup (tree s2) q = fmlookup (tree s) q"
    by simp
  show ?case
  proof (cases r)
    case (Some err)
    with Cons.prems(1) p st o show ?thesis by simp
  next
    case None
    obtain e' k' s3 where rec: "forwardRenames pairs s2 = (e', k', s3)"
      by (cases "forwardRenames pairs s2") auto
    with Cons.prems(1) p st None have "s1 = s3" by simp
    with Cons.IH [OF rec q(3,4)] o show ?thesis by simp
  qed
qed

lemma forward_effect:
  assumes "distinct (map fst pairs @ map snd pairs)"
    and "forwardRenames pairs s = (e, k, s1)"
  shows "k \<le> length pairs
     \<and> (\<forall>(src, dst) \<in> set (take k pairs).
           fmlookup (tree s) src \<noteq> None \<and> fmlookup (tree s1) dst = fmlookup (tree s) src
           \<and> fmlookup (tree s1) src = None)
     \<and> (\<forall>(src, dst) \<in> set (drop k pairs). fmlookup (tree s1) src = fmlookup (tree s) src)"
  using assms
proof (induction pairs arbitrary: s e k s1)
  case Nil
  then show ?case by simp
next
  case (Cons p pairs)
  obtain src dst where p: "p = (src, dst)" by (cases p)
  from Cons.prems(1) p have ne: "src \<noteq> dst"
    and out: "src \<notin> fst ` set pairs" "src \<notin> snd ` set pairs"
      "dst \<notin> fst ` set pairs" "dst \<notin> snd ` set pairs"
    and d': "distinct (map fst pairs @ map snd pairs)"
    by auto
  obtain r s2 where st: "Rename src dst (snd (RemoveAll dst s)) = (r, s2)"
    by (cases "Rename src dst (snd (RemoveAll dst s))")
  have others: "\<And>q. q \<noteq> src \<Longrightarrow> q \<noteq> dst \<Longrightarrow> fmlookup (tree s2) q = fmlookup (tree s) q"
    using step_other [of _ dst src s] st by simp
  show ?case
  proof (cases r)
    case (Some err)
    with Cons.prems(2) p st have k: "k = 0" and s1: "s1 = s2" by simp_all
    have "\<forall>(a, b) \<in> set pairs. fmlookup (tree s2) a = fmlookup (tree s) a"
      using others notin_pairs [OF _ out(1,2)] notin_pairs [OF _ out(3,4)] by auto
    with step_fail [OF st [unfolded Some] ne] k s1 p show ?thesis by simp
  next
    case None
    obtain e' k' s3 where rec: "forwardRenames pairs s2 = (e', k', s3)"
      by (cases "forwardRenames pairs s2") auto
    with Cons.prems(2) p st None have k: "k = Suc k'" and s1: "s1 = s3" by simp_all
    from Cons.IH [OF d' rec] have ih: "k' \<le> length pairs"
      "\<forall>(a, b) \<in> set (take k' pairs).
           fmlookup (tree s2) a \<noteq> None \<and> fmlookup (tree s3) b = fmlookup (tree s2) a
           \<and> fmlookup (tree s3) a = None"
      "\<forall>(a, b) \<in> set (drop k' pairs). fmlookup (tree s3) a = fmlookup (tree s2) a"
      by auto
    have same: "\<forall>(a, b) \<in> set pairs. fmlookup (tree s2) a = fmlookup (tree s) a"
      using others notin_pairs [OF _ out(1,2)] notin_pairs [OF _ out(3,4)] by auto
    from forward_untouched [OF rec out(1,2)] forward_untouched [OF rec out(3,4)]
      step_ok [OF st [unfolded None] ne]
    have hd: "fmlookup (tree s) src \<noteq> None" "fmlookup (tree s3) dst = fmlookup (tree s) src"
      "fmlookup (tree s3) src = None"
      by simp_all
    have t: "\<forall>(a, b) \<in> set (take k' pairs).
           fmlookup (tree s) a \<noteq> None \<and> fmlookup (tree s3) b = fmlookup (tree s) a
           \<and> fmlookup (tree s3) a = None"
    proof (clarify)
      fix a b assume ab: "(a, b) \<in> set (take k' pairs)"
      then have "(a, b) \<in> set pairs" by (rule in_set_takeD)
      with same have eq: "fmlookup (tree s2) a = fmlookup (tree s) a" by auto
      from ih(2) ab have "fmlookup (tree s2) a \<noteq> None
           \<and> fmlookup (tree s3) b = fmlookup (tree s2) a \<and> fmlookup (tree s3) a = None"
        by fast
      then show "fmlookup (tree s) a \<noteq> None
           \<and> fmlookup (tree s3) b = fmlookup (tree s) a \<and> fmlookup (tree s3) a = None"
        unfolding eq .
    qed
    have dr: "\<forall>(a, b) \<in> set (drop k' pairs). fmlookup (tree s3) a = fmlookup (tree s) a"
    proof (clarify)
      fix a b assume ab: "(a, b) \<in> set (drop k' pairs)"
      then have "(a, b) \<in> set pairs" by (rule in_set_dropD)
      with same have eq: "fmlookup (tree s2) a = fmlookup (tree s) a" by auto
      from ih(3) ab have "fmlookup (tree s3) a = fmlookup (tree s2) a" by fast
      then show "fmlookup (tree s3) a = fmlookup (tree s) a" unfolding eq .
    qed
    from ih(1) hd t dr k s1 p show ?thesis by simp
  qed
qed

lemma backward_calls:
  "calls (backwardRenames pairs s) = calls s @ map (\<lambda>(src, dst). SysRename dst src) pairs"
proof (induction pairs arbitrary: s)
  case Nil
  then show ?case by simp
next
  case (Cons p pairs)
  obtain src dst where p: "p = (src, dst)" by (cases p)
  have "calls (snd (Rename dst src s)) = calls s @ [SysRename dst src]"
    by (simp add: Rename_def issue_def split: option.splits list.splits)
  with Cons.IH [of "snd (Rename dst src s)"] p show ?case by simp
qed

lemma back_step:
  assumes "calm s" "fmlookup (tree s) dst = Some c" "fmlookup (tree s) src = None"
  shows "calm (snd (Rename dst src s))
     \<and> fmlookup (tree (snd (Rename dst src s))) src = Some c
     \<and> fmlookup (tree (snd (Rename dst src s))) dst = None
     \<and> (\<forall>q. q \<noteq> src \<and> q \<noteq> dst \<longrightarrow>
           fmlookup (tree (snd (Rename dst src s))) q = fmlookup (tree s) q)"
proof -
  from assms(2,3) have ne: "dst \<noteq> src" by auto
  have "calm (issue (SysRename dst src) s)"
    using assms(1) by (cases "faults s") (auto simp: calm_def issue_def)
  then have "calm ((issue (SysRename dst src) s)\<lparr>tree := fmupd src c (fmdrop dst (tree s))\<rparr>)"
    by (simp add: calm_def)
  with assms ne calm_not_faulty [OF assms(1)] show ?thesis
    by (auto simp: Rename_def issue_def)
qed

lemma backward_effect:
  assumes "calm s"
    and "distinct (map fst pairs @ map snd pairs)"
    and "\<forall>(src, dst) \<in> set pairs. fmlookup (tree s) src = None \<and> fmlookup (tree s) dst \<noteq> None"
  shows "(\<forall>(src, dst) \<in> set pairs.
            fmlookup (tree (backwardRenames pairs s)) src = fmlookup (tree s) dst
            \<and> fmlookup (tree (backwardRenames pairs s)) dst = None)
     \<and> (\<forall>q. q \<notin> fst ` set pairs \<and> q \<notin> snd ` set pairs \<longrightarrow>
            fmlookup (tree (backwardRenames pairs s)) q = fmlookup (tree s) q)"
  using assms
proof (induction pairs arbitrary: s)
  case Nil
  then show ?case by simp
next
  case (Cons p pairs)
  obtain src dst where p: "p = (src, dst)" by (cases p)
  from Cons.prems(2) p have out: "src \<notin> fst ` set pairs" "src \<notin> snd ` set pairs"
      "dst \<notin> fst ` set pairs" "dst \<notin> snd ` set pairs"
    and d': "distinct (map fst pairs @ map snd pairs)"
    by auto
  from Cons.prems(3) p obtain c where c: "fmlookup (tree s) dst = Some c"
    and n: "fmlookup (tree s) src = None"
    by auto
  let ?s = "snd (Rename dst src s)"
  from back_step [OF Cons.prems(1) c n] have cs: "calm ?s"
    and hs: "fmlookup (tree ?s) src = Some c" "fmlookup (tree ?s) dst = None"
    and os: "\<And>q. q \<noteq> src \<Longrightarrow> q \<noteq> dst \<Longrightarrow> fmlookup (tree ?s) q = fmlookup (tree s) q"
    by auto
  have pre: "\<forall>(a, b) \<in> set pairs. fmlookup (tree ?s) a = None \<and> fmlookup (tree ?s) b \<noteq> None"
  proof (clarify)
    fix a b assume ab: "(a, b) \<in> set pairs"
    with notin_pairs [OF _ out(1,2)] notin_pairs [OF _ out(3,4)]
    have "a \<noteq> src" "a \<noteq> dst" "b \<noteq> src" "b \<noteq> dst"
      by blast+
    with os Cons.prems(3) ab show "fmlookup (tree ?s) a = None \<and> fmlookup (tree ?s) b \<noteq> None"
      by auto
  qed
  from Cons.IH [OF cs d' pre] have ih:
    "\<forall>(a, b) \<in> set pairs.
        fmlookup (tree (backwardRenames pairs ?s)) a = fmlookup (tree ?s) b
        \<and> fmlookup (tree (backwardRenames pairs ?s)) b = None"
    "\<And>q. q \<notin> fst ` set pairs \<Longrightarrow> q \<notin> snd ` set pairs \<Longrightarrow>
        fmlookup (tree (backwardRenames pairs ?s)) q = fmlookup (tree ?s) q"
    by auto
  have tl: "\<forall>(a, b) \<in> set pairs.
        fmlookup (tree (backwardRenames pairs ?s)) a = fmlookup (tree s) b
        \<and> fmlookup (tree (backwardRenames pairs ?s)) b = None"
  proof (clarify)
    fix a b assume ab: "(a, b) \<in> set pairs"
    with notin_pairs [OF _ out(1,2)] notin_pairs [OF _ out(3,4)]
    have "b \<noteq> src" "b \<noteq> dst"
      by blast+
    with os ih(1) ab show "fmlookup (tree (backwardRenames pairs ?s)) a = fmlookup (tree s) b
        \<and> fmlookup (tree (backwardRenames pairs ?s)) b = None"
      by auto
  qed
  from ih(2) [OF out(1,2)] ih(2) [OF out(3,4)] hs c
  have hd: "fmlookup (tree (backwardRenames pairs ?s)) src = fmlookup (tree s) dst"
    "fmlookup (tree (backwardRenames pairs ?s)) dst = None"
    by simp_all
  have rest: "\<forall>q. q \<notin> fst ` set (p # pairs) \<and> q \<notin> snd ` set (p # pairs) \<longrightarrow>
            fmlookup (tree (backwardRenames pairs ?s)) q = fmlookup (tree s) q"
    using ih(2) os p by auto
  from hd tl rest p show ?case by simp
qed

lemma distinct_take_pairs:
  assumes "distinct (map fst pairs @ map snd pairs)"
  shows "distinct (map fst (take k pairs) @ map snd (take k pairs))"
proof -
  have "set (take k pairs) \<subseteq> set pairs" by (rule set_take_subset)
  then have sub: "fst ` set (take k pairs) \<subseteq> fst ` set pairs"
    "snd ` set (take k pairs) \<subseteq> snd ` set pairs"
    by auto
  from assms have d: "distinct (map fst pairs)" "distinct (map snd pairs)"
    and x: "fst ` set pairs \<inter> snd ` set pairs = {}"
    by auto
  from d have t: "distinct (take k (map fst pairs))" "distinct (take k (map snd pairs))"
    by simp_all
  from sub x have "fst ` set (take k pairs) \<inter> snd ` set (take k pairs) = {}"
    by blast
  with t show ?thesis by (simp add: take_map)
qed

lemma drop_src_notin_take:
  assumes "distinct (map fst pairs @ map snd pairs)" "(src, dst) \<in> set (drop k pairs)"
  shows "src \<notin> fst ` set (take k pairs) \<and> src \<notin> snd ` set (take k pairs)"
proof -
  from assms(1) have d: "distinct (map fst pairs)"
    and x: "fst ` set pairs \<inter> snd ` set pairs = {}"
    by auto
  from assms(2) have m: "src \<in> fst ` set (drop k pairs)" by force
  from d have "distinct (take k (map fst pairs) @ drop k (map fst pairs))" by simp
  then have "set (take k (map fst pairs)) \<inter> set (drop k (map fst pairs)) = {}"
    by (simp only: distinct_append)
  with m have a: "src \<notin> fst ` set (take k pairs)"
    by (auto simp: take_map drop_map)
  from m have "src \<in> fst ` set pairs"
    using set_drop_subset [of k pairs] by auto
  with x have "src \<notin> snd ` set pairs" by auto
  then have b: "src \<notin> snd ` set (take k pairs)"
    using set_take_subset [of k pairs] by auto
  from a b show ?thesis ..
qed

lemma threePairs:
  "dirPairs (aisBucket ''b1'') (aisBucket ''b2'') threeMpaths
     = [(''/a/@ais/b1'', ''/a/@ais/b2''), (''/b/@ais/b1'', ''/b/@ais/b2''),
        (''/c/@ais/b1'', ''/c/@ais/b2'')]"
  by (simp add: dirPairs_def threeMpaths_def bucketDir_def mpathAt_def aisBucket_def)

lemma three_coherent:
  "\<forall>(path, mi) \<in> set threeMpaths. coherent 7 (aisBucket ''b1'') (aisBucket ''b2'') mi"
  by (simp add: threeMpaths_def coherent_def mpathAt_def aisBucket_def)

lemma loop_eval:
  "fst (renameLoop threeMpaths 7 (aisBucket ''b1'') (aisBucket ''b2'')
          (renameOs (False # False # False # False # False # True # fs))) = Some EIO"
  "fst (snd (renameLoop threeMpaths 7 (aisBucket ''b1'') (aisBucket ''b2'')
          (renameOs (False # False # False # False # False # True # fs))))
     = [(''/a'', mpathAt ''/a''), (''/b'', mpathAt ''/b'')]"
  "faults (snd (snd (snd (renameLoop threeMpaths 7 (aisBucket ''b1'') (aisBucket ''b2'')
          (renameOs (False # False # False # False # False # True # fs)))))) = fs"
  "calls (snd (snd (snd (renameLoop threeMpaths 7 (aisBucket ''b1'') (aisBucket ''b2'')
          (renameOs (False # False # False # False # False # True # fs))))))
     = [SysRemoveAll ''/a/@ais/b2'', SysRename ''/a/@ais/b1'' ''/a/@ais/b2'',
        SysRemoveAll ''/b/@ais/b2'', SysRename ''/b/@ais/b1'' ''/b/@ais/b2'',
        SysRemoveAll ''/c/@ais/b2'', SysRename ''/c/@ais/b1'' ''/c/@ais/b2'']"
  by (simp_all add: threeMpaths_def renameOs_def os_eval)


text \<open>
  C1, as the claim states it, fails. Three mountpaths hold the bucket \<^verbatim>\<open>b1\<close>; the rename
  on \<^verbatim>\<open>/c\<close> (the sixth call) fails, and so does the rollback rename on \<^verbatim>\<open>/b\<close> (the
  eighth). The function returns the error of the rename on \<^verbatim>\<open>/c\<close>; the log of calls
  shows the rollback on \<^verbatim>\<open>/a\<close> before the one on \<^verbatim>\<open>/b\<close>, which is the order in which
  they were renamed and not its reverse; and afterwards \<^verbatim>\<open>/b\<close> holds the destination
  \<^verbatim>\<open>b2\<close> and not the source \<^verbatim>\<open>b1\<close>.
\<close>

theorem RenameBucketDirs_rollback_counterexample:
  "fst (RenameBucketDirs threeMpaths 7 (aisBucket ''b1'') (aisBucket ''b2'')
          (renameOs [False, False, False, False, False, True, False, True]))
     = Some (OsError EIO)
   \<and> calls (snd (snd (RenameBucketDirs threeMpaths 7 (aisBucket ''b1'') (aisBucket ''b2'')
          (renameOs [False, False, False, False, False, True, False, True]))))
     = [SysRemoveAll ''/a/@ais/b2'', SysRename ''/a/@ais/b1'' ''/a/@ais/b2'',
        SysRemoveAll ''/b/@ais/b2'', SysRename ''/b/@ais/b1'' ''/b/@ais/b2'',
        SysRemoveAll ''/c/@ais/b2'', SysRename ''/c/@ais/b1'' ''/c/@ais/b2'',
        SysRename ''/a/@ais/b2'' ''/a/@ais/b1'', SysRename ''/b/@ais/b2'' ''/b/@ais/b1'']
   \<and> fmlookup (tree (snd (snd (RenameBucketDirs threeMpaths 7 (aisBucket ''b1'')
          (aisBucket ''b2'') (renameOs [False, False, False, False, False, True, False, True])))))
        ''/b/@ais/b1'' = None
   \<and> fmlookup (tree (snd (snd (RenameBucketDirs threeMpaths 7 (aisBucket ''b1'')
          (aisBucket ''b2'') (renameOs [False, False, False, False, False, True, False, True])))))
        ''/b/@ais/b2'' = Some [''y'']"
  by (simp add: RenameBucketDirs_def threeMpaths_def renameOs_def os_eval)

text \<open>
  C1, amended. Let the first loop of \<^verbatim>\<open>RenameBucketDirs\<close> fail on some mountpath, on
  mountpaths whose caches hold nothing stale for the two buckets. Then the function
  returns the error of that rename, whatever the rollback renames return; the rollback
  renames are issued on the mountpaths already renamed in the order in which they were
  renamed; and when no call faults during the rollback and the source and destination
  directories of the mountpaths are pairwise different, afterwards every mountpath
  holds its source directory as before the call, and every mountpath that had been
  renamed (each of which had its source directory) does not hold the destination.
\<close>

theorem RenameBucketDirs_rollback:
  assumes loop: "renameLoop availablePaths bidFrom bckFrom bckTo s = (Some err, renamed, rest, s1)"
    and coh: "\<forall>(path, mi) \<in> set availablePaths. coherent bidFrom bckFrom bckTo mi"
  shows "fst (RenameBucketDirs availablePaths bidFrom bckFrom bckTo s) = Some (OsError err)
     \<and> calls (snd (snd (RenameBucketDirs availablePaths bidFrom bckFrom bckTo s)))
         = calls s1 @ map (\<lambda>(src, dst). SysRename dst src) (dirPairs bckFrom bckTo renamed)
     \<and> (calm s1
          \<and> distinct (map fst (dirPairs bckFrom bckTo availablePaths)
                       @ map snd (dirPairs bckFrom bckTo availablePaths)) \<longrightarrow>
          (\<forall>(src, dst) \<in> set (dirPairs bckFrom bckTo availablePaths).
              fmlookup (tree (snd (snd (RenameBucketDirs availablePaths bidFrom bckFrom bckTo s)))) src
                = fmlookup (tree s) src)
          \<and> (\<forall>(src, dst) \<in> set (dirPairs bckFrom bckTo renamed).
                fmlookup (tree s) src \<noteq> None
                \<and> fmlookup (tree (snd (snd (RenameBucketDirs availablePaths bidFrom bckFrom bckTo s)))) dst
                    = None))"
proof -
  let ?ps = "dirPairs bckFrom bckTo availablePaths"
  let ?rs = "dirPairs bckFrom bckTo renamed"
  let ?k = "length renamed"
  let ?R = "RenameBucketDirs availablePaths bidFrom bckFrom bckTo s"
  let ?s2 = "backwardRenames ?rs s1"
  from coh have ac: "allCoherent bidFrom bckFrom bckTo availablePaths"
    by (simp add: allCoherent_def list_all_iff)
  from renameLoop_forward [OF ac loop]
  have fwd: "forwardRenames ?ps s = (Some err, ?k, s1)"
    and split: "dirPairs bckFrom bckTo (renamed @ rest) = ?ps"
    and rc: "allCoherent bidFrom bckFrom bckTo renamed"
    by simp_all
  from split have app: "?ps = ?rs @ dirPairs bckFrom bckTo rest"
    by (simp add: dirPairs_def)
  have lr: "length ?rs = ?k" by (simp add: dirPairs_def)
  from app lr have tk: "take ?k ?ps = ?rs" and dk: "drop ?k ?ps = dirPairs bckFrom bckTo rest"
    by simp_all
  obtain ren1 sx where rb: "rollbackLoop renamed bckFrom bckTo s1 = (ren1, sx)"
    by (cases "rollbackLoop renamed bckFrom bckTo s1")
  with rollbackLoop_backward [OF rc, of s1] have sx: "sx = ?s2" by simp
  from loop rb sx have R: "?R = (Some (OsError err), ren1 @ rest, ?s2)"
    by (simp add: RenameBucketDirs_def)
  have A: "fst ?R = Some (OsError err)" by (simp add: R)
  have B: "calls (snd (snd ?R)) = calls s1 @ map (\<lambda>(src, dst). SysRename dst src) ?rs"
    by (simp add: R backward_calls)
  have C: "calm s1 \<and> distinct (map fst ?ps @ map snd ?ps) \<longrightarrow>
          (\<forall>(src, dst) \<in> set ?ps. fmlookup (tree (snd (snd ?R))) src = fmlookup (tree s) src)
          \<and> (\<forall>(src, dst) \<in> set ?rs.
                fmlookup (tree s) src \<noteq> None \<and> fmlookup (tree (snd (snd ?R))) dst = None)"
  proof (intro impI, elim conjE)
    assume calm: "calm s1" and dist: "distinct (map fst ?ps @ map snd ?ps)"
    from forward_effect [OF dist fwd] tk dk
    have f1: "\<forall>(src, dst) \<in> set ?rs.
           fmlookup (tree s) src \<noteq> None \<and> fmlookup (tree s1) dst = fmlookup (tree s) src
           \<and> fmlookup (tree s1) src = None"
      and f2: "\<forall>(src, dst) \<in> set (drop ?k ?ps). fmlookup (tree s1) src = fmlookup (tree s) src"
      by simp_all
    from distinct_take_pairs [OF dist, of ?k] tk
    have dr: "distinct (map fst ?rs @ map snd ?rs)" by simp
    have pre: "\<forall>(src, dst) \<in> set ?rs.
        fmlookup (tree s1) src = None \<and> fmlookup (tree s1) dst \<noteq> None"
      using f1 by fastforce
    from backward_effect [OF calm dr pre]
    have b1: "\<forall>(src, dst) \<in> set ?rs.
            fmlookup (tree ?s2) src = fmlookup (tree s1) dst \<and> fmlookup (tree ?s2) dst = None"
      and b2: "\<And>q. q \<notin> fst ` set ?rs \<Longrightarrow> q \<notin> snd ` set ?rs \<Longrightarrow>
            fmlookup (tree ?s2) q = fmlookup (tree s1) q"
      by auto
    have ren: "\<forall>(src, dst) \<in> set ?rs.
        fmlookup (tree ?s2) src = fmlookup (tree s) src \<and> fmlookup (tree s) src \<noteq> None
        \<and> fmlookup (tree ?s2) dst = None"
    proof (clarify)
      fix src dst assume m: "(src, dst) \<in> set ?rs"
      from f1 m have "fmlookup (tree s) src \<noteq> None \<and> fmlookup (tree s1) dst = fmlookup (tree s) src"
        by fast
      moreover from b1 m have "fmlookup (tree ?s2) src = fmlookup (tree s1) dst
          \<and> fmlookup (tree ?s2) dst = None"
        by fast
      ultimately show "fmlookup (tree ?s2) src = fmlookup (tree s) src
          \<and> fmlookup (tree s) src \<noteq> None \<and> fmlookup (tree ?s2) dst = None"
        by simp
    qed
    have later: "\<forall>(src, dst) \<in> set (drop ?k ?ps). fmlookup (tree ?s2) src = fmlookup (tree s) src"
    proof (clarify)
      fix src dst assume m: "(src, dst) \<in> set (drop ?k ?ps)"
      from drop_src_notin_take [OF dist m] tk
      have "src \<notin> fst ` set ?rs" "src \<notin> snd ` set ?rs" by simp_all
      then have "fmlookup (tree ?s2) src = fmlookup (tree s1) src" by (rule b2)
      moreover from f2 m have "fmlookup (tree s1) src = fmlookup (tree s) src" by fast
      ultimately show "fmlookup (tree ?s2) src = fmlookup (tree s) src" by simp
    qed
    have all: "\<forall>(src, dst) \<in> set ?ps. fmlookup (tree ?s2) src = fmlookup (tree s) src"
    proof (clarify)
      fix src dst assume "(src, dst) \<in> set ?ps"
      then have "(src, dst) \<in> set (take ?k ?ps) \<or> (src, dst) \<in> set (drop ?k ?ps)"
        by (metis append_take_drop_id set_append Un_iff)
      with ren later tk show "fmlookup (tree ?s2) src = fmlookup (tree s) src"
        by fastforce
    qed
    from all ren show "(\<forall>(src, dst) \<in> set ?ps. fmlookup (tree (snd (snd ?R))) src = fmlookup (tree s) src)
          \<and> (\<forall>(src, dst) \<in> set ?rs.
                fmlookup (tree s) src \<noteq> None \<and> fmlookup (tree (snd (snd ?R))) dst = None)"
      unfolding R by fastforce
  qed
  from A B C show ?thesis by (intro conjI)
qed

theorem RenameBucketDirs_rollback_witness:
  "fst (RenameBucketDirs threeMpaths 7 (aisBucket ''b1'') (aisBucket ''b2'')
          (renameOs [False, False, False, False, False, True]))
     = Some (OsError EIO)
   \<and> calls (snd (snd (RenameBucketDirs threeMpaths 7 (aisBucket ''b1'') (aisBucket ''b2'')
          (renameOs [False, False, False, False, False, True]))))
     = [SysRemoveAll ''/a/@ais/b2'', SysRename ''/a/@ais/b1'' ''/a/@ais/b2'',
        SysRemoveAll ''/b/@ais/b2'', SysRename ''/b/@ais/b1'' ''/b/@ais/b2'',
        SysRemoveAll ''/c/@ais/b2'', SysRename ''/c/@ais/b1'' ''/c/@ais/b2'',
        SysRename ''/a/@ais/b2'' ''/a/@ais/b1'', SysRename ''/b/@ais/b2'' ''/b/@ais/b1'']
   \<and> fmlookup (tree (snd (snd (RenameBucketDirs threeMpaths 7 (aisBucket ''b1'')
          (aisBucket ''b2'') (renameOs [False, False, False, False, False, True])))))
        ''/b/@ais/b1'' = Some [''y'']
   \<and> fmlookup (tree (snd (snd (RenameBucketDirs threeMpaths 7 (aisBucket ''b1'')
          (aisBucket ''b2'') (renameOs [False, False, False, False, False, True])))))
        ''/b/@ais/b2'' = None"
proof -
  let ?s = "renameOs [False, False, False, False, False, True]"
  let ?L = "renameLoop threeMpaths 7 (aisBucket ''b1'') (aisBucket ''b2'') ?s"
  have L: "?L = (Some EIO, [(''/a'', mpathAt ''/a''), (''/b'', mpathAt ''/b'')],
                 fst (snd (snd ?L)), snd (snd (snd ?L)))"
    using loop_eval(1,2) [of "[]"] by (simp add: prod_eq_iff)
  have c: "calm (snd (snd (snd ?L)))"
    using loop_eval(3) [of "[]"] by (simp add: calm_def)
  have d: "distinct (map fst (dirPairs (aisBucket ''b1'') (aisBucket ''b2'') threeMpaths)
                     @ map snd (dirPairs (aisBucket ''b1'') (aisBucket ''b2'') threeMpaths))"
    by (simp add: threePairs)
  have r: "dirPairs (aisBucket ''b1'') (aisBucket ''b2'')
             [(''/a'', mpathAt ''/a''), (''/b'', mpathAt ''/b'')]
           = [(''/a/@ais/b1'', ''/a/@ais/b2''), (''/b/@ais/b1'', ''/b/@ais/b2'')]"
    by (simp add: dirPairs_def bucketDir_def mpathAt_def aisBucket_def)
  have t: "fmlookup (tree ?s) ''/b/@ais/b1'' = Some [''y'']"
    by (simp add: renameOs_def osWith_def)
  show ?thesis
    using RenameBucketDirs_rollback [OF L three_coherent] c d
    by (simp add: r threePairs loop_eval(4) [of "[]"] t)
qed

end
